(* ===== verification/Hub_Prelude.thy ===== *)
theory Hub_Prelude
  imports Main "HOL-Library.Word" "HOL-Library.Multiset"
begin

text \<open>
  Shared vocabulary of the development: the exception values the library and the user code
  raise, the machine-integer synonyms, the clock type, and the generic lemmas on lists and words
  the component theories share.
\<close>

section \<open>Types shared by the components\<close>

text \<open>
  \<open>u64\<close> stands for \<^verbatim>\<open>std::uint64_t\<close> and \<^verbatim>\<open>std::size_t\<close> on a 64-bit platform; arithmetic on it
  wraps as \<^verbatim>\<open>fetch_add\<close> and \<^verbatim>\<open>fetch_sub\<close> do. \<open>time\<close> is a steady-clock time point or duration
  counted in clock ticks. Signed overflow of a time point is undefined behaviour in the
  source; times are unbounded integers here.
\<close>

type_synonym u64 = "64 word"
type_synonym time = int

text \<open>
  An exception in flight. The library itself throws standard exceptions; anything thrown by
  a user callback is a \<open>User_exn\<close> with an arbitrary tag.
\<close>

datatype exn =
    Bad_function_call
  | Bad_cast
  | Logic_error string
  | Invalid_argument string
  | Runtime_error string
  | Request_timeout u64
  | User_exn nat

text \<open>Clock ticks are nanoseconds, as on the supported standard libraries.\<close>

definition milliseconds :: "int \<Rightarrow> time" where
  "milliseconds ms = ms * 1000000"

named_theorems hub_frame \<open>which fields an operation leaves alone\<close>

section \<open>Words\<close>

lemma of_nat_word_nonzero: "0 < k \<Longrightarrow> k < 2 ^ LENGTH('a) \<Longrightarrow> (of_nat k :: 'a::len word) \<noteq> 0"
  by (simp add: word_of_nat_eq_0_iff nat_dvd_not_less)

lemma word_less_self_add_one: "n + 1 \<noteq> 0 \<Longrightarrow> n < (n :: 'a::len word) + 1"
  by (rule ccontr) (simp add: not_less inc_less_eq_self_iff_eq)

lemma word_less_add_one: "n + 1 \<noteq> 0 \<Longrightarrow> x < (n :: 'a::len word) \<Longrightarrow> x < n + 1"
  by (drule word_less_self_add_one) (rule order.strict_trans)

section \<open>Lists\<close>

lemma nth_update: "j < length xs \<Longrightarrow> xs[i := x] ! j = (if i = j then x else xs ! j)"
  by (cases "i < length xs") (simp_all add: nth_list_update)

end
