(* ===== verification/Std_Heap.thy ===== *)
theory Std_Heap
  imports Hub_Prelude
begin

text \<open>
  The part of \<^verbatim>\<open><algorithm>\<close> the delayed-task queue uses: \<^verbatim>\<open>std::push_heap\<close> and \<^verbatim>\<open>std::pop_heap\<close> on
  a vector, with a comparator \<open>cmp\<close> under which the front is a maximal element. The layout
  inside the vector is the textbook binary heap; every theorem about the task manager uses only the
  contract collected in the locale \<open>heap_queue\<close>, which is what the C++ standard promises.
\<close>

section \<open>Sifting\<close>

definition heap_parent :: "nat \<Rightarrow> nat" where
  "heap_parent i = (i - 1) div 2"

lemma heap_parent_0 [simp]: "heap_parent 0 = 0"
  by (simp add: heap_parent_def)

lemma heap_parent_less: "0 < i \<Longrightarrow> heap_parent i < i"
  by (auto simp: heap_parent_def)

function sift_up :: "('a \<Rightarrow> 'a \<Rightarrow> bool) \<Rightarrow> nat \<Rightarrow> 'a list \<Rightarrow> 'a list" where
  "sift_up cmp i v =
     (if i = 0 then v
      else let p = heap_parent i
           in if cmp (v ! p) (v ! i) then sift_up cmp p (v[p := v ! i, i := v ! p]) else v)"
  by pat_completeness auto
termination
  by (relation "measure (\<lambda>(cmp, i, v). i)") (auto simp: heap_parent_less)

declare sift_up.simps [simp del]

definition larger_child :: "('a \<Rightarrow> 'a \<Rightarrow> bool) \<Rightarrow> nat \<Rightarrow> 'a list \<Rightarrow> nat" where
  "larger_child cmp i v =
     (if 2 * i + 2 < length v \<and> cmp (v ! (2 * i + 1)) (v ! (2 * i + 2)) then 2 * i + 2
      else 2 * i + 1)"

function sift_down :: "('a \<Rightarrow> 'a \<Rightarrow> bool) \<Rightarrow> nat \<Rightarrow> 'a list \<Rightarrow> 'a list" where
  "sift_down cmp i v =
     (if length v \<le> 2 * i + 1 then v
      else let c = larger_child cmp i v
           in if cmp (v ! i) (v ! c) then sift_down cmp c (v[i := v ! c, c := v ! i]) else v)"
  by pat_completeness auto
termination
  by (relation "measure (\<lambda>(cmp, i, v). length v - i)") (auto simp: larger_child_def Let_def split: if_splits)

declare sift_down.simps [simp del]

text \<open>
  \<^verbatim>\<open>push_heap\<close> expects the new element at the back; \<^verbatim>\<open>pop_heap\<close> leaves the old front at the back,
  for the caller's \<^verbatim>\<open>pop_back\<close>.
\<close>

definition push_heap :: "('a \<Rightarrow> 'a \<Rightarrow> bool) \<Rightarrow> 'a list \<Rightarrow> 'a list" where
  "push_heap cmp v = sift_up cmp (length v - 1) v"

definition pop_heap :: "('a \<Rightarrow> 'a \<Rightarrow> bool) \<Rightarrow> 'a list \<Rightarrow> 'a list" where
  "pop_heap cmp v =
     (if length v \<le> 1 then v
      else sift_down cmp 0 (butlast (v[0 := last v])) @ [v ! 0])"

definition is_heap :: "('a \<Rightarrow> 'a \<Rightarrow> bool) \<Rightarrow> 'a list \<Rightarrow> bool" where
  "is_heap cmp v \<longleftrightarrow> (\<forall>i < length v. 0 < i \<longrightarrow> \<not> cmp (v ! heap_parent i) (v ! i))"

section \<open>Sifting permutes\<close>

lemma mset_swap_nth: "i < length v \<Longrightarrow> j < length v \<Longrightarrow> mset (v[i := v ! j, j := v ! i]) = mset v"
  by (rule mset_swap)

lemma mset_sift_up: "i < length v \<Longrightarrow> mset (sift_up cmp i v) = mset v"
proof (induction cmp i v rule: sift_up.induct)
  case (1 cmp i v)
  then have "heap_parent i < length v" using heap_parent_less [of i] by (cases "i = 0") auto
  with 1 show ?case
    by (subst sift_up.simps) (auto simp: Let_def mset_swap_nth)
qed

lemma larger_child_bound: "2 * i + 1 < length v \<Longrightarrow> larger_child cmp i v < length v"
  by (simp add: larger_child_def)

lemma mset_sift_down: "mset (sift_down cmp i v) = mset v"
proof (induction cmp i v rule: sift_down.induct)
  case (1 cmp i v)
  show ?case
    using 1 larger_child_bound [of i v cmp]
    by (subst sift_down.simps) (auto simp: Let_def mset_swap_nth)
qed

section \<open>The heap property\<close>

text \<open>
  \<^verbatim>\<open>cmp\<close> must be a strict weak order, as the C++ standard requires of a comparator.
\<close>

locale weak_order =
  fixes cmp :: "'a \<Rightarrow> 'a \<Rightarrow> bool"
  assumes asym: "cmp a b \<Longrightarrow> \<not> cmp b a"
    and ntrans: "\<not> cmp a b \<Longrightarrow> \<not> cmp b c \<Longrightarrow> \<not> cmp a c"
begin

lemma irrefl: "\<not> cmp a a"
  using asym by blast

text \<open>The front of a heap is maximal.\<close>

lemma heap_front: "is_heap cmp v \<Longrightarrow> i < length v \<Longrightarrow> \<not> cmp (v ! 0) (v ! i)"
proof (induction i rule: less_induct)
  case (less i)
  show ?case
  proof (cases "i = 0")
    case False
    then have "heap_parent i < i" by (auto simp: heap_parent_less)
    with less have "\<not> cmp (v ! 0) (v ! heap_parent i)" by simp
    moreover have "\<not> cmp (v ! heap_parent i) (v ! i)"
      using less.prems False by (simp add: is_heap_def)
    ultimately show ?thesis by (rule ntrans)
  qed (simp add: irrefl)
qed

definition up_ok :: "nat \<Rightarrow> 'a list \<Rightarrow> bool" where
  "up_ok k v \<longleftrightarrow>
     (\<forall>i < length v. 0 < i \<longrightarrow> i \<noteq> k \<longrightarrow> \<not> cmp (v ! heap_parent i) (v ! i)) \<and>
     (0 < k \<longrightarrow> (\<forall>j < length v. 0 < j \<longrightarrow> heap_parent j = k \<longrightarrow> \<not> cmp (v ! heap_parent k) (v ! j)))"

definition down_ok :: "nat \<Rightarrow> 'a list \<Rightarrow> bool" where
  "down_ok k v \<longleftrightarrow>
     (\<forall>i < length v. 0 < i \<longrightarrow> heap_parent i \<noteq> k \<longrightarrow> \<not> cmp (v ! heap_parent i) (v ! i)) \<and>
     (0 < k \<longrightarrow> (\<forall>j < length v. 0 < j \<longrightarrow> heap_parent j = k \<longrightarrow> \<not> cmp (v ! heap_parent k) (v ! j)))"

lemma larger_child_max:
  assumes i: "i < length v" "0 < i" "heap_parent i = k"
  shows "\<not> cmp (v ! larger_child cmp k v) (v ! i)"
proof -
  have "i = 2 * k + 1 \<or> i = 2 * k + 2" using i by (auto simp: heap_parent_def)
  then show ?thesis using i irrefl asym by (auto simp: larger_child_def)
qed

lemma up_ok_swap:
  assumes ok: "up_ok k v" and k: "0 < k" "k < length v"
    and c: "cmp (v ! heap_parent k) (v ! k)"
  shows "up_ok (heap_parent k) (v[heap_parent k := v ! k, k := v ! heap_parent k])"
proof -
  let ?p = "heap_parent k" and ?w = "v[heap_parent k := v ! k, k := v ! heap_parent k]"
  have pk: "?p < k" "?p \<noteq> k" "?p < length v" using k heap_parent_less [of k] by auto
  have up: "\<not> cmp (v ! heap_parent i) (v ! i)" if "i < length v" "0 < i" "i \<noteq> k" for i
    using ok that by (simp add: up_ok_def)
  have gp: "\<not> cmp (v ! ?p) (v ! j)" if "j < length v" "0 < j" "heap_parent j = k" for j
    using ok that k by (simp add: up_ok_def)
  have nc: "\<not> cmp (v ! k) (v ! ?p)" using c by (rule asym)
  have "\<not> cmp (?w ! heap_parent i) (?w ! i)" if i: "i < length v" "0 < i" "i \<noteq> ?p" for i
  proof -
    have hi: "heap_parent i \<noteq> i" "heap_parent i < length v"
      using i heap_parent_less [of i] by auto
    consider "i = k" | "i \<noteq> k" "heap_parent i = k" | "i \<noteq> k" "heap_parent i = ?p"
      | "i \<noteq> k" "heap_parent i \<noteq> k" "heap_parent i \<noteq> ?p" by blast
    then show ?thesis
    proof cases
      case 3
      with up [OF i(1,2)] have "\<not> cmp (v ! ?p) (v ! i)" by simp
      with nc have "\<not> cmp (v ! k) (v ! i)" by (rule ntrans)
      with 3 i k pk show ?thesis by simp
    qed (use i hi k pk nc up gp in \<open>auto simp: nth_list_update\<close>)
  qed
  moreover have "\<not> cmp (?w ! heap_parent ?p) (?w ! j)"
    if j: "0 < ?p" "j < length v" "0 < j" "heap_parent j = ?p" for j
  proof -
    have hp: "heap_parent ?p \<noteq> ?p" "heap_parent ?p \<noteq> k" "j \<noteq> ?p"
      using j pk heap_parent_less [of ?p] heap_parent_less [of j] by auto
    have "\<not> cmp (v ! heap_parent ?p) (v ! ?p)" using up [of ?p] j pk by simp
    moreover have "j \<noteq> k \<Longrightarrow> \<not> cmp (v ! ?p) (v ! j)" using up [of j] j by simp
    ultimately show ?thesis
      using hp j k pk ntrans by (cases "j = k") (auto simp: nth_list_update)
  qed
  ultimately show ?thesis by (simp add: up_ok_def)
qed

lemma up_ok_heap: "up_ok k v \<Longrightarrow> k = 0 \<or> \<not> cmp (v ! heap_parent k) (v ! k) \<Longrightarrow> is_heap cmp v"
  by (auto simp: up_ok_def is_heap_def)

lemma sift_up_heap: "up_ok i v \<Longrightarrow> i < length v \<Longrightarrow> is_heap cmp (sift_up cmp i v)"
proof (induction i arbitrary: v rule: less_induct)
  case (less i)
  show ?case
  proof (cases "i = 0 \<or> \<not> cmp (v ! heap_parent i) (v ! i)")
    case True
    with less.prems(1) have "is_heap cmp v" by (rule up_ok_heap)
    with True show ?thesis by (subst sift_up.simps) (auto simp: Let_def)
  next
    case False
    then have "heap_parent i < i" by (auto simp: heap_parent_less)
    with False less.IH [OF this up_ok_swap [OF less.prems(1)]] less.prems
    show ?thesis by (subst sift_up.simps) (simp add: Let_def)
  qed
qed

lemma down_ok_swap:
  assumes ok: "down_ok k v" and k: "2 * k + 1 < length v"
    and c: "cmp (v ! k) (v ! larger_child cmp k v)"
  shows "down_ok (larger_child cmp k v)
           (v[k := v ! larger_child cmp k v, larger_child cmp k v := v ! k])"
proof -
  let ?c = "larger_child cmp k v" and ?w = "v[k := v ! larger_child cmp k v, larger_child cmp k v := v ! k]"
  have ck: "heap_parent ?c = k" "k < ?c" "?c < length v" "0 < ?c"
    using k by (auto simp: larger_child_def heap_parent_def)
  have dn: "\<not> cmp (v ! heap_parent i) (v ! i)" if "i < length v" "0 < i" "heap_parent i \<noteq> k" for i
    using ok that by (simp add: down_ok_def)
  have gp: "\<not> cmp (v ! heap_parent k) (v ! j)" if "0 < k" "j < length v" "0 < j" "heap_parent j = k" for j
    using ok that by (simp add: down_ok_def)
  have nc: "\<not> cmp (v ! ?c) (v ! k)" using c by (rule asym)
  have "\<not> cmp (?w ! heap_parent i) (?w ! i)" if i: "i < length v" "0 < i" "heap_parent i \<noteq> ?c" for i
  proof -
    have hi: "heap_parent i < i" using i by (simp add: heap_parent_less)
    consider "i = ?c" | "i \<noteq> ?c" "heap_parent i = k" | "heap_parent i \<noteq> k" by blast
    then show ?thesis
    proof cases
      case 2
      have "\<not> cmp (v ! ?c) (v ! i)" using larger_child_max [OF i(1,2) 2(2)] .
      with 2 i ck hi show ?thesis by (simp add: nth_list_update)
    next
      case 3
      then show ?thesis
        using i ck hi dn [of i] gp [of ?c] by (cases "i = k") (auto simp: nth_list_update)
    qed (use i hi ck nc in \<open>auto simp: nth_list_update\<close>)
  qed
  moreover have "\<not> cmp (?w ! heap_parent ?c) (?w ! j)"
    if j: "j < length v" "0 < j" "heap_parent j = ?c" for j
    using dn [of j] j ck heap_parent_less [of j] by (auto simp: nth_list_update)
  ultimately show ?thesis by (simp add: down_ok_def)
qed

lemma down_ok_heap:
  assumes "down_ok k v" "length v \<le> 2 * k + 1 \<or> \<not> cmp (v ! k) (v ! larger_child cmp k v)"
  shows "is_heap cmp v"
  unfolding is_heap_def
proof (intro allI impI)
  fix i assume i: "i < length v" "0 < i"
  show "\<not> cmp (v ! heap_parent i) (v ! i)"
  proof (cases "heap_parent i = k")
    case True
    then have "\<not> length v \<le> 2 * k + 1" using i by (auto simp: heap_parent_def)
    with assms(2) have "\<not> cmp (v ! k) (v ! larger_child cmp k v)" by simp
    then show ?thesis using larger_child_max [OF i True] True ntrans by blast
  qed (use assms(1) i in \<open>simp add: down_ok_def\<close>)
qed

lemma sift_down_heap: "down_ok i v \<Longrightarrow> is_heap cmp (sift_down cmp i v)"
proof (induction "length v - i" arbitrary: i v rule: less_induct)
  case (less i v)
  show ?case
  proof (cases "length v \<le> 2 * i + 1 \<or> \<not> cmp (v ! i) (v ! larger_child cmp i v)")
    case True
    with less.prems have "is_heap cmp v" by (rule down_ok_heap)
    with True show ?thesis by (subst sift_down.simps) (auto simp: Let_def)
  next
    case False
    let ?c = "larger_child cmp i v"
    let ?w = "v[i := v ! ?c, ?c := v ! i]"
    from False have "length ?w - ?c < length v - i" by (auto simp: larger_child_def)
    moreover have "down_ok ?c ?w" using False less.prems by (simp add: down_ok_swap)
    ultimately have "is_heap cmp (sift_down cmp ?c ?w)" by (rule less.hyps)
    moreover have "sift_down cmp i v = sift_down cmp ?c ?w"
      using False by (simp add: sift_down.simps [of cmp i v] Let_def)
    ultimately show ?thesis by simp
  qed
qed

lemma push_heap_heap: "is_heap cmp v \<Longrightarrow> is_heap cmp (push_heap cmp (v @ [x]))"
proof -
  assume h: "is_heap cmp v"
  have below: "heap_parent j < length v" if "0 < j" "j < Suc (length v)" for j
    using that heap_parent_less [of j] by simp
  have "\<not> cmp ((v @ [x]) ! heap_parent i) ((v @ [x]) ! i)" if "i < length v" "0 < i" for i
    using h that below [of i] by (simp add: is_heap_def nth_append)
  moreover have "heap_parent j \<noteq> length v" if "0 < j" "j < Suc (length v)" for j
    using below [OF that] by simp
  ultimately have "up_ok (length v) (v @ [x])"
    unfolding up_ok_def by (metis length_append_singleton less_Suc_eq)
  then show ?thesis by (simp add: push_heap_def sift_up_heap)
qed

lemma pop_heap_heap:
  assumes "is_heap cmp v"
  shows "is_heap cmp (butlast (pop_heap cmp v))"
proof (cases "length v \<le> 1")
  case True
  then show ?thesis by (cases v) (auto simp: pop_heap_def is_heap_def)
next
  case False
  have "heap_parent i < length v - Suc 0" if "0 < i" "i < length v - Suc 0" for i
    using that heap_parent_less [of i] by simp
  with assms False have "down_ok 0 (butlast (v[0 := last v]))"
    by (auto simp: down_ok_def is_heap_def nth_butlast nth_list_update)
  with False show ?thesis by (simp add: pop_heap_def sift_down_heap)
qed

end

section \<open>The contract\<close>

text \<open>
  What a client of the heap functions relies on: \<open>ok\<close> describes vectors that are heaps;
  pushing adds one element; popping moves the front, a maximal element, to the back.
\<close>

locale heap_queue =
  fixes cmp :: "'a \<Rightarrow> 'a \<Rightarrow> bool"
    and push :: "'a list \<Rightarrow> 'a list"
    and pop :: "'a list \<Rightarrow> 'a list"
    and ok :: "'a list \<Rightarrow> bool"
  assumes ok_Nil: "ok []"
    and ok_push: "ok v \<Longrightarrow> ok (push (v @ [x]))"
    and mset_push: "mset (push (v @ [x])) = add_mset x (mset v)"
    and ok_pop: "ok v \<Longrightarrow> ok (butlast (pop v))"
    and mset_pop: "v \<noteq> [] \<Longrightarrow> add_mset (v ! 0) (mset (butlast (pop v))) = mset v"
    and last_pop: "v \<noteq> [] \<Longrightarrow> last (pop v) = v ! 0"
    and length_pop: "length (pop v) = length v"
    and front: "ok v \<Longrightarrow> x \<in> set v \<Longrightarrow> \<not> cmp (v ! 0) x"
begin

lemma length_butlast_pop: "v \<noteq> [] \<Longrightarrow> length (butlast (pop v)) < length v"
  by (simp add: length_pop)

lemma set_push: "set (push (v @ [x])) = insert x (set v)"
  using mset_push [of v x] by (metis set_mset_add_mset_insert set_mset_mset)

lemma set_pop: "v \<noteq> [] \<Longrightarrow> set v = insert (v ! 0) (set (butlast (pop v)))"
  using mset_pop [of v] by (metis set_mset_add_mset_insert set_mset_mset)

lemma front_in: "v \<noteq> [] \<Longrightarrow> v ! 0 \<in> set v"
  by simp

end

lemma mset_push_heap: "mset (push_heap cmp (v @ [x])) = add_mset x (mset v)"
  by (simp add: push_heap_def mset_sift_up)

lemma length_sift_down: "length (sift_down cmp i v) = length v"
  by (metis mset_sift_down size_mset)

lemma length_pop_heap: "length (pop_heap cmp v) = length v"
  by (auto simp: pop_heap_def length_sift_down)

lemma last_pop_heap: "v \<noteq> [] \<Longrightarrow> last (pop_heap cmp v) = v ! 0"
  by (cases v) (auto simp: pop_heap_def)

lemma mset_pop_heap:
  assumes "v \<noteq> []"
  shows "add_mset (v ! 0) (mset (butlast (pop_heap cmp v))) = mset v"
proof (cases v rule: rev_cases)
  case (snoc u y)
  show ?thesis
  proof (cases u)
    case (Cons x t)
    have "mset (butlast (v[0 := last v])) = add_mset y (mset t)"
      using snoc Cons by (simp add: butlast_append)
    then show ?thesis
      using snoc Cons by (simp add: pop_heap_def mset_sift_down)
  qed (use snoc in \<open>simp add: pop_heap_def\<close>)
qed (use assms in simp)

sublocale weak_order \<subseteq> heap_queue cmp "push_heap cmp" "pop_heap cmp" "is_heap cmp"
proof unfold_locales
  show "is_heap cmp v \<Longrightarrow> x \<in> set v \<Longrightarrow> \<not> cmp (v ! 0) x" for v x
    by (metis heap_front in_set_conv_nth)
qed (auto simp: is_heap_def [of _ "[]"] push_heap_heap pop_heap_heap mset_push_heap mset_pop_heap
    last_pop_heap length_pop_heap)

end
