(* ===== verification/Id_Source.thy ===== *)
theory Id_Source
  imports Hub_Prelude
begin

text \<open>
  The three 64-bit identifier generators of the library share one algorithm: \<^verbatim>\<open>fetch_add(1)\<close>,
  and once more when the drawn value is the reserved zero. This theory models
  \<^verbatim>\<open>RequestIdGenerator\<close> (\<^verbatim>\<open>request.hpp\<close>) and states the contract of such a generator as a locale;
  \<^verbatim>\<open>TaskManager::next_id\<close> and \<^verbatim>\<open>next_calendar_id\<close> interpret it in their own theories.
\<close>

type_synonym RequestId = u64

definition invalid_request_id :: RequestId where
  "invalid_request_id = 0"

text \<open>\<^verbatim>\<open>std::atomic<uint64_t>::fetch_add(1)\<close>: the old value, and the incremented counter.\<close>

definition fetch_add :: "u64 \<Rightarrow> u64 \<times> u64" where
  "fetch_add n = (n, n + 1)"

text \<open>\<^verbatim>\<open>RequestIdGenerator::next\<close>: the drawn id and the generator's new counter.\<close>

definition RequestIdGenerator_next :: "u64 \<Rightarrow> RequestId \<times> u64" where
  "RequestIdGenerator_next m_next =
     (let (rid, m1) = fetch_add m_next
      in if rid = invalid_request_id then fetch_add m1 else (rid, m1))"

text \<open>The first \<open>k\<close> identifiers a generator hands out.\<close>

fun draw_ids :: "(u64 \<Rightarrow> u64 \<times> u64) \<Rightarrow> nat \<Rightarrow> u64 \<Rightarrow> u64 list" where
  "draw_ids gen 0 n = []"
| "draw_ids gen (Suc k) n = (case gen n of (i, m) \<Rightarrow> i # draw_ids gen k m)"

text \<open>The position of a counter in the cycle of the \<open>2 ^ 64 - 1\<close> valid ids; zero stands for one.\<close>

definition id_rank :: "u64 \<Rightarrow> nat" where
  "id_rank n = (if n = 0 then 0 else unat n - 1)"

lemma id_rank_bound: "id_rank n < 2 ^ 64 - 1"
  using unsigned_less [of n, where ?'a = nat] by (auto simp: id_rank_def)

lemma id_rank_step:
  assumes "n \<noteq> 0"
  shows "id_rank (n + 1) = Suc (id_rank n) mod (2 ^ 64 - 1)"
proof (cases "n + 1 = 0")
  case True
  then have "n = - 1" by (simp add: eq_neg_iff_add_eq_0)
  then have "unat n = 2 ^ 64 - 1" by (simp add: unsigned_minus_1_eq_mask mask_eq_exp_minus_1)
  with True assms show ?thesis by (simp add: id_rank_def)
next
  case False
  then have u: "unat (n + 1) = unat n + 1" using unatSuc [of n] by (simp add: add.commute)
  moreover have "unat n + 1 < 2 ^ 64" using u unsigned_less [of "n + 1", where ?'a = nat] by simp
  moreover have "unat n \<noteq> 0" using assms by (simp add: unat_eq_0)
  ultimately show ?thesis using assms False by (simp add: id_rank_def)
qed

section \<open>The contract of a generator\<close>

locale id_source =
  fixes gen :: "u64 \<Rightarrow> u64 \<times> u64"
  assumes gen_nonzero: "n \<noteq> 0 \<Longrightarrow> gen n = (n, n + 1)"
    and gen_zero: "gen 0 = (1, 2)"
begin

lemma fst_gen_nonzero: "fst (gen n) \<noteq> 0"
  by (cases "n = 0") (simp_all add: gen_nonzero gen_zero)

text \<open>Below the wrap-around the drawn id is the counter, so it is new: the counter passes it.\<close>

lemma gen_fresh: "n \<noteq> 0 \<Longrightarrow> n + 1 \<noteq> 0 \<Longrightarrow> fst (gen n) = n \<and> fst (gen n) < snd (gen n)"
  by (simp add: gen_nonzero word_less_self_add_one)

lemma draw_ids_eq:
  "0 < unat n \<Longrightarrow> unat n + k \<le> 2 ^ 64 \<Longrightarrow> draw_ids gen k n = map of_nat [unat n ..< unat n + k]"
proof (induction k arbitrary: n)
  case (Suc k)
  have nz: "n \<noteq> 0" using Suc.prems(1) by auto
  show ?case
  proof (cases "k = 0")
    case False
    then have "unat n + 1 < 2 ^ 64" using Suc.prems(2) by simp
    then have u: "unat (n + 1) = unat n + 1"
      by (simp add: unat_word_ariths)
    have "draw_ids gen k (n + 1) = map of_nat [unat (n + 1) ..< unat (n + 1) + k]"
      by (rule Suc.IH) (use Suc.prems u in simp_all)
    moreover have "[unat n ..< unat n + Suc k] = unat n # [Suc (unat n) ..< Suc (unat n) + k]"
      by (simp add: upt_conv_Cons del: upt_Suc)
    ultimately show ?thesis using nz u by (simp add: gen_nonzero del: upt_Suc)
  qed (use nz in \<open>simp add: gen_nonzero\<close>)
qed simp

lemma draw_ids_distinct:
  assumes "k < 2 ^ 64"
  shows "distinct (draw_ids gen k 1) \<and> 0 \<notin> set (draw_ids gen k 1)"
proof -
  have eq: "draw_ids gen k 1 = map of_nat [1 ..< 1 + k]"
    using draw_ids_eq [of 1 k] assms by simp
  have inj: "inj_on (of_nat :: nat \<Rightarrow> u64) {1 ..< 1 + k}"
    by (rule inj_onI) (use assms in \<open>auto simp: word_of_nat_eq_iff take_bit_nat_eq_self\<close>)
  have "(of_nat m :: u64) \<noteq> 0" if "m \<in> {1 ..< 1 + k}" for m
    using that assms by (auto simp: word_of_nat_eq_0_iff dest: nat_dvd_not_less [rotated])
  then show ?thesis using inj by (auto simp: eq distinct_map simp del: upt_Suc)
qed

lemma id_rank_gen: "id_rank (fst (gen n)) = id_rank n" "id_rank (snd (gen n)) = Suc (id_rank n) mod (2 ^ 64 - 1)"
proof -
  have z: "gen n = (if n = 0 then (1, 1 + 1) else (n, n + 1))" for n by (simp add: gen_nonzero gen_zero)
  show "id_rank (fst (gen n)) = id_rank n" by (simp add: z id_rank_def)
  show "id_rank (snd (gen n)) = Suc (id_rank n) mod (2 ^ 64 - 1)"
  proof (cases "n = 0")
    case True
    have "id_rank (snd (gen n)) = id_rank (1 + 1)" by (simp add: True z [of 0] del: one_add_one)
    also have "\<dots> = Suc (id_rank 1) mod (2 ^ 64 - 1)" by (rule id_rank_step) simp
    finally show ?thesis by (simp add: True id_rank_def [of 0] id_rank_def [of 1])
  qed (simp add: z id_rank_step)
qed

lemma draw_ids_rank:
  "i \<in> set (draw_ids gen k n) \<Longrightarrow> \<exists>j<k. id_rank i = (id_rank n + j) mod (2 ^ 64 - 1)"
proof (induction k arbitrary: n)
  case (Suc k)
  show ?case
  proof (cases "i = fst (gen n)")
    case True
    then show ?thesis using id_rank_bound [of n] by (intro exI [of _ 0]) (simp add: id_rank_gen)
  next
    case False
    then obtain j where "j < k" "id_rank i = (id_rank (snd (gen n)) + j) mod (2 ^ 64 - 1)"
      using Suc.prems Suc.IH [of "snd (gen n)"] by (auto simp: case_prod_beta)
    then show ?thesis by (intro exI [of _ "Suc j"]) (simp add: id_rank_gen mod_simps)
  qed
qed simp

text \<open>An id comes back only after all the \<open>2 ^ 64 - 1\<close> others.\<close>

lemma draw_ids_fresh:
  assumes "k < 2 ^ 64 - 1"
  shows "fst (gen n) \<notin> set (draw_ids gen k (snd (gen n)))"
proof
  assume "fst (gen n) \<in> set (draw_ids gen k (snd (gen n)))"
  then obtain j where j: "j < k" "id_rank n = (Suc (id_rank n) mod (2 ^ 64 - 1) + j) mod (2 ^ 64 - 1)"
    using draw_ids_rank by (metis id_rank_gen)
  have "id_rank n = (id_rank n + Suc j) mod (2 ^ 64 - 1)" using j(2) by (simp add: mod_simps)
  then show False using id_rank_bound [of n] assms j(1) by (simp add: mod_if split: if_splits)
qed

end

interpretation request_ids: id_source RequestIdGenerator_next
  by unfold_locales (simp_all add: RequestIdGenerator_next_def fetch_add_def invalid_request_id_def)

text \<open>
  A fresh \<^verbatim>\<open>RequestIdGenerator\<close> never hands out the reserved id and never repeats itself
  within its first \<open>2 ^ 64 - 1\<close> draws.
\<close>

theorem request_ids_unique:
  "k < 2 ^ 64 \<Longrightarrow>
     distinct (draw_ids RequestIdGenerator_next k 1) \<and>
     invalid_request_id \<notin> set (draw_ids RequestIdGenerator_next k 1)"
  unfolding invalid_request_id_def by (rule request_ids.draw_ids_distinct)

theorem request_ids_unique_witness:
  "distinct (draw_ids RequestIdGenerator_next 3 1) \<and>
   invalid_request_id \<notin> set (draw_ids RequestIdGenerator_next 3 1)"
  by (rule request_ids_unique) simp

end
