(* ===== verification/Task.thy ===== *)
theory Task
  imports Hub_Prelude
begin

text \<open>
  The task primitives of \<^verbatim>\<open>task.hpp\<close>: identifiers, priorities, options, the move-only \<^verbatim>\<open>Task\<close>
  wrapper and the context handed to context-aware callbacks. User callables are handles
  \<open>'f\<close>; what running one does to the program state \<open>'s\<close> is the parameter \<open>run\<close> of the functions
  that invoke it.
\<close>

type_synonym TaskId = u64

datatype TaskPriority = high | normal | low

record TaskOptions =
  opt_priority :: TaskPriority

definition default_TaskOptions :: TaskOptions where
  "default_TaskOptions = \<lparr> opt_priority = normal \<rparr>"

datatype PeriodicSchedule = fixed_delay | fixed_rate

record PeriodicTaskOptions =
  popt_priority :: TaskPriority
  popt_schedule :: PeriodicSchedule

definition default_PeriodicTaskOptions :: PeriodicTaskOptions where
  "default_PeriodicTaskOptions = \<lparr> popt_priority = normal, popt_schedule = fixed_delay \<rparr>"

text \<open>
  A default-constructed context has no owner; a manager's \<^verbatim>\<open>make_context\<close> binds the context to
  itself and to the id of the running task.
\<close>

datatype TaskContext = Inert_context | Bound_context TaskId

fun TaskContext_id :: "TaskContext \<Rightarrow> TaskId" where
  "TaskContext_id Inert_context = 0"
| "TaskContext_id (Bound_context i) = i"

text \<open>
  \<^verbatim>\<open>m_self\<close> is null (\<open>Empty_task\<close>), a \<^verbatim>\<open>NoArgModel\<close> or a \<^verbatim>\<open>ContextModel\<close>.
\<close>

datatype 'f Task = Empty_task | NoArgModel 'f | ContextModel 'f

definition Task_from_function :: "'f option \<Rightarrow> 'f Task" where
  "Task_from_function fn = (case fn of None \<Rightarrow> Empty_task | Some f \<Rightarrow> NoArgModel f)"

definition Task_from_context_function :: "'f option \<Rightarrow> 'f Task" where
  "Task_from_context_function fn = (case fn of None \<Rightarrow> Empty_task | Some f \<Rightarrow> ContextModel f)"

definition Task_bool :: "'f Task \<Rightarrow> bool" where
  "Task_bool t \<longleftrightarrow> t \<noteq> Empty_task"

lemma Task_bool_simps [simp]:
  "\<not> Task_bool Empty_task" "Task_bool (NoArgModel f)" "Task_bool (ContextModel f)"
  by (simp_all add: Task_bool_def)

definition Task_reset :: "'f Task \<Rightarrow> 'f Task" where
  "Task_reset t = Empty_task"

text \<open>
  \<^verbatim>\<open>operator()(TaskContext&)\<close>: a no-argument model ignores the context. The result is the new state
  and the exception thrown, if any.
\<close>

fun Task_call_context ::
  "('f \<Rightarrow> TaskContext option \<Rightarrow> 's \<Rightarrow> 's \<times> exn option) \<Rightarrow> 'f Task \<Rightarrow> TaskContext \<Rightarrow> 's \<Rightarrow> 's \<times> exn option"
where
  "Task_call_context run Empty_task ctx s = (s, Some Bad_function_call)"
| "Task_call_context run (NoArgModel f) ctx s = run f None s"
| "Task_call_context run (ContextModel f) ctx s = run f (Some ctx) s"

text \<open>\<^verbatim>\<open>operator()()\<close> passes an inert context.\<close>

definition Task_call ::
  "('f \<Rightarrow> TaskContext option \<Rightarrow> 's \<Rightarrow> 's \<times> exn option) \<Rightarrow> 'f Task \<Rightarrow> 's \<Rightarrow> 's \<times> exn option"
where
  "Task_call run t s =
     (if \<not> Task_bool t then (s, Some Bad_function_call)
      else Task_call_context run t Inert_context s)"

end
