(* ===== verification/Task_Manager.thy ===== *)
theory Task_Manager
  imports Id_Source Std_Heap Task
begin

text \<open>
  The passive task queue of \<^verbatim>\<open>task_manager.hpp\<close>: its state, and one definition per operation.
  Every operation is the critical section the source runs under \<^verbatim>\<open>m_mutex\<close>, with the atomic updates
  around it in source order. Clock readings are arguments, one per \<^verbatim>\<open>Clock::now()\<close> of the source,
  in the order in which the source takes them.

  The shared \<^verbatim>\<open>Control\<close> blocks are modelled as a store: \<open>tm_controls\<close> maps references to blocks and
  \<open>tm_next_control\<close> is the next unused reference, so an entry and the index alias the same
  block as the two \<^verbatim>\<open>shared_ptr\<close> of the source do. \<open>tm_notified\<close> records the notifier calls.
\<close>

section \<open>Data\<close>

datatype State =
  queued_ready | queued_delayed | ready_snapshot | executing | cancelled | completed

record Control =
  ctl_id :: TaskId
  ctl_periodic :: bool
  reschedule_requested :: bool
  reschedule_due :: time
  ctl_state :: State

record 'f Entry =
  e_id :: TaskId
  e_seq :: u64
  e_priority :: TaskPriority
  e_due :: time
  e_periodic :: bool
  e_interval :: time
  e_schedule :: PeriodicSchedule
  e_planned_due :: time
  e_control :: nat
  e_task :: "'f Task"

text \<open>
  \<open>tm_ready\<close> is the array of the three queues, indexed \<open>0\<close>, \<open>1\<close> and \<open>2\<close>.
\<close>

record 'f TM =
  tm_ready :: "nat \<Rightarrow> 'f Entry list"
  tm_heap :: "'f Entry list"
  tm_index :: "TaskId \<rightharpoonup> nat"
  tm_ready_count :: u64
  tm_pending_count :: u64
  tm_next_id :: u64
  tm_next_seq :: u64
  tm_closed :: bool
  tm_notifier :: "nat option"
  tm_handler :: "'f option"
  tm_controls :: "nat \<Rightarrow> Control"
  tm_next_control :: nat
  tm_notified :: "nat list"

definition TaskManager_init :: "nat option \<Rightarrow> 'f TM" where
  "TaskManager_init notifier =
     \<lparr> tm_ready = (\<lambda>_. []), tm_heap = [], tm_index = Map.empty,
       tm_ready_count = 0, tm_pending_count = 0, tm_next_id = 1, tm_next_seq = 1,
       tm_closed = False, tm_notifier = notifier, tm_handler = None,
       tm_controls = (\<lambda>_. \<lparr> ctl_id = 0, ctl_periodic = False, reschedule_requested = False,
                          reschedule_due = 0, ctl_state = completed \<rparr>),
       tm_next_control = 0, tm_notified = [] \<rparr>"

text \<open>\<^verbatim>\<open>DelayedSooner\<close>: the heap front is the entry with the least \<open>(due, seq)\<close>.\<close>

definition DelayedSooner :: "'f Entry \<Rightarrow> 'f Entry \<Rightarrow> bool" where
  "DelayedSooner lhs rhs =
     (if e_due lhs \<noteq> e_due rhs then e_due rhs < e_due lhs else e_seq rhs < e_seq lhs)"

interpretation delayed: weak_order DelayedSooner
  by unfold_locales (auto simp: DelayedSooner_def split: if_splits)

fun priority_index :: "TaskPriority \<Rightarrow> nat" where
  "priority_index high = 0"
| "priority_index normal = 1"
| "priority_index low = 2"

section \<open>Counters, control blocks and notification\<close>

definition increment_ready_count :: "('f, 'z) TM_scheme \<Rightarrow> ('f, 'z) TM_scheme" where
  "increment_ready_count s = s\<lparr>tm_ready_count := tm_ready_count s + 1\<rparr>"

definition decrement_ready_count :: "('f, 'z) TM_scheme \<Rightarrow> ('f, 'z) TM_scheme" where
  "decrement_ready_count s = s\<lparr>tm_ready_count := tm_ready_count s - 1\<rparr>"

definition increment_pending_count :: "('f, 'z) TM_scheme \<Rightarrow> ('f, 'z) TM_scheme" where
  "increment_pending_count s = s\<lparr>tm_pending_count := tm_pending_count s + 1\<rparr>"

definition decrement_pending_count :: "('f, 'z) TM_scheme \<Rightarrow> ('f, 'z) TM_scheme" where
  "decrement_pending_count s = s\<lparr>tm_pending_count := tm_pending_count s - 1\<rparr>"

definition notify_work_available :: "('f, 'z) TM_scheme \<Rightarrow> ('f, 'z) TM_scheme" where
  "notify_work_available s =
     (case tm_notifier s of None \<Rightarrow> s | Some n \<Rightarrow> s\<lparr>tm_notified := tm_notified s @ [n]\<rparr>)"

definition control_of :: "('f, 'z) TM_scheme \<Rightarrow> 'f Entry \<Rightarrow> Control" where
  "control_of s e = tm_controls s (e_control e)"

definition entry_state :: "('f, 'z) TM_scheme \<Rightarrow> 'f Entry \<Rightarrow> State" where
  "entry_state s e = ctl_state (tm_controls s (e_control e))"

definition set_control :: "nat \<Rightarrow> Control \<Rightarrow> ('f, 'z) TM_scheme \<Rightarrow> ('f, 'z) TM_scheme" where
  "set_control r c s = s\<lparr>tm_controls := (tm_controls s)(r := c)\<rparr>"

definition set_state :: "nat \<Rightarrow> State \<Rightarrow> ('f, 'z) TM_scheme \<Rightarrow> ('f, 'z) TM_scheme" where
  "set_state r v s = set_control r ((tm_controls s r)\<lparr>ctl_state := v\<rparr>) s"

text \<open>\<^verbatim>\<open>compare_exchange_strong\<close> on a control block's state, as \<^verbatim>\<open>transition\<close> and the inline uses.\<close>

definition transition ::
  "nat \<Rightarrow> State \<Rightarrow> State \<Rightarrow> ('f, 'z) TM_scheme \<Rightarrow> bool \<times> ('f, 'z) TM_scheme"
where
  "transition r expected desired s =
     (if ctl_state (tm_controls s r) = expected then (True, set_state r desired s) else (False, s))"

definition clear_reschedule :: "nat \<Rightarrow> ('f, 'z) TM_scheme \<Rightarrow> ('f, 'z) TM_scheme" where
  "clear_reschedule r s = set_control r ((tm_controls s r)\<lparr>reschedule_requested := False\<rparr>) s"

definition index_erase :: "TaskId \<Rightarrow> ('f, 'z) TM_scheme \<Rightarrow> ('f, 'z) TM_scheme" where
  "index_erase i s = s\<lparr>tm_index := (tm_index s)(i := None)\<rparr>"

text \<open>\<^verbatim>\<open>unordered_map::emplace\<close> keeps an existing mapping.\<close>

definition index_emplace :: "TaskId \<Rightarrow> nat \<Rightarrow> ('f, 'z) TM_scheme \<Rightarrow> ('f, 'z) TM_scheme" where
  "index_emplace i r s =
     (case tm_index s i of None \<Rightarrow> s\<lparr>tm_index := (tm_index s)(i \<mapsto> r)\<rparr> | Some _ \<Rightarrow> s)"

definition make_control ::
  "TaskId \<Rightarrow> State \<Rightarrow> bool \<Rightarrow> ('f, 'z) TM_scheme \<Rightarrow> nat \<times> ('f, 'z) TM_scheme"
where
  "make_control i v periodic s =
     (tm_next_control s,
      set_control (tm_next_control s)
        \<lparr> ctl_id = i, ctl_periodic = periodic, reschedule_requested = False,
          reschedule_due = 0, ctl_state = v \<rparr>
        (s\<lparr>tm_next_control := Suc (tm_next_control s)\<rparr>))"

definition push_back_ready :: "'f Entry \<Rightarrow> ('f, 'z) TM_scheme \<Rightarrow> ('f, 'z) TM_scheme" where
  "push_back_ready e s =
     (let q = priority_index (e_priority e)
      in s\<lparr>tm_ready := (tm_ready s)(q := tm_ready s q @ [e])\<rparr>)"

definition push_front_ready :: "'f Entry \<Rightarrow> ('f, 'z) TM_scheme \<Rightarrow> ('f, 'z) TM_scheme" where
  "push_front_ready e s =
     (let q = priority_index (e_priority e)
      in s\<lparr>tm_ready := (tm_ready s)(q := e # tm_ready s q)\<rparr>)"

definition push_delayed :: "'f Entry \<Rightarrow> ('f, 'z) TM_scheme \<Rightarrow> ('f, 'z) TM_scheme" where
  "push_delayed e s = s\<lparr>tm_heap := push_heap DelayedSooner (tm_heap s @ [e])\<rparr>"

section \<open>Identifiers and sequence numbers\<close>

definition next_id_step :: "u64 \<Rightarrow> TaskId \<times> u64" where
  "next_id_step m_next_id =
     (let (i, m1) = fetch_add m_next_id in if i = 0 then fetch_add m1 else (i, m1))"

interpretation task_ids: id_source next_id_step
  by unfold_locales (simp_all add: next_id_step_def fetch_add_def)

definition next_id :: "('f, 'z) TM_scheme \<Rightarrow> TaskId \<times> ('f, 'z) TM_scheme" where
  "next_id s = (let (i, m) = next_id_step (tm_next_id s) in (i, s\<lparr>tm_next_id := m\<rparr>))"

definition next_seq :: "('f, 'z) TM_scheme \<Rightarrow> u64 \<times> ('f, 'z) TM_scheme" where
  "next_seq s = (tm_next_seq s, s\<lparr>tm_next_seq := tm_next_seq s + 1\<rparr>)"

section \<open>Submission\<close>

definition enqueue_ready_locked ::
  "'f Task \<Rightarrow> TaskOptions \<Rightarrow> ('f, 'z) TM_scheme \<Rightarrow> TaskId \<times> ('f, 'z) TM_scheme"
where
  "enqueue_ready_locked task options s =
     (let (i, s) = next_id s;
          (r, s) = make_control i queued_ready False s;
          (sq, s) = next_seq s;
          e = \<lparr> e_id = i, e_seq = sq, e_priority = opt_priority options, e_due = 0,
                e_periodic = False, e_interval = 0, e_schedule = fixed_delay,
                e_planned_due = 0, e_control = r, e_task = task \<rparr>
      in (i, increment_pending_count (increment_ready_count
               (push_back_ready e (index_emplace i r s)))))"

definition enqueue_ready ::
  "'f Task \<Rightarrow> TaskOptions \<Rightarrow> ('f, 'z) TM_scheme \<Rightarrow> TaskId \<times> ('f, 'z) TM_scheme"
where
  "enqueue_ready task options s =
     (if tm_closed s then (0, s) else enqueue_ready_locked task options s)"

definition enqueue_delayed_locked ::
  "time \<Rightarrow> 'f Task \<Rightarrow> TaskOptions \<Rightarrow> ('f, 'z) TM_scheme \<Rightarrow> TaskId \<times> ('f, 'z) TM_scheme"
where
  "enqueue_delayed_locked due task options s =
     (let (i, s) = next_id s;
          (r, s) = make_control i queued_delayed False s;
          (sq, s) = next_seq s;
          e = \<lparr> e_id = i, e_seq = sq, e_priority = opt_priority options, e_due = due,
                e_periodic = False, e_interval = 0, e_schedule = fixed_delay,
                e_planned_due = 0, e_control = r, e_task = task \<rparr>
      in (i, increment_pending_count (push_delayed e (index_emplace i r s))))"

definition enqueue_periodic_locked ::
  "time \<Rightarrow> time \<Rightarrow> time \<Rightarrow> 'f Task \<Rightarrow> PeriodicTaskOptions \<Rightarrow> ('f, 'z) TM_scheme
     \<Rightarrow> TaskId \<times> ('f, 'z) TM_scheme"
where
  "enqueue_periodic_locked now due interval task options s =
     (let is_ready = (due \<le> now);
          v = (if is_ready then queued_ready else queued_delayed);
          (i, s) = next_id s;
          (r, s) = make_control i v True s;
          (sq, s) = next_seq s;
          e = \<lparr> e_id = i, e_seq = sq, e_priority = popt_priority options, e_due = due,
                e_periodic = True, e_interval = interval, e_schedule = popt_schedule options,
                e_planned_due = due, e_control = r, e_task = task \<rparr>;
          s = index_emplace i r s;
          s = (if is_ready then increment_ready_count (push_back_ready e s) else push_delayed e s)
      in (i, increment_pending_count s))"

text \<open>The notification after an accepted submission happens outside the lock.\<close>

definition notify_if_accepted ::
  "TaskId \<times> ('f, 'z) TM_scheme \<Rightarrow> TaskId \<times> ('f, 'z) TM_scheme"
where
  "notify_if_accepted p = (case p of (i, s) \<Rightarrow> if i \<noteq> 0 then (i, notify_work_available s) else (i, s))"

definition post ::
  "'f Task \<Rightarrow> TaskOptions \<Rightarrow> ('f, 'z) TM_scheme \<Rightarrow> TaskId \<times> ('f, 'z) TM_scheme"
where
  "post task options s =
     (if \<not> Task_bool task then (0, s) else notify_if_accepted (enqueue_ready task options s))"

definition post_at ::
  "time \<Rightarrow> time \<Rightarrow> 'f Task \<Rightarrow> TaskOptions \<Rightarrow> ('f, 'z) TM_scheme \<Rightarrow> TaskId \<times> ('f, 'z) TM_scheme"
where
  "post_at now due task options s =
     (if \<not> Task_bool task then (0, s)
      else if tm_closed s then (0, s)
      else notify_if_accepted
             (if due \<le> now then enqueue_ready_locked task options s
              else enqueue_delayed_locked due task options s))"

definition post_after ::
  "time \<Rightarrow> time \<Rightarrow> time \<Rightarrow> 'f Task \<Rightarrow> TaskOptions \<Rightarrow> ('f, 'z) TM_scheme
     \<Rightarrow> TaskId \<times> ('f, 'z) TM_scheme"
where
  "post_after now1 now2 delay task options s = post_at now2 (now1 + delay) task options s"

definition post_after_ms ::
  "time \<Rightarrow> time \<Rightarrow> int \<Rightarrow> 'f Task \<Rightarrow> TaskOptions \<Rightarrow> ('f, 'z) TM_scheme
     \<Rightarrow> TaskId \<times> ('f, 'z) TM_scheme"
where
  "post_after_ms now1 now2 delay_ms task options s =
     post_after now1 now2 (milliseconds delay_ms) task options s"

definition post_every_after ::
  "time \<Rightarrow> time \<Rightarrow> time \<Rightarrow> time \<Rightarrow> 'f Task \<Rightarrow> PeriodicTaskOptions \<Rightarrow> ('f, 'z) TM_scheme
     \<Rightarrow> TaskId \<times> ('f, 'z) TM_scheme"
where
  "post_every_after now1 now2 initial_delay interval task options s =
     (if \<not> Task_bool task then (0, s)
      else if interval \<le> 0 then (0, s)
      else let due = (if initial_delay \<le> 0 then now1 else now1 + initial_delay)
           in if tm_closed s then (0, s)
              else notify_if_accepted (enqueue_periodic_locked now2 due interval task options s))"

definition post_every ::
  "time \<Rightarrow> time \<Rightarrow> time \<Rightarrow> 'f Task \<Rightarrow> PeriodicTaskOptions \<Rightarrow> ('f, 'z) TM_scheme
     \<Rightarrow> TaskId \<times> ('f, 'z) TM_scheme"
where
  "post_every now1 now2 interval task options s =
     post_every_after now1 now2 0 interval task options s"

definition post_every_ms ::
  "time \<Rightarrow> time \<Rightarrow> int \<Rightarrow> 'f Task \<Rightarrow> PeriodicTaskOptions \<Rightarrow> ('f, 'z) TM_scheme
     \<Rightarrow> TaskId \<times> ('f, 'z) TM_scheme"
where
  "post_every_ms now1 now2 interval_ms task options s =
     post_every now1 now2 (milliseconds interval_ms) task options s"

definition post_every_after_ms ::
  "time \<Rightarrow> time \<Rightarrow> int \<Rightarrow> int \<Rightarrow> 'f Task \<Rightarrow> PeriodicTaskOptions \<Rightarrow> ('f, 'z) TM_scheme
     \<Rightarrow> TaskId \<times> ('f, 'z) TM_scheme"
where
  "post_every_after_ms now1 now2 initial_delay_ms interval_ms task options s =
     post_every_after now1 now2 (milliseconds initial_delay_ms) (milliseconds interval_ms)
       task options s"

definition add_task_at ::
  "time \<Rightarrow> time \<Rightarrow> 'f Task \<Rightarrow> TaskOptions \<Rightarrow> ('f, 'z) TM_scheme \<Rightarrow> TaskId \<times> ('f, 'z) TM_scheme"
where
  "add_task_at now deadline task options s = post_at now deadline task options s"

text \<open>\<open>sys_now\<close> is the system clock's reading; the deadline is fixed on the steady clock.\<close>

definition add_task_at_system ::
  "time \<Rightarrow> time \<Rightarrow> time \<Rightarrow> time \<Rightarrow> 'f Task \<Rightarrow> TaskOptions \<Rightarrow> ('f, 'z) TM_scheme
     \<Rightarrow> TaskId \<times> ('f, 'z) TM_scheme"
where
  "add_task_at_system sys_now now1 now2 t task options s =
     (let delay = t - sys_now; deadline = now1 + delay in post_at now2 deadline task options s)"

definition add_task_at_system_ms ::
  "time \<Rightarrow> time \<Rightarrow> time \<Rightarrow> int \<Rightarrow> 'f Task \<Rightarrow> TaskOptions \<Rightarrow> ('f, 'z) TM_scheme
     \<Rightarrow> TaskId \<times> ('f, 'z) TM_scheme"
where
  "add_task_at_system_ms sys_now now1 now2 unix_time_ms task options s =
     add_task_at_system sys_now now1 now2 (milliseconds unix_time_ms) task options s"

text \<open>The loop of \<^verbatim>\<open>post_batch\<close>: the ids in input order, and whether anything was accepted.\<close>

fun post_batch_loop ::
  "'f Task list \<Rightarrow> TaskOptions \<Rightarrow> ('f, 'z) TM_scheme \<Rightarrow> TaskId list \<times> bool \<times> ('f, 'z) TM_scheme"
where
  "post_batch_loop [] options s = ([], False, s)"
| "post_batch_loop (t # ts) options s =
     (if \<not> Task_bool t
      then let (is, notify, s') = post_batch_loop ts options s in (0 # is, notify, s')
      else let (i, s1) = enqueue_ready_locked t options s;
               (is, notify, s') = post_batch_loop ts options s1
           in (i # is, True, s'))"

definition post_batch ::
  "'f Task list \<Rightarrow> TaskOptions \<Rightarrow> ('f, 'z) TM_scheme \<Rightarrow> TaskId list \<times> ('f, 'z) TM_scheme"
where
  "post_batch tasks options s =
     (if tm_closed s then (replicate (length tasks) 0, s)
      else let (is, notify, s') = post_batch_loop tasks options s
           in (is, if notify then notify_work_available s' else s'))"

text \<open>
  \<^verbatim>\<open>submit\<close> wraps the callable in a packaged task; the result is the packaged callable whose future
  the caller holds, or the exception of a rejected task.
\<close>

definition submit ::
  "'f \<Rightarrow> TaskOptions \<Rightarrow> ('f, 'z) TM_scheme \<Rightarrow> (exn + 'f) \<times> ('f, 'z) TM_scheme"
where
  "submit fn options s =
     (let (i, s') = post (NoArgModel fn) options s
      in (if i = 0 then Inl (Runtime_error ''TaskManager rejected task'') else Inr fn, s'))"

section \<open>Lifecycle and configuration\<close>

definition set_notifier :: "nat option \<Rightarrow> ('f, 'z) TM_scheme \<Rightarrow> ('f, 'z) TM_scheme" where
  "set_notifier n s = s\<lparr>tm_notifier := n\<rparr>"

definition reset_notifier :: "('f, 'z) TM_scheme \<Rightarrow> ('f, 'z) TM_scheme" where
  "reset_notifier s = s\<lparr>tm_notifier := None\<rparr>"

definition set_exception_handler :: "'f option \<Rightarrow> ('f, 'z) TM_scheme \<Rightarrow> ('f, 'z) TM_scheme" where
  "set_exception_handler h s = s\<lparr>tm_handler := h\<rparr>"

definition close :: "('f, 'z) TM_scheme \<Rightarrow> ('f, 'z) TM_scheme" where
  "close s =
     (let notify = \<not> tm_closed s; s = s\<lparr>tm_closed := True\<rparr>
      in if notify then notify_work_available s else s)"

definition is_closed :: "('f, 'z) TM_scheme \<Rightarrow> bool" where
  "is_closed s = tm_closed s"

section \<open>Cancellation\<close>

text \<open>
  \<^verbatim>\<open>cancel\<close> first loads the task's state and then compare-exchanges from the loaded value;
  \<open>cancel_loaded\<close> is the part after the load, \<open>v\<close> the loaded state. The two parts are separate because
  \<^verbatim>\<open>process()\<close> starts a snapshotted task without taking the mutex, so the state can change in between.
\<close>

definition cancel_loaded ::
  "TaskId \<Rightarrow> nat \<Rightarrow> State \<Rightarrow> ('f, 'z) TM_scheme \<Rightarrow> bool \<times> ('f, 'z) TM_scheme"
where
  "cancel_loaded i r v s =
     (case v of
        queued_ready \<Rightarrow>
          (case transition r v cancelled s of (ok, s) \<Rightarrow>
             if \<not> ok then (False, s)
             else (True, index_erase i (decrement_pending_count (decrement_ready_count s))))
      | queued_delayed \<Rightarrow>
          (case transition r v cancelled s of (ok, s) \<Rightarrow>
             if \<not> ok then (False, s) else (True, index_erase i (decrement_pending_count s)))
      | ready_snapshot \<Rightarrow>
          (case transition r v cancelled s of (ok, s) \<Rightarrow>
             if \<not> ok then (False, s) else (True, index_erase i (decrement_pending_count s)))
      | executing \<Rightarrow>
          if \<not> ctl_periodic (tm_controls s r) then (False, s)
          else (case transition r v cancelled s of (ok, s) \<Rightarrow>
                  if \<not> ok then (False, s)
                  else (True, clear_reschedule r (decrement_pending_count s)))
      | cancelled \<Rightarrow> (False, s)
      | completed \<Rightarrow> (False, s))"

definition cancel :: "TaskId \<Rightarrow> ('f, 'z) TM_scheme \<Rightarrow> bool \<times> ('f, 'z) TM_scheme" where
  "cancel i s =
     (if i = 0 then (False, s)
      else case tm_index s i of
             None \<Rightarrow> (False, s)
           | Some r \<Rightarrow> cancel_loaded i r (ctl_state (tm_controls s r)) s)"

section \<open>Operations of a task context\<close>

definition cancel_from_context :: "TaskId \<Rightarrow> ('f, 'z) TM_scheme \<Rightarrow> bool \<times> ('f, 'z) TM_scheme" where
  "cancel_from_context i s =
     (if i = 0 then (False, s)
      else case tm_index s i of
             None \<Rightarrow> (False, s)
           | Some r \<Rightarrow>
               if ctl_state (tm_controls s r) \<noteq> executing then (False, s)
               else (case transition r executing cancelled s of (ok, s) \<Rightarrow>
                       if \<not> ok then (False, s)
                       else let s = clear_reschedule r s
                            in (True, if ctl_periodic (tm_controls s r)
                                      then decrement_pending_count s else s)))"

definition is_cancelled_for_context :: "TaskId \<Rightarrow> ('f, 'z) TM_scheme \<Rightarrow> bool" where
  "is_cancelled_for_context i s =
     (if i = 0 then False
      else case tm_index s i of
             None \<Rightarrow> False
           | Some r \<Rightarrow> ctl_state (tm_controls s r) = cancelled)"

definition reschedule_from_context ::
  "TaskId \<Rightarrow> time \<Rightarrow> ('f, 'z) TM_scheme \<Rightarrow> bool \<times> ('f, 'z) TM_scheme"
where
  "reschedule_from_context i due s =
     (if i = 0 then (False, s)
      else if tm_closed s then (False, s)
      else case tm_index s i of
             None \<Rightarrow> (False, s)
           | Some r \<Rightarrow>
               if ctl_state (tm_controls s r) \<noteq> executing then (False, s)
               else (True, set_control r ((tm_controls s r)\<lparr>reschedule_requested := True,
                                             reschedule_due := due\<rparr>) s))"

definition make_context :: "TaskId \<Rightarrow> TaskContext" where
  "make_context i = Bound_context i"

text \<open>The facade: an inert context answers \<open>False\<close> to everything.\<close>

fun TaskContext_cancel :: "TaskContext \<Rightarrow> ('f, 'z) TM_scheme \<Rightarrow> bool \<times> ('f, 'z) TM_scheme" where
  "TaskContext_cancel Inert_context s = (False, s)"
| "TaskContext_cancel (Bound_context i) s = cancel_from_context i s"

fun TaskContext_is_cancelled :: "TaskContext \<Rightarrow> ('f, 'z) TM_scheme \<Rightarrow> bool" where
  "TaskContext_is_cancelled Inert_context s = False"
| "TaskContext_is_cancelled (Bound_context i) s = is_cancelled_for_context i s"

fun TaskContext_reschedule_at ::
  "TaskContext \<Rightarrow> time \<Rightarrow> ('f, 'z) TM_scheme \<Rightarrow> bool \<times> ('f, 'z) TM_scheme"
where
  "TaskContext_reschedule_at Inert_context due s = (False, s)"
| "TaskContext_reschedule_at (Bound_context i) due s = reschedule_from_context i due s"

definition TaskContext_reschedule_after ::
  "time \<Rightarrow> TaskContext \<Rightarrow> time \<Rightarrow> ('f, 'z) TM_scheme \<Rightarrow> bool \<times> ('f, 'z) TM_scheme"
where
  "TaskContext_reschedule_after now ctx delay s = TaskContext_reschedule_at ctx (now + delay) s"

end
