(* ===== verification/Task_Process.thy ===== *)
theory Task_Process
  imports Task_Manager
begin

text \<open>
  The consumer side of \<^verbatim>\<open>TaskManager\<close>: promotion of due tasks, the ready snapshot, the execution loop
  of \<^verbatim>\<open>process()\<close> with its exception paths, \<^verbatim>\<open>clear_pending()\<close> and the queries.
\<close>

section \<open>Pruning and promoting delayed tasks\<close>

text \<open>
  \<open>prune_heap\<close> is \<^verbatim>\<open>prune_delayed_top_locked\<close> on the heap vector: it pops while the front is cancelled
  or completed.
\<close>

function prune_heap :: "(nat \<Rightarrow> Control) \<Rightarrow> 'f Entry list \<Rightarrow> 'f Entry list" where
  "prune_heap c h =
     (if h = [] then []
      else if ctl_state (c (e_control (h ! 0))) \<noteq> cancelled \<and>
              ctl_state (c (e_control (h ! 0))) \<noteq> completed then h
      else prune_heap c (butlast (pop_heap DelayedSooner h)))"
  by pat_completeness auto
termination
  by (relation "measure (\<lambda>(c, h). length h)") (auto simp: delayed.length_pop)

declare prune_heap.simps [simp del]

definition prune_delayed_top_locked :: "('f, 'z) TM_scheme \<Rightarrow> ('f, 'z) TM_scheme" where
  "prune_delayed_top_locked s = s\<lparr>tm_heap := prune_heap (tm_controls s) (tm_heap s)\<rparr>"

lemma length_prune_heap: "length (prune_heap c h) \<le> length h"
proof (induction c h rule: prune_heap.induct)
  case (1 c h)
  show ?case
  proof (cases "h = []")
    case False
    then show ?thesis
      using 1 delayed.length_butlast_pop [OF False]
      by (subst prune_heap.simps) (auto simp: less_imp_le intro: le_trans)
  qed (simp add: prune_heap.simps)
qed

text \<open>One turn of the loop of \<^verbatim>\<open>promote_due_locked\<close>, and the loop.\<close>

definition promote_front :: "('f, 'z) TM_scheme \<Rightarrow> ('f, 'z) TM_scheme" where
  "promote_front s =
     (let h = pop_heap DelayedSooner (tm_heap s);
          e = last h;
          s = s\<lparr>tm_heap := butlast h\<rparr>;
          (ok, s) = transition (e_control e) queued_delayed queued_ready s;
          s = (if ok then increment_ready_count (push_back_ready e s) else s)
      in prune_delayed_top_locked s)"

lemma heap_ready_ops [simp]:
  "tm_heap (increment_ready_count s) = tm_heap s"
  "tm_heap (push_back_ready e s) = tm_heap s"
  "tm_heap (set_state r v s) = tm_heap s"
  by (simp_all add: increment_ready_count_def push_back_ready_def set_state_def set_control_def
      Let_def)

lemma length_promote_front:
  "tm_heap s \<noteq> [] \<Longrightarrow> length (tm_heap (promote_front s)) < length (tm_heap s)"
  using delayed.length_butlast_pop [of "tm_heap s"]
  by (auto simp: promote_front_def prune_delayed_top_locked_def transition_def Let_def
      intro!: le_less_trans [OF length_prune_heap])

function promote_loop :: "time \<Rightarrow> ('f, 'z) TM_scheme \<Rightarrow> ('f, 'z) TM_scheme" where
  "promote_loop now s =
     (if tm_heap s \<noteq> [] \<and> e_due (tm_heap s ! 0) \<le> now then promote_loop now (promote_front s)
      else s)"
  by pat_completeness auto
termination
  by (relation "measure (\<lambda>(now, s). length (tm_heap s))") (auto simp: length_promote_front)

declare promote_loop.simps [simp del]

definition promote_due_locked :: "time \<Rightarrow> ('f, 'z) TM_scheme \<Rightarrow> ('f, 'z) TM_scheme" where
  "promote_due_locked now s = promote_loop now (prune_delayed_top_locked s)"

section \<open>The ready snapshot\<close>

text \<open>
  The inner loop of \<^verbatim>\<open>take_ready_batch_locked\<close> over one queue: the rest of the queue, the batch so
  far and the state.
\<close>

fun take_queue ::
  "nat \<Rightarrow> 'f Entry list \<Rightarrow> 'f Entry list \<Rightarrow> ('f, 'z) TM_scheme
     \<Rightarrow> 'f Entry list \<times> 'f Entry list \<times> ('f, 'z) TM_scheme"
where
  "take_queue max_tasks [] batch s = ([], batch, s)"
| "take_queue max_tasks (e # q) batch s =
     (if length batch = max_tasks then (e # q, batch, s)
      else case transition (e_control e) queued_ready ready_snapshot s of (ok, s) \<Rightarrow>
             if \<not> ok then take_queue max_tasks q batch s
             else take_queue max_tasks q (batch @ [e]) (decrement_ready_count s))"

definition take_from ::
  "nat \<Rightarrow> nat \<Rightarrow> 'f Entry list \<times> ('f, 'z) TM_scheme \<Rightarrow> 'f Entry list \<times> ('f, 'z) TM_scheme"
where
  "take_from max_tasks i p =
     (case p of (batch, s) \<Rightarrow>
        case take_queue max_tasks (tm_ready s i) batch s of (q, batch, s) \<Rightarrow>
          (batch, s\<lparr>tm_ready := (tm_ready s)(i := q)\<rparr>))"

definition take_ready_batch_locked ::
  "nat \<Rightarrow> ('f, 'z) TM_scheme \<Rightarrow> 'f Entry list \<times> ('f, 'z) TM_scheme"
where
  "take_ready_batch_locked max_tasks s =
     take_from max_tasks 2 (take_from max_tasks 1 (take_from max_tasks 0 ([], s)))"

section \<open>Finishing a task\<close>

definition next_periodic_due :: "'f Entry \<Rightarrow> time \<Rightarrow> time" where
  "next_periodic_due e now =
     (if e_schedule e = fixed_rate then e_planned_due e + e_interval e else now + e_interval e)"

definition enqueue_existing_locked ::
  "time \<Rightarrow> 'f Entry \<Rightarrow> time \<Rightarrow> ('f, 'z) TM_scheme \<Rightarrow> ('f, 'z) TM_scheme"
where
  "enqueue_existing_locked now e due s =
     (let is_ready = (due \<le> now);
          desired = (if is_ready then queued_ready else queued_delayed);
          (ok, s) = transition (e_control e) executing desired s
      in if \<not> ok then s
         else let s = (if \<not> e_periodic e then increment_pending_count s else s);
                  (sq, s) = next_seq s;
                  e = e\<lparr>e_seq := sq, e_due := due, e_planned_due := due\<rparr>
              in if is_ready then increment_ready_count (push_back_ready e s)
                 else push_delayed e s)"

text \<open>
  \<open>now1\<close> is the clock reading of \<^verbatim>\<open>next_periodic_due\<close>, \<open>now2\<close> the later one of
  \<^verbatim>\<open>enqueue_existing_locked\<close>.
\<close>

definition finish_after_success ::
  "time \<Rightarrow> time \<Rightarrow> 'f Entry \<Rightarrow> ('f, 'z) TM_scheme \<Rightarrow> ('f, 'z) TM_scheme"
where
  "finish_after_success now1 now2 e s =
     (let v = entry_state s e in
      if v = cancelled then index_erase (e_id e) (clear_reschedule (e_control e) s)
      else if v \<noteq> executing then s
      else if tm_closed s then
        (case transition (e_control e) v completed s of (ok, s) \<Rightarrow>
           if ok then
             index_erase (e_id e)
               (clear_reschedule (e_control e)
                  (if e_periodic e then decrement_pending_count s else s))
           else s)
      else if reschedule_requested (control_of s e) then
        (let due = reschedule_due (control_of s e)
         in enqueue_existing_locked now2 e due (clear_reschedule (e_control e) s))
      else if e_periodic e then
        enqueue_existing_locked now2 e (next_periodic_due e now1) s
      else (case transition (e_control e) v completed s of (ok, s) \<Rightarrow>
              if ok then index_erase (e_id e) s else s))"

definition finish_after_exception :: "'f Entry \<Rightarrow> ('f, 'z) TM_scheme \<Rightarrow> ('f, 'z) TM_scheme" where
  "finish_after_exception e s =
     (let s = clear_reschedule (e_control e) s; v = entry_state s e in
      if v = executing then
        (case transition (e_control e) v completed s of (ok, s) \<Rightarrow>
           if ok then index_erase (e_id e) (if e_periodic e then decrement_pending_count s else s)
           else s)
      else if v = cancelled then index_erase (e_id e) s
      else s)"

text \<open>
  \<^verbatim>\<open>restore_unrun(batch, first)\<close> walks from the last entry of the batch down to \<open>first\<close>; its argument
  here is the unstarted part of the batch.
\<close>

definition restore_one :: "'f Entry \<Rightarrow> ('f, 'z) TM_scheme \<Rightarrow> ('f, 'z) TM_scheme" where
  "restore_one e s =
     (case transition (e_control e) ready_snapshot queued_ready s of (ok, s) \<Rightarrow>
        if \<not> ok then s else increment_ready_count (push_front_ready e s))"

definition restore_unrun :: "'f Entry list \<Rightarrow> ('f, 'z) TM_scheme \<Rightarrow> ('f, 'z) TM_scheme" where
  "restore_unrun unrun s = foldr restore_one unrun s"

section \<open>The execution loop\<close>

text \<open>
  User code is a parameter: \<open>run f ctx s\<close> is the effect of callable \<open>f\<close> on the state, with the
  exception it throws; \<open>hrun h x s\<close> that of the exception handler \<open>h\<close>.
\<close>

type_synonym ('f, 's) runner = "'f \<Rightarrow> TaskContext option \<Rightarrow> 's \<Rightarrow> 's \<times> exn option"
type_synonym ('f, 's) handler_runner = "'f \<Rightarrow> exn \<Rightarrow> 's \<Rightarrow> 's \<times> exn option"

text \<open>\<open>Inr\<close>: whether a handler took the exception; \<open>Inl\<close>: what the handler itself threw.\<close>

definition report_exception ::
  "('f, ('f, 'z) TM_scheme) handler_runner \<Rightarrow> exn \<Rightarrow> ('f, 'z) TM_scheme
     \<Rightarrow> (exn + bool) \<times> ('f, 'z) TM_scheme"
where
  "report_exception hrun x s =
     (case tm_handler s of
        None \<Rightarrow> (Inr False, s)
      | Some h \<Rightarrow> (case hrun h x s of
                      (s', None) \<Rightarrow> (Inr True, s')
                    | (s', Some y) \<Rightarrow> (Inl y, s')))"

text \<open>The compare-exchange that claims a batch entry, and the count update that follows it.\<close>

definition start_entry :: "'f Entry \<Rightarrow> ('f, 'z) TM_scheme \<Rightarrow> bool \<times> ('f, 'z) TM_scheme" where
  "start_entry e s = transition (e_control e) ready_snapshot executing s"

definition uncount_started :: "'f Entry \<Rightarrow> ('f, 'z) TM_scheme \<Rightarrow> ('f, 'z) TM_scheme" where
  "uncount_started e s = (if \<not> e_periodic e then decrement_pending_count s else s)"

text \<open>
  The loop over the batch. \<open>nows i\<close> holds the two clock readings available to the \<open>i\<close>-th entry. The
  result is the list of the ids of the callbacks started, in order (an observation the source
  does not return), the value of \<open>processed\<close> or the exception that leaves \<^verbatim>\<open>process()\<close>, and the
  state.
\<close>

fun process_loop ::
  "('f, ('f, 'z) TM_scheme) runner \<Rightarrow> ('f, ('f, 'z) TM_scheme) handler_runner \<Rightarrow>
   (nat \<Rightarrow> time \<times> time) \<Rightarrow> 'f Entry list \<Rightarrow> nat \<Rightarrow> nat \<Rightarrow> ('f, 'z) TM_scheme
     \<Rightarrow> TaskId list \<times> (exn + nat) \<times> ('f, 'z) TM_scheme"
where
  "process_loop run hrun nows [] i processed s = ([], Inr processed, s)"
| "process_loop run hrun nows (e # rest) i processed s =
     (case start_entry e s of (ok, s1) \<Rightarrow>
        if \<not> ok then process_loop run hrun nows rest (Suc i) processed s1
        else
          case Task_call_context run (e_task e) (make_context (e_id e)) (uncount_started e s1) of
            (s2, None) \<Rightarrow>
              (case process_loop run hrun nows rest (Suc i) (Suc processed)
                      (finish_after_success (fst (nows i)) (snd (nows i)) e s2) of
                 (started, r, s3) \<Rightarrow> (e_id e # started, r, s3))
          | (s2, Some x) \<Rightarrow>
              (case report_exception hrun x (finish_after_exception e s2) of
                 (Inl y, s3) \<Rightarrow> ([e_id e], Inl y, restore_unrun rest s3)
               | (Inr False, s3) \<Rightarrow> ([e_id e], Inl x, restore_unrun rest s3)
               | (Inr True, s3) \<Rightarrow>
                   (case process_loop run hrun nows rest (Suc i) (Suc processed) s3 of
                      (started, r, s4) \<Rightarrow> (e_id e # started, r, s4))))"

text \<open>The locked prologue of \<^verbatim>\<open>process()\<close>.\<close>

definition take_snapshot ::
  "time \<Rightarrow> nat \<Rightarrow> ('f, 'z) TM_scheme \<Rightarrow> 'f Entry list \<times> ('f, 'z) TM_scheme"
where
  "take_snapshot now max_tasks s = take_ready_batch_locked max_tasks (promote_due_locked now s)"

definition process_traced ::
  "('f, ('f, 'z) TM_scheme) runner \<Rightarrow> ('f, ('f, 'z) TM_scheme) handler_runner \<Rightarrow>
   time \<Rightarrow> (nat \<Rightarrow> time \<times> time) \<Rightarrow> nat \<Rightarrow> ('f, 'z) TM_scheme
     \<Rightarrow> TaskId list \<times> (exn + nat) \<times> ('f, 'z) TM_scheme"
where
  "process_traced run hrun now nows max_tasks s =
     (if max_tasks = 0 then ([], Inr 0, s)
      else case take_snapshot now max_tasks s of (batch, s) \<Rightarrow>
             process_loop run hrun nows batch 0 0 s)"

definition process ::
  "('f, ('f, 'z) TM_scheme) runner \<Rightarrow> ('f, ('f, 'z) TM_scheme) handler_runner \<Rightarrow>
   time \<Rightarrow> (nat \<Rightarrow> time \<times> time) \<Rightarrow> nat \<Rightarrow> ('f, 'z) TM_scheme
     \<Rightarrow> (exn + nat) \<times> ('f, 'z) TM_scheme"
where
  "process run hrun now nows max_tasks s = snd (process_traced run hrun now nows max_tasks s)"

section \<open>Dropping queued work\<close>

fun clear_queue ::
  "'f Entry list \<Rightarrow> nat \<times> ('f, 'z) TM_scheme \<Rightarrow> nat \<times> ('f, 'z) TM_scheme"
where
  "clear_queue [] p = p"
| "clear_queue (e # q) (dropped, s) =
     (case transition (e_control e) queued_ready cancelled s of (ok, s) \<Rightarrow>
        clear_queue q
          (if ok then (Suc dropped,
                       index_erase (e_id e) (decrement_pending_count (decrement_ready_count s)))
           else (dropped, s)))"

definition clear_ready :: "nat \<Rightarrow> nat \<times> ('f, 'z) TM_scheme \<Rightarrow> nat \<times> ('f, 'z) TM_scheme" where
  "clear_ready i p =
     (case clear_queue (tm_ready (snd p) i) p of (dropped, s) \<Rightarrow>
        (dropped, s\<lparr>tm_ready := (tm_ready s)(i := [])\<rparr>))"

fun clear_heap ::
  "'f Entry list \<Rightarrow> nat \<times> ('f, 'z) TM_scheme \<Rightarrow> nat \<times> ('f, 'z) TM_scheme"
where
  "clear_heap [] p = p"
| "clear_heap (e # h) (dropped, s) =
     (case transition (e_control e) queued_delayed cancelled s of (ok, s) \<Rightarrow>
        clear_heap h
          (if ok then (Suc dropped, index_erase (e_id e) (decrement_pending_count s))
           else (dropped, s)))"

definition clear_pending :: "('f, 'z) TM_scheme \<Rightarrow> nat \<times> ('f, 'z) TM_scheme" where
  "clear_pending s =
     (case clear_ready 2 (clear_ready 1 (clear_ready 0 (0, s))) of (dropped, s) \<Rightarrow>
        case clear_heap (tm_heap s) (dropped, s) of (dropped, s) \<Rightarrow>
          (dropped, s\<lparr>tm_heap := []\<rparr>))"

text \<open>The destructor.\<close>

definition TaskManager_destroy :: "('f, 'z) TM_scheme \<Rightarrow> ('f, 'z) TM_scheme" where
  "TaskManager_destroy s = snd (clear_pending (close s))"

section \<open>Queries\<close>

definition ready_count :: "('f, 'z) TM_scheme \<Rightarrow> u64" where
  "ready_count s = tm_ready_count s"

definition pending_count :: "('f, 'z) TM_scheme \<Rightarrow> u64" where
  "pending_count s = tm_pending_count s"

definition has_ready :: "('f, 'z) TM_scheme \<Rightarrow> bool" where
  "has_ready s \<longleftrightarrow> ready_count s \<noteq> 0"

definition has_pending :: "('f, 'z) TM_scheme \<Rightarrow> bool" where
  "has_pending s \<longleftrightarrow> pending_count s \<noteq> 0"

definition next_deadline :: "('f, 'z) TM_scheme \<Rightarrow> time option \<times> ('f, 'z) TM_scheme" where
  "next_deadline s =
     (let s = prune_delayed_top_locked s
      in (if tm_heap s = [] then None else Some (e_due (tm_heap s ! 0)), s))"

definition recommend_wait_for ::
  "time \<Rightarrow> time \<Rightarrow> ('f, 'z) TM_scheme \<Rightarrow> time \<times> ('f, 'z) TM_scheme"
where
  "recommend_wait_for now cap s =
     (if has_ready s then (0, s)
      else case next_deadline s of
             (None, s) \<Rightarrow> (cap, s)
           | (Some deadline, s) \<Rightarrow>
               (if deadline \<le> now then 0
                else if deadline - now < cap then deadline - now else cap, s))"

definition recommend_wait_for_ms ::
  "time \<Rightarrow> int \<Rightarrow> ('f, 'z) TM_scheme \<Rightarrow> time \<times> ('f, 'z) TM_scheme"
where
  "recommend_wait_for_ms now idle_cap_ms s = recommend_wait_for now (milliseconds idle_cap_ms) s"

end
