(* ===== verification/Task_Inv.thy ===== *)
theory Task_Inv
  imports Task_Process
begin

text \<open>
  The invariant of a task manager and its preservation by every operation. Each live entry
  is in exactly one place: a ready queue, the delayed heap, the unstarted part of a running
  \<^verbatim>\<open>process()\<close> snapshot, the hands of a \<^verbatim>\<open>process()\<close> call that has claimed it and not yet updated the
  pending count, or a running callback. The last three live outside the manager object, so the
  invariant takes them as arguments; a callback that re-enters the manager, even through a nested
  \<^verbatim>\<open>process()\<close>, or a concurrent producer, finds the invariant with the outer calls' entries in them.
\<close>

section \<open>Multisets without repetition\<close>

definition uniq :: "'a multiset \<Rightarrow> bool" where
  "uniq M \<longleftrightarrow> (\<forall>x. count M x \<le> 1)"

lemma uniq_empty [simp]: "uniq {#}"
  by (simp add: uniq_def)

lemma uniq_add [simp]: "uniq (add_mset x M) \<longleftrightarrow> x \<notin># M \<and> uniq M"
  by (auto simp: uniq_def not_in_iff le_Suc_eq split: if_splits)

section \<open>Places and weights\<close>

datatype Place = In_ready | In_heap | In_snapshot | Claimed | Running

fun live_state :: "Place \<Rightarrow> State" where
  "live_state In_ready = queued_ready"
| "live_state In_heap = queued_delayed"
| "live_state In_snapshot = ready_snapshot"
| "live_state Claimed = executing"
| "live_state Running = executing"

text \<open>
  In every place an entry is either in that place's own state or cancelled. The index knows it unless
  it was cancelled before it started.
\<close>

definition allowed :: "Place \<Rightarrow> State \<Rightarrow> bool" where
  "allowed p v \<longleftrightarrow> v = live_state p \<or> v = cancelled"

definition visible :: "Place \<Rightarrow> State \<Rightarrow> bool" where
  "visible p v \<longleftrightarrow> v \<noteq> cancelled \<or> p = Claimed \<or> p = Running"

text \<open>What an entry contributes to the two counters.\<close>

definition ready_weight :: "Place \<Rightarrow> State \<Rightarrow> u64" where
  "ready_weight p v = (if p = In_ready \<and> v \<noteq> cancelled then 1 else 0)"

definition pending_weight :: "Place \<Rightarrow> bool \<Rightarrow> State \<Rightarrow> u64" where
  "pending_weight p periodic v =
     (case p of
        Claimed \<Rightarrow> if \<not> periodic \<or> v \<noteq> cancelled then 1 else 0
      | Running \<Rightarrow> if periodic \<and> v \<noteq> cancelled then 1 else 0
      | _ \<Rightarrow> if v \<noteq> cancelled then 1 else 0)"

lemmas weight_defs = allowed_def visible_def ready_weight_def pending_weight_def

section \<open>The invariant over a multiset of placed entries\<close>

type_synonym 'f placed = "Place \<times> 'f Entry"

definition entry_ok :: "('f, 'z) TM_scheme \<Rightarrow> 'f placed \<Rightarrow> bool" where
  "entry_ok s x \<longleftrightarrow>
     (case x of (p, e) \<Rightarrow>
        e_control e < tm_next_control s \<and>
        ctl_id (tm_controls s (e_control e)) = e_id e \<and>
        ctl_periodic (tm_controls s (e_control e)) = e_periodic e \<and>
        e_id e \<noteq> 0 \<and> (tm_next_id s \<noteq> 0 \<longrightarrow> e_id e < tm_next_id s) \<and>
        Task_bool (e_task e) \<and>
        allowed p (entry_state s e))"

definition placed_ready :: "('f, 'z) TM_scheme \<Rightarrow> 'f placed \<Rightarrow> u64" where
  "placed_ready s x = ready_weight (fst x) (entry_state s (snd x))"

definition placed_pending :: "('f, 'z) TM_scheme \<Rightarrow> 'f placed \<Rightarrow> u64" where
  "placed_pending s x = pending_weight (fst x) (e_periodic (snd x)) (entry_state s (snd x))"

lemma placed_weights [simp]:
  "placed_ready s (p, e) = ready_weight p (entry_state s e)"
  "placed_pending s (p, e) = pending_weight p (e_periodic e) (entry_state s e)"
  by (simp_all add: placed_ready_def placed_pending_def)

definition listed :: "'f placed multiset \<Rightarrow> ('f, 'z) TM_scheme \<Rightarrow> TaskId \<Rightarrow> nat \<Rightarrow> bool" where
  "listed M s i r \<longleftrightarrow>
     (\<exists>x \<in># M. e_id (snd x) = i \<and> e_control (snd x) = r \<and>
               visible (fst x) (entry_state s (snd x)))"

text \<open>A block is live until it is cancelled or completed; no live block is without its entry.\<close>

definition live_block :: "('f, 'z) TM_scheme \<Rightarrow> nat \<Rightarrow> bool" where
  "live_block s r \<longleftrightarrow>
     ctl_state (tm_controls s r) \<noteq> cancelled \<and> ctl_state (tm_controls s r) \<noteq> completed"

definition placed_inv :: "'f placed multiset \<Rightarrow> ('f, 'z) TM_scheme \<Rightarrow> bool" where
  "placed_inv M s \<longleftrightarrow>
     uniq (image_mset (\<lambda>x. e_control (snd x)) M) \<and>
     uniq (image_mset (\<lambda>x. e_id (snd x)) M) \<and>
     (\<forall>x \<in># M. entry_ok s x) \<and>
     (\<forall>r < tm_next_control s. live_block s r \<longrightarrow> r \<in> (\<lambda>x. e_control (snd x)) ` set_mset M) \<and>
     (\<forall>i r. tm_index s i = Some r \<longleftrightarrow> listed M s i r) \<and>
     tm_ready_count s = (\<Sum>x \<in># M. placed_ready s x) \<and>
     tm_pending_count s = (\<Sum>x \<in># M. placed_pending s x)"

lemma listed_add:
  "listed (add_mset (p, e) B) s i r \<longleftrightarrow>
     e_id e = i \<and> e_control e = r \<and> visible p (entry_state s e) \<or> listed B s i r"
  by (auto simp: listed_def)

lemma placed_inv_other:
  assumes "placed_inv (add_mset (p, e) B) s" and "x \<in># B"
  shows "e_control (snd x) \<noteq> e_control e" "e_id (snd x) \<noteq> e_id e" "entry_ok s x"
proof -
  have c: "e_control e \<notin> (\<lambda>x. e_control (snd x)) ` set_mset B"
    and i: "e_id e \<notin> (\<lambda>x. e_id (snd x)) ` set_mset B" and o: "\<forall>x \<in># B. entry_ok s x"
    using assms(1) by (simp_all add: placed_inv_def)
  show "e_control (snd x) \<noteq> e_control e"
    using c imageI [OF assms(2), of "\<lambda>x. e_control (snd x)"] by metis
  show "e_id (snd x) \<noteq> e_id e"
    using i imageI [OF assms(2), of "\<lambda>x. e_id (snd x)"] by metis
  show "entry_ok s x" using o assms(2) by blast
qed

lemma placed_inv_unlisted: "placed_inv (add_mset (p, e) B) s \<Longrightarrow> \<not> listed B s (e_id e) r"
  using placed_inv_other(2) by (fastforce simp: listed_def)

lemma placed_inv_listed: "placed_inv M s \<Longrightarrow> tm_index s i = Some r \<longleftrightarrow> listed M s i r"
  by (simp add: placed_inv_def)

lemma placed_inv_index:
  assumes "placed_inv (add_mset (p, e) B) s"
  shows "tm_index s (e_id e) = (if visible p (entry_state s e) then Some (e_control e) else None)"
proof -
  have idx: "tm_index s (e_id e) = Some r \<longleftrightarrow> e_control e = r \<and> visible p (entry_state s e)" for r
    using placed_inv_listed [OF assms] placed_inv_unlisted [OF assms] by (simp add: listed_add)
  then show ?thesis
    by (cases "tm_index s (e_id e)") auto
qed

lemma placed_inv_entry: "placed_inv M s \<Longrightarrow> x \<in># M \<Longrightarrow> entry_ok s x"
  by (simp add: placed_inv_def)

lemma placed_inv_live:
  "placed_inv (add_mset (p, e) B) s \<Longrightarrow> r < tm_next_control s \<Longrightarrow> live_block s r \<Longrightarrow>
     r = e_control e \<or> r \<in> (\<lambda>x. e_control (snd x)) ` set_mset B"
  by (simp add: placed_inv_def)

lemma placed_inv_find:
  assumes "placed_inv M s" and "tm_index s i = Some r"
  obtains p e B where "M = add_mset (p, e) B" "e_id e = i" "e_control e = r"
    "visible p (entry_state s e)" "i \<noteq> 0" "allowed p (entry_state s e)"
    "ctl_state (tm_controls s r) = entry_state s e"
    "ctl_periodic (tm_controls s r) = e_periodic e" "ctl_id (tm_controls s r) = i"
proof -
  from placed_inv_listed [OF assms(1)] assms(2) obtain x
    where x: "x \<in># M" "e_id (snd x) = i" "e_control (snd x) = r"
      "visible (fst x) (entry_state s (snd x))"
    unfolding listed_def by blast
  obtain B where B: "M = add_mset x B" using x(1) by (meson multi_member_split)
  obtain p e where pe: "x = (p, e)" by (cases x)
  have "entry_ok s (p, e)" using assms(1) x(1) pe by (simp add: placed_inv_entry)
  then have "i \<noteq> 0" "allowed p (entry_state s e)" "ctl_state (tm_controls s r) = entry_state s e"
    "ctl_periodic (tm_controls s r) = e_periodic e" "ctl_id (tm_controls s r) = i"
    using x pe by (simp_all add: entry_ok_def entry_state_def)
  moreover have "M = add_mset (p, e) B" "e_id e = i" "e_control e = r" "visible p (entry_state s e)"
    using x pe B by simp_all
  ultimately show thesis by (rule that [rotated 4])
qed

section \<open>The three ways an entry changes\<close>

text \<open>
  Everything an operation does to one entry is a replacement (a state change, a move, or both), a
  removal or an insertion; each of the next lemmas covers one of them. Entries elsewhere are not
  affected because no two share a control block.
\<close>

lemma other_entries:
  assumes "placed_inv (add_mset (p, e) B) s"
    and "tm_controls s' = (tm_controls s)(e_control e := c)"
    and "x \<in># B"
  shows "entry_state s' (snd x) = entry_state s (snd x)"
    "tm_controls s' (e_control (snd x)) = tm_controls s (e_control (snd x))"
  using placed_inv_other(1) [OF assms(1,3)] assms(2) by (simp_all add: entry_state_def)

text \<open>What the untouched entries keep when no control block of theirs changes.\<close>

lemma untouched:
  assumes "\<And>x. x \<in># B \<Longrightarrow>
      tm_controls s' (e_control (snd x)) = tm_controls s (e_control (snd x))"
  shows "(\<Sum>x \<in># B. placed_ready s' x) = (\<Sum>x \<in># B. placed_ready s x)"
    "(\<Sum>x \<in># B. placed_pending s' x) = (\<Sum>x \<in># B. placed_pending s x)"
    "listed B s' = listed B s"
proof -
  have st: "x \<in># B \<Longrightarrow> entry_state s' (snd x) = entry_state s (snd x)" for x
    using assms by (simp add: entry_state_def)
  show "(\<Sum>x \<in># B. placed_ready s' x) = (\<Sum>x \<in># B. placed_ready s x)"
    "(\<Sum>x \<in># B. placed_pending s' x) = (\<Sum>x \<in># B. placed_pending s x)"
    by (rule arg_cong [where f = sum_mset], rule image_mset_cong,
        simp add: placed_ready_def placed_pending_def st)+
  show "listed B s' = listed B s"
    by (intro ext) (auto simp: listed_def st)
qed

lemma placed_inv_add_iff:
  "placed_inv (add_mset (p, e) B) s \<longleftrightarrow>
     e_control e \<notin> (\<lambda>x. e_control (snd x)) ` set_mset B \<and>
     uniq (image_mset (\<lambda>x. e_control (snd x)) B) \<and>
     e_id e \<notin> (\<lambda>x. e_id (snd x)) ` set_mset B \<and>
     uniq (image_mset (\<lambda>x. e_id (snd x)) B) \<and>
     entry_ok s (p, e) \<and> (\<forall>x \<in># B. entry_ok s x) \<and>
     (\<forall>r < tm_next_control s. live_block s r \<longrightarrow>
        r = e_control e \<or> r \<in> (\<lambda>x. e_control (snd x)) ` set_mset B) \<and>
     (\<forall>i r. tm_index s i = Some r \<longleftrightarrow>
        e_id e = i \<and> e_control e = r \<and> visible p (entry_state s e) \<or> listed B s i r) \<and>
     tm_ready_count s = ready_weight p (entry_state s e) + (\<Sum>x \<in># B. placed_ready s x) \<and>
     tm_pending_count s =
       pending_weight p (e_periodic e) (entry_state s e) + (\<Sum>x \<in># B. placed_pending s x)"
  unfolding placed_inv_def by (simp add: listed_add conj_ac)

lemma placed_inv_replace:
  assumes inv: "placed_inv (add_mset (p, e) B) s"
    and ctl: "tm_controls s' = (tm_controls s)(e_control e := c)"
    and same: "ctl_id c = e_id e" "ctl_periodic c = e_periodic e"
      "e_control e' = e_control e" "e_id e' = e_id e" "e_periodic e' = e_periodic e"
      "e_task e' = e_task e"
    and ok: "allowed p' (ctl_state c)"
    and idx: "tm_index s' =
      (tm_index s)(e_id e := if visible p' (ctl_state c) then Some (e_control e) else None)"
    and nxt: "tm_next_control s' = tm_next_control s" "tm_next_id s' = tm_next_id s"
    and rc: "tm_ready_count s' + ready_weight p (entry_state s e) =
             tm_ready_count s + ready_weight p' (ctl_state c)"
    and pc: "tm_pending_count s' + pending_weight p (e_periodic e) (entry_state s e) =
             tm_pending_count s + pending_weight p' (e_periodic e) (ctl_state c)"
  shows "placed_inv (add_mset (p', e') B) s'"
proof -
  note oth = other_entries [OF inv ctl]
  note un = untouched [OF oth(2)]
  have st: "entry_state s' e' = ctl_state c" using ctl same by (simp add: entry_state_def)
  have "entry_ok s' x" if "x \<in># B" for x
    using placed_inv_other(3) [OF inv that] oth [OF that] nxt
    by (simp add: entry_ok_def split: prod.splits)
  moreover have "entry_ok s' (p', e')"
    using placed_inv_entry [OF inv, of "(p, e)"] st same nxt ctl ok by (simp add: entry_ok_def)
  moreover have "\<forall>r < tm_next_control s'. live_block s' r \<longrightarrow>
      r = e_control e \<or> r \<in> (\<lambda>x. e_control (snd x)) ` set_mset B"
    using placed_inv_live [OF inv] ctl nxt(1) by (auto simp: live_block_def)
  moreover have "tm_index s' i = Some r \<longleftrightarrow>
      e_id e = i \<and> e_control e = r \<and> visible p' (ctl_state c) \<or> listed B s i r" for i r
    using placed_inv_listed [OF inv, of i r] placed_inv_unlisted [OF inv, of r] idx
    by (cases "i = e_id e") (auto simp: listed_add)
  ultimately show ?thesis
    using inv rc pc unfolding placed_inv_add_iff by (simp add: same st un algebra_simps)
qed

lemma placed_inv_remove:
  assumes inv: "placed_inv (add_mset (p, e) B) s"
    and ctl: "tm_controls s' = (tm_controls s)(e_control e := c)"
    and dead: "ctl_state c = cancelled \<or> ctl_state c = completed"
    and idx: "tm_index s' = (tm_index s)(e_id e := None)"
    and nxt: "tm_next_control s' = tm_next_control s" "tm_next_id s' = tm_next_id s"
    and rc: "tm_ready_count s' + ready_weight p (entry_state s e) = tm_ready_count s"
    and pc: "tm_pending_count s' + pending_weight p (e_periodic e) (entry_state s e) =
             tm_pending_count s"
  shows "placed_inv B s'"
proof -
  note oth = other_entries [OF inv ctl]
  note un = untouched [OF oth(2)]
  have "entry_ok s' x" if "x \<in># B" for x
    using placed_inv_other(3) [OF inv that] oth [OF that] nxt
    by (simp add: entry_ok_def split: prod.splits)
  moreover have "\<forall>r < tm_next_control s'. live_block s' r \<longrightarrow>
      r \<in> (\<lambda>x. e_control (snd x)) ` set_mset B"
    using placed_inv_live [OF inv] ctl dead nxt(1) by (auto simp: live_block_def)
  moreover have "tm_index s' i = Some r \<longleftrightarrow> listed B s i r" for i r
    using placed_inv_listed [OF inv, of i r] placed_inv_unlisted [OF inv, of r] idx
    by (cases "i = e_id e") (auto simp: listed_add)
  ultimately show ?thesis
    using inv rc pc unfolding placed_inv_add_iff
    by (simp add: placed_inv_def [of B] un algebra_simps)
qed

lemma placed_inv_insert:
  assumes inv: "placed_inv B s"
    and nz: "tm_next_id s \<noteq> 0"
    and new: "e_control e = tm_next_control s" "e_id e = tm_next_id s" "Task_bool (e_task e)"
    and ctl: "tm_controls s' = (tm_controls s)(e_control e := c)"
    and c: "ctl_id c = e_id e" "ctl_periodic c = e_periodic e" "ctl_state c = live_state p"
    and p: "p = In_ready \<or> p = In_heap"
    and idx: "tm_index s' = (tm_index s)(e_id e \<mapsto> e_control e)"
    and nxt: "tm_next_control s' = Suc (tm_next_control s)" "tm_next_id s' = tm_next_id s + 1"
    and rc: "tm_ready_count s' = tm_ready_count s + ready_weight p (live_state p)"
    and pc: "tm_pending_count s' = tm_pending_count s + 1"
  shows "placed_inv (add_mset (p, e) B) s'"
proof -
  have old: "entry_ok s x" "e_control (snd x) < tm_next_control s" "e_id (snd x) < tm_next_id s"
    if "x \<in># B" for x
    using placed_inv_entry [OF inv, of x] that nz
    by (simp_all add: entry_ok_def split: prod.splits)
  have nid: "e_id (snd x) \<noteq> e_id e" "e_control (snd x) \<noteq> e_control e" if "x \<in># B" for x
    using old [OF that] new by auto
  note un = untouched [of B s' s]
  have un: "(\<Sum>x \<in># B. placed_ready s' x) = (\<Sum>x \<in># B. placed_ready s x)"
    "(\<Sum>x \<in># B. placed_pending s' x) = (\<Sum>x \<in># B. placed_pending s x)"
    "listed B s' = listed B s"
    by (intro untouched; use nid ctl in simp)+
  have ste: "entry_state s' e = live_state p" using ctl c by (simp add: entry_state_def)
  have lp: "live_state p \<noteq> cancelled" by (cases p) simp_all
  have "entry_ok s' x" if "x \<in># B" for x
    using old [OF that] nid [OF that] nxt ctl word_less_add_one [of "tm_next_id s" "e_id (snd x)"]
    by (simp add: entry_ok_def entry_state_def less_Suc_eq split: prod.splits)
  moreover have "entry_ok s' (p, e)"
    using nxt new c ctl nz ste word_less_self_add_one [of "tm_next_id s"]
    by (simp add: entry_ok_def allowed_def)
  moreover have "\<not> listed B s (e_id e) r" for r
    using nid by (auto simp: listed_def)
  then have "tm_index s' i = Some r \<longleftrightarrow>
      e_id e = i \<and> e_control e = r \<and> visible p (live_state p) \<or> listed B s i r" for i r
    using placed_inv_listed [OF inv, of i r] idx lp
    by (cases "i = e_id e") (auto simp: visible_def)
  moreover have "\<forall>r < tm_next_control s'. live_block s' r \<longrightarrow>
      r = e_control e \<or> r \<in> (\<lambda>x. e_control (snd x)) ` set_mset B"
    using inv ctl nxt(1) new(1) unfolding placed_inv_def
    by (auto simp: live_block_def less_Suc_eq)
  moreover have "e_control e \<notin> (\<lambda>x. e_control (snd x)) ` set_mset B"
    "e_id e \<notin> (\<lambda>x. e_id (snd x)) ` set_mset B"
    by (rule notI, erule imageE, use nid in metis)+
  moreover have "pending_weight p (e_periodic e) (live_state p) = 1"
    using p by (auto simp: pending_weight_def)
  ultimately show ?thesis
    using inv rc pc unfolding placed_inv_add_iff
    by (simp add: placed_inv_def [of B] un ste algebra_simps)
qed

end
