(* ===== verification/Task_Inv_Ops.thy ===== *)
theory Task_Inv_Ops
  imports Task_Inv
begin

text \<open>
  The invariant \<open>tm_inv\<close> of a whole manager, and its preservation by submission, configuration,
  cancellation and the operations of a task context.
\<close>

section \<open>The invariant of a manager\<close>

definition ready_mset :: "('f, 'z) TM_scheme \<Rightarrow> 'f Entry multiset" where
  "ready_mset s = mset (tm_ready s 0) + mset (tm_ready s 1) + mset (tm_ready s 2)"

text \<open>
  \<open>H\<close>: snapshotted and not yet claimed; \<open>S\<close>: claimed, pending count not yet updated; \<open>X\<close>: in a running
  callback.
\<close>

definition located ::
  "'f Entry list \<Rightarrow> 'f Entry list \<Rightarrow> 'f Entry list \<Rightarrow> ('f, 'z) TM_scheme \<Rightarrow> 'f placed multiset"
where
  "located H S X s =
     image_mset (Pair In_ready) (ready_mset s) + image_mset (Pair In_heap) (mset (tm_heap s)) +
     image_mset (Pair In_snapshot) (mset H) + image_mset (Pair Claimed) (mset S) +
     image_mset (Pair Running) (mset X)"

definition queues_ok :: "('f, 'z) TM_scheme \<Rightarrow> bool" where
  "queues_ok s \<longleftrightarrow> (\<forall>q. \<forall>e \<in> set (tm_ready s q). q = priority_index (e_priority e))"

definition tm_inv ::
  "'f Entry list \<Rightarrow> 'f Entry list \<Rightarrow> 'f Entry list \<Rightarrow> ('f, 'z) TM_scheme \<Rightarrow> bool"
where
  "tm_inv H S X s \<longleftrightarrow>
     placed_inv (located H S X s) s \<and> is_heap DelayedSooner (tm_heap s) \<and> queues_ok s"

lemma tm_invD:
  assumes "tm_inv H S X s"
  shows "placed_inv (located H S X s) s" "is_heap DelayedSooner (tm_heap s)" "queues_ok s"
  using assms by (simp_all add: tm_inv_def)

lemma tm_inv_perm:
  "mset H = mset H' \<Longrightarrow> mset S = mset S' \<Longrightarrow> mset X = mset X' \<Longrightarrow> tm_inv H S X s = tm_inv H' S' X' s"
  by (simp add: tm_inv_def located_def)

lemma placed_inv_init: "placed_inv {#} (TaskManager_init n)"
  by (simp add: placed_inv_def TaskManager_init_def listed_def)

lemma tm_inv_init: "tm_inv [] [] [] (TaskManager_init n)"
  using placed_inv_init [of n]
  by (simp add: tm_inv_def located_def ready_mset_def queues_ok_def is_heap_def TaskManager_init_def)

text \<open>The definitions of the elementary state updates, for unfolding.\<close>

lemmas tm_update_defs =
  increment_ready_count_def decrement_ready_count_def increment_pending_count_def
  decrement_pending_count_def set_control_def set_state_def clear_reschedule_def index_erase_def
  push_back_ready_def push_front_ready_def push_delayed_def make_control_def next_id_def
  next_seq_def Let_def

text \<open>What the elementary updates leave alone.\<close>

lemma notify_fields [simp]:
  "tm_ready (notify_work_available s) = tm_ready s"
  "tm_heap (notify_work_available s) = tm_heap s"
  "tm_index (notify_work_available s) = tm_index s"
  "tm_ready_count (notify_work_available s) = tm_ready_count s"
  "tm_pending_count (notify_work_available s) = tm_pending_count s"
  "tm_next_id (notify_work_available s) = tm_next_id s"
  "tm_next_seq (notify_work_available s) = tm_next_seq s"
  "tm_closed (notify_work_available s) = tm_closed s"
  "tm_notifier (notify_work_available s) = tm_notifier s"
  "tm_handler (notify_work_available s) = tm_handler s"
  "tm_controls (notify_work_available s) = tm_controls s"
  "tm_next_control (notify_work_available s) = tm_next_control s"
  by (simp_all add: notify_work_available_def split: option.splits)

lemma priority_index_less [simp]: "priority_index p < 3"
  by (cases p) simp_all

lemma priority_index_cases: "priority_index p = 0 \<or> priority_index p = 1 \<or> priority_index p = 2"
  by (cases p) simp_all

section \<open>Where the queue updates put entries\<close>

lemma ready_mset_push_back: "ready_mset (push_back_ready e s) = add_mset e (ready_mset s)"
  using priority_index_cases [of "e_priority e"]
  by (auto simp: ready_mset_def push_back_ready_def Let_def)

lemma ready_mset_push_front: "ready_mset (push_front_ready e s) = add_mset e (ready_mset s)"
  using priority_index_cases [of "e_priority e"]
  by (auto simp: ready_mset_def push_front_ready_def Let_def)

lemma queues_ok_push_back: "queues_ok s \<Longrightarrow> queues_ok (push_back_ready e s)"
  by (auto simp: queues_ok_def push_back_ready_def Let_def)

lemma queues_ok_push_front: "queues_ok s \<Longrightarrow> queues_ok (push_front_ready e s)"
  by (auto simp: queues_ok_def push_front_ready_def Let_def)

text \<open>\<open>same_queues\<close>: two states with the same containers.\<close>

definition same_queues :: "('f, 'z) TM_scheme \<Rightarrow> ('f, 'z) TM_scheme \<Rightarrow> bool" where
  "same_queues s s' \<longleftrightarrow> tm_ready s' = tm_ready s \<and> tm_heap s' = tm_heap s"

lemma located_same_queues: "same_queues s s' \<Longrightarrow> located H S X s' = located H S X s"
  by (simp add: same_queues_def located_def ready_mset_def)

lemma tm_inv_same_queues:
  "tm_inv H S X s \<Longrightarrow> same_queues s s' \<Longrightarrow> placed_inv (located H S X s) s' \<Longrightarrow> tm_inv H S X s'"
  using located_same_queues [of s s' H S X]
  by (simp add: tm_inv_def same_queues_def queues_ok_def)

text \<open>A state that differs in fields the invariant does not read.\<close>

lemma placed_inv_frame:
  assumes "placed_inv M s"
    and "tm_index s' = tm_index s" "tm_ready_count s' = tm_ready_count s"
      "tm_pending_count s' = tm_pending_count s" "tm_next_id s' = tm_next_id s"
      "tm_next_control s' = tm_next_control s"
    and ctl: "\<And>r. ctl_id (tm_controls s' r) = ctl_id (tm_controls s r)"
      "\<And>r. ctl_periodic (tm_controls s' r) = ctl_periodic (tm_controls s r)"
      "\<And>r. ctl_state (tm_controls s' r) = ctl_state (tm_controls s r)"
  shows "placed_inv M s'"
proof -
  have st: "entry_state s' = entry_state s" by (simp add: entry_state_def ctl fun_eq_iff)
  have "placed_ready s' = placed_ready s" "placed_pending s' = placed_pending s"
    by (simp_all add: placed_ready_def placed_pending_def st fun_eq_iff)
  moreover have "entry_ok s' = entry_ok s" "listed M s' = listed M s"
    "live_block s' = live_block s"
    using assms(2-) by (simp_all add: entry_ok_def listed_def live_block_def st ctl fun_eq_iff)
  ultimately show ?thesis using assms by (simp add: placed_inv_def)
qed

lemma tm_inv_frame:
  assumes "tm_inv H S X s" "same_queues s s'"
    and "tm_index s' = tm_index s" "tm_ready_count s' = tm_ready_count s"
      "tm_pending_count s' = tm_pending_count s" "tm_next_id s' = tm_next_id s"
      "tm_next_control s' = tm_next_control s"
      "\<And>r. ctl_id (tm_controls s' r) = ctl_id (tm_controls s r)"
      "\<And>r. ctl_periodic (tm_controls s' r) = ctl_periodic (tm_controls s r)"
      "\<And>r. ctl_state (tm_controls s' r) = ctl_state (tm_controls s r)"
  shows "tm_inv H S X s'"
  using assms(1,2) placed_inv_frame [OF tm_invD(1) [OF assms(1)] assms(3-)]
  by (rule tm_inv_same_queues)

section \<open>Configuration and lifecycle\<close>

lemma tm_inv_notify: "tm_inv H S X s \<Longrightarrow> tm_inv H S X (notify_work_available s)"
  by (erule tm_inv_frame) (simp_all add: same_queues_def)

lemma tm_inv_set_notifier: "tm_inv H S X s \<Longrightarrow> tm_inv H S X (set_notifier n s)"
  by (erule tm_inv_frame) (simp_all add: same_queues_def set_notifier_def)

lemma tm_inv_reset_notifier: "tm_inv H S X s \<Longrightarrow> tm_inv H S X (reset_notifier s)"
  by (erule tm_inv_frame) (simp_all add: same_queues_def reset_notifier_def)

lemma tm_inv_set_exception_handler: "tm_inv H S X s \<Longrightarrow> tm_inv H S X (set_exception_handler h s)"
  by (erule tm_inv_frame) (simp_all add: same_queues_def set_exception_handler_def)

lemma tm_inv_close: "tm_inv H S X s \<Longrightarrow> tm_inv H S X (close s)"
  by (erule tm_inv_frame) (simp_all add: same_queues_def close_def Let_def)

lemma tm_inv_clear_reschedule: "tm_inv H S X s \<Longrightarrow> tm_inv H S X (clear_reschedule r s)"
  by (erule tm_inv_frame) (simp_all add: same_queues_def clear_reschedule_def set_control_def)

lemma tm_inv_reschedule:
  "tm_inv H S X s \<Longrightarrow> tm_inv H S X (snd (reschedule_from_context i due s))"
  by (erule tm_inv_frame)
    (auto simp: same_queues_def reschedule_from_context_def set_control_def split: option.splits)

section \<open>Submission\<close>

lemma fresh_unindexed:
  assumes "placed_inv M s" "tm_next_id s \<noteq> 0"
  shows "tm_index s (tm_next_id s) = None"
proof (cases "tm_index s (tm_next_id s)")
  case (Some r)
  then obtain x where "x \<in># M" "e_id (snd x) = tm_next_id s"
    using placed_inv_listed [OF assms(1)] unfolding listed_def by blast
  then show ?thesis
    using placed_inv_entry [OF assms(1), of x] assms(2) by (auto simp: entry_ok_def)
qed simp

text \<open>What an accepted submission yields, for each kind of entry.\<close>

lemma enqueue_ready_locked_eq:
  assumes "tm_inv H S X s" "tm_next_id s \<noteq> 0"
  shows "fst (enqueue_ready_locked t opt s) = tm_next_id s"
  using assms(2)
  by (simp add: enqueue_ready_locked_def next_id_def task_ids.gen_nonzero next_seq_def make_control_def
      Let_def)

lemma tm_inv_insert_ready:
  assumes inv: "tm_inv H S X s" and nz: "tm_next_id s \<noteq> 0"
    and new: "e_control e = tm_next_control s" "e_id e = tm_next_id s" "Task_bool (e_task e)"
    and s': "tm_controls s' = (tm_controls s)(e_control e := c)"
      "ctl_id c = e_id e" "ctl_periodic c = e_periodic e" "ctl_state c = queued_ready"
      "tm_index s' = (tm_index s)(e_id e \<mapsto> e_control e)"
      "tm_next_control s' = Suc (tm_next_control s)" "tm_next_id s' = tm_next_id s + 1"
      "tm_ready_count s' = tm_ready_count s + 1" "tm_pending_count s' = tm_pending_count s + 1"
      "tm_ready s' = tm_ready (push_back_ready e s)" "tm_heap s' = tm_heap s"
  shows "tm_inv H S X s'"
proof -
  have "placed_inv (add_mset (In_ready, e) (located H S X s)) s'"
    by (rule placed_inv_insert [OF tm_invD(1) [OF inv] nz new s'(1-3) _ _ s'(5,6,7) _ s'(9)])
      (simp_all add: s' ready_weight_def)
  moreover have "located H S X s' = add_mset (In_ready, e) (located H S X s)"
    using ready_mset_push_back [of e s] s' by (simp add: located_def ready_mset_def)
  moreover have "queues_ok s'"
    using queues_ok_push_back [OF tm_invD(3) [OF inv], of e] s' by (simp add: queues_ok_def)
  ultimately show ?thesis using tm_invD(2) [OF inv] s' by (simp add: tm_inv_def)
qed

lemma tm_inv_insert_heap:
  assumes inv: "tm_inv H S X s" and nz: "tm_next_id s \<noteq> 0"
    and new: "e_control e = tm_next_control s" "e_id e = tm_next_id s" "Task_bool (e_task e)"
    and s': "tm_controls s' = (tm_controls s)(e_control e := c)"
      "ctl_id c = e_id e" "ctl_periodic c = e_periodic e" "ctl_state c = queued_delayed"
      "tm_index s' = (tm_index s)(e_id e \<mapsto> e_control e)"
      "tm_next_control s' = Suc (tm_next_control s)" "tm_next_id s' = tm_next_id s + 1"
      "tm_ready_count s' = tm_ready_count s" "tm_pending_count s' = tm_pending_count s + 1"
      "tm_ready s' = tm_ready s" "tm_heap s' = tm_heap (push_delayed e s)"
  shows "tm_inv H S X s'"
proof -
  have "placed_inv (add_mset (In_heap, e) (located H S X s)) s'"
    by (rule placed_inv_insert [OF tm_invD(1) [OF inv] nz new s'(1-3) _ _ s'(5,6,7) _ s'(9)])
      (simp_all add: s' ready_weight_def)
  moreover have "located H S X s' = add_mset (In_heap, e) (located H S X s)"
    using s' by (simp add: located_def ready_mset_def push_delayed_def delayed.mset_push)
  moreover have "is_heap DelayedSooner (tm_heap s')"
    using delayed.ok_push [OF tm_invD(2) [OF inv]] s' by (simp add: push_delayed_def)
  ultimately show ?thesis using tm_invD(3) [OF inv] s' by (simp add: tm_inv_def queues_ok_def)
qed

lemma tm_inv_enqueue_ready_locked:
  assumes inv: "tm_inv H S X s" and nz: "tm_next_id s \<noteq> 0" and t: "Task_bool t"
  shows "tm_inv H S X (snd (enqueue_ready_locked t opt s))"
proof -
  define e where "e = \<lparr> e_id = tm_next_id s, e_seq = tm_next_seq s, e_priority = opt_priority opt,
      e_due = 0, e_periodic = False, e_interval = 0, e_schedule = fixed_delay, e_planned_due = 0,
      e_control = tm_next_control s, e_task = t \<rparr>"
  note fresh = fresh_unindexed [OF tm_invD(1) [OF inv] nz]
  show ?thesis
    by (rule tm_inv_insert_ready [OF inv nz, of e, where c =
          "\<lparr> ctl_id = tm_next_id s, ctl_periodic = False, reschedule_requested = False,
             reschedule_due = 0, ctl_state = queued_ready \<rparr>"])
      (simp_all add: e_def t enqueue_ready_locked_def tm_update_defs task_ids.gen_nonzero [OF nz]
        index_emplace_def fresh)
qed

lemma tm_inv_enqueue_delayed_locked:
  assumes inv: "tm_inv H S X s" and nz: "tm_next_id s \<noteq> 0" and t: "Task_bool t"
  shows "tm_inv H S X (snd (enqueue_delayed_locked due t opt s))"
proof -
  define e where "e = \<lparr> e_id = tm_next_id s, e_seq = tm_next_seq s, e_priority = opt_priority opt,
      e_due = due, e_periodic = False, e_interval = 0, e_schedule = fixed_delay, e_planned_due = 0,
      e_control = tm_next_control s, e_task = t \<rparr>"
  note fresh = fresh_unindexed [OF tm_invD(1) [OF inv] nz]
  show ?thesis
    by (rule tm_inv_insert_heap [OF inv nz, of e, where c =
          "\<lparr> ctl_id = tm_next_id s, ctl_periodic = False, reschedule_requested = False,
             reschedule_due = 0, ctl_state = queued_delayed \<rparr>"])
      (simp_all add: e_def t enqueue_delayed_locked_def tm_update_defs task_ids.gen_nonzero [OF nz]
        index_emplace_def fresh)
qed

lemma tm_inv_enqueue_periodic_locked:
  assumes inv: "tm_inv H S X s" and nz: "tm_next_id s \<noteq> 0" and t: "Task_bool t"
  shows "tm_inv H S X (snd (enqueue_periodic_locked now due interval t opt s))"
proof -
  define e where "e = \<lparr> e_id = tm_next_id s, e_seq = tm_next_seq s, e_priority = popt_priority opt,
      e_due = due, e_periodic = True, e_interval = interval, e_schedule = popt_schedule opt,
      e_planned_due = due, e_control = tm_next_control s, e_task = t \<rparr>"
  note fresh = fresh_unindexed [OF tm_invD(1) [OF inv] nz]
  note defs = e_def t enqueue_periodic_locked_def tm_update_defs task_ids.gen_nonzero [OF nz]
        index_emplace_def fresh
  show ?thesis
  proof (cases "due \<le> now")
    case True
    show ?thesis
      by (rule tm_inv_insert_ready [OF inv nz, of e, where c =
            "\<lparr> ctl_id = tm_next_id s, ctl_periodic = True, reschedule_requested = False,
               reschedule_due = 0, ctl_state = queued_ready \<rparr>"])
        (simp_all add: defs True)
  next
    case False
    show ?thesis
      by (rule tm_inv_insert_heap [OF inv nz, of e, where c =
            "\<lparr> ctl_id = tm_next_id s, ctl_periodic = True, reschedule_requested = False,
               reschedule_due = 0, ctl_state = queued_delayed \<rparr>"])
        (simp_all add: defs False)
  qed
qed

text \<open>The public submissions. A rejected one leaves the manager as it was.\<close>

lemma tm_inv_notify_if_accepted:
  "tm_inv H S X (snd p) \<Longrightarrow> tm_inv H S X (snd (notify_if_accepted p))"
  by (cases p) (simp add: notify_if_accepted_def tm_inv_notify)

lemma tm_inv_post: "tm_inv H S X s \<Longrightarrow> tm_next_id s \<noteq> 0 \<Longrightarrow> tm_inv H S X (snd (post t opt s))"
  by (simp add: post_def enqueue_ready_def tm_inv_notify_if_accepted tm_inv_enqueue_ready_locked)

lemma tm_inv_post_at:
  "tm_inv H S X s \<Longrightarrow> tm_next_id s \<noteq> 0 \<Longrightarrow> tm_inv H S X (snd (post_at now due t opt s))"
  by (simp add: post_at_def tm_inv_notify_if_accepted tm_inv_enqueue_ready_locked
      tm_inv_enqueue_delayed_locked)

lemma tm_inv_post_every_after:
  "tm_inv H S X s \<Longrightarrow> tm_next_id s \<noteq> 0 \<Longrightarrow>
     tm_inv H S X (snd (post_every_after now1 now2 delay interval t opt s))"
  by (simp add: post_every_after_def Let_def tm_inv_notify_if_accepted
      tm_inv_enqueue_periodic_locked)

text \<open>Room for \<open>k\<close> more identifiers before the 64-bit counter wraps.\<close>

definition id_headroom :: "nat \<Rightarrow> ('f, 'z) TM_scheme \<Rightarrow> bool" where
  "id_headroom k s \<longleftrightarrow> tm_next_id s \<noteq> 0 \<and> unat (tm_next_id s) + k \<le> 2 ^ 64"

lemma tm_next_id_enqueue_ready_locked:
  "tm_next_id s \<noteq> 0 \<Longrightarrow> tm_next_id (snd (enqueue_ready_locked t opt s)) = tm_next_id s + 1"
  by (simp add: enqueue_ready_locked_def tm_update_defs task_ids.gen_nonzero index_emplace_def
      split: option.splits)

lemma id_headroom_Suc:
  assumes "id_headroom (Suc k) s" "0 < k" "tm_next_id s' = tm_next_id s + 1"
  shows "id_headroom k s'"
proof -
  have "unat (tm_next_id s) + 1 < 2 ^ 64" using assms(1,2) by (simp add: id_headroom_def)
  then have u: "unat (tm_next_id s + 1) = unat (tm_next_id s) + 1"
    by (simp add: unat_word_ariths)
  then have "tm_next_id s + 1 \<noteq> 0" by (metis add_eq_0_iff_both_eq_0 one_neq_zero unat_0)
  with u assms show ?thesis by (simp add: id_headroom_def)
qed

lemma tm_inv_post_batch_loop:
  "tm_inv H S X s \<Longrightarrow> ts \<noteq> [] \<Longrightarrow> id_headroom (length ts) s \<Longrightarrow>
     tm_inv H S X (snd (snd (post_batch_loop ts opt s)))"
proof (induction ts arbitrary: s)
  case (Cons t ts)
  have nz: "tm_next_id s \<noteq> 0" using Cons.prems(3) by (simp add: id_headroom_def)
  show ?case
  proof (cases "ts = []")
    case True
    then show ?thesis
      using Cons.prems nz by (simp add: tm_inv_enqueue_ready_locked split: prod.splits)
        (metis snd_conv tm_inv_enqueue_ready_locked)
  next
    case False
    have room: "id_headroom (length ts) (snd (enqueue_ready_locked t opt s))"
      using Cons.prems(3) False
      by (intro id_headroom_Suc [of "length ts" s]) (simp_all add: tm_next_id_enqueue_ready_locked nz)
    have "id_headroom (length ts) s" using Cons.prems(3) by (simp add: id_headroom_def)
    then show ?thesis
      using Cons.IH [OF Cons.prems(1) False] Cons.IH [OF _ False room]
        tm_inv_enqueue_ready_locked [OF Cons.prems(1) nz, of t opt]
      by (auto split: prod.splits)
  qed
qed simp

lemma tm_inv_post_batch:
  "tm_inv H S X s \<Longrightarrow> id_headroom (length ts) s \<Longrightarrow> tm_inv H S X (snd (post_batch ts opt s))"
  using tm_inv_post_batch_loop [of H S X s ts opt]
  by (cases "ts = []") (auto simp: post_batch_def tm_inv_notify split: prod.splits)

section \<open>Cancellation\<close>

text \<open>
  A cancellation with a possibly stale observation \<open>v\<close> of the state: when the observation no longer
  holds the compare-exchange fails and nothing changes.
\<close>

lemma tm_inv_cancel_in_place:
  assumes inv: "tm_inv H S X s" and r: "tm_index s i = Some r"
    and live: "ctl_state (tm_controls s r) = v" "v \<noteq> cancelled"
    and s': "tm_controls s' = (tm_controls s)(r := c)"
      "ctl_id c = ctl_id (tm_controls s r)" "ctl_periodic c = ctl_periodic (tm_controls s r)"
      "ctl_state c = cancelled"
      "tm_index s' = (if v = executing then tm_index s else (tm_index s)(i := None))"
      "tm_next_control s' = tm_next_control s" "tm_next_id s' = tm_next_id s"
      "tm_ready_count s' = tm_ready_count s - (if v = queued_ready then 1 else 0)"
      "tm_pending_count s' = tm_pending_count s -
         (if v = executing \<and> \<not> ctl_periodic (tm_controls s r) then 0 else 1)"
    and q: "same_queues s s'"
  shows "tm_inv H S X s'"
proof -
  obtain p e B where M: "located H S X s = add_mset (p, e) B" and e: "e_id e = i" "e_control e = r"
      "visible p (entry_state s e)" "i \<noteq> 0" "allowed p (entry_state s e)"
      "ctl_state (tm_controls s r) = entry_state s e"
      "ctl_periodic (tm_controls s r) = e_periodic e" "ctl_id (tm_controls s r) = i"
    by (rule placed_inv_find [OF tm_invD(1) [OF inv] r])
  have inv': "placed_inv (add_mset (p, e) B) s" using tm_invD(1) [OF inv] M by simp
  have st: "entry_state s e = v" "v = live_state p" using e live by (auto simp: allowed_def)
  have "tm_index s' = (tm_index s)(e_id e := if visible p cancelled then Some (e_control e) else None)"
    using s'(5) placed_inv_index [OF inv'] st e by (cases p) (auto simp: visible_def fun_upd_idem)
  then have "placed_inv (add_mset (p, e) B) s'"
    by (intro placed_inv_replace [OF inv', of s' c e p])
      (use s' e(1,2,7,8) st live(2) in \<open>cases p; simp add: weight_defs\<close>)+
  with inv q M show ?thesis by (metis tm_inv_same_queues)
qed

lemma transition_eq:
  "transition r v w s = (ctl_state (tm_controls s r) = v,
     if ctl_state (tm_controls s r) = v then set_state r w s else s)"
  by (simp add: transition_def)

lemma cancel_loaded_stale:
  "ctl_state (tm_controls s r) \<noteq> v \<Longrightarrow> cancel_loaded i r v s = (False, s)"
  by (cases v) (simp_all add: cancel_loaded_def transition_eq)

text \<open>What a cancellation does, on every branch.\<close>

lemma cancel_loaded_eq:
  "cancel_loaded i r v s =
     (if ctl_state (tm_controls s r) \<noteq> v \<or> v = cancelled \<or> v = completed \<or>
         v = executing \<and> \<not> ctl_periodic (tm_controls s r) then (False, s)
      else (True,
        s\<lparr>tm_controls := (tm_controls s)(r := (tm_controls s r)
             \<lparr>ctl_state := cancelled,
              reschedule_requested :=
                (if v = executing then False else reschedule_requested (tm_controls s r))\<rparr>),
          tm_index := (if v = executing then tm_index s else (tm_index s)(i := None)),
          tm_ready_count := tm_ready_count s - (if v = queued_ready then 1 else 0),
          tm_pending_count := tm_pending_count s - 1\<rparr>))"
  by (cases v) (simp_all add: cancel_loaded_def transition_eq tm_update_defs)

lemma tm_inv_cancel_loaded:
  assumes inv: "tm_inv H S X s" and r: "tm_index s i = Some r"
  shows "tm_inv H S X (snd (cancel_loaded i r v s))"
proof (cases "fst (cancel_loaded i r v s)")
  case True
  then have v: "ctl_state (tm_controls s r) = v" "v \<noteq> cancelled"
      "\<not> (v = executing \<and> \<not> ctl_periodic (tm_controls s r))"
    by (auto simp: cancel_loaded_eq split: if_splits)
  show ?thesis
    by (rule tm_inv_cancel_in_place [OF inv r v(1,2), where c = "(tm_controls s r)
          \<lparr>ctl_state := cancelled, reschedule_requested :=
             (if v = executing then False else reschedule_requested (tm_controls s r))\<rparr>"])
      (use True v in \<open>auto simp: cancel_loaded_eq same_queues_def split: if_splits\<close>)
qed (use inv in \<open>auto simp: cancel_loaded_eq split: if_splits\<close>)

lemma tm_inv_cancel: "tm_inv H S X s \<Longrightarrow> tm_inv H S X (snd (cancel i s))"
  by (simp add: cancel_def tm_inv_cancel_loaded split: option.splits)

lemma cancel_from_context_eq:
  "cancel_from_context i s =
     (case tm_index s i of
        None \<Rightarrow> (False, s)
      | Some r \<Rightarrow>
          if i = 0 \<or> ctl_state (tm_controls s r) \<noteq> executing then (False, s)
          else (True,
            s\<lparr>tm_controls := (tm_controls s)(r := (tm_controls s r)
                 \<lparr>ctl_state := cancelled, reschedule_requested := False\<rparr>),
              tm_pending_count :=
                tm_pending_count s - (if ctl_periodic (tm_controls s r) then 1 else 0)\<rparr>))"
  by (simp add: cancel_from_context_def transition_eq tm_update_defs split: option.splits)

lemma tm_inv_cancel_from_context:
  assumes inv: "tm_inv H S X s"
  shows "tm_inv H S X (snd (cancel_from_context i s))"
proof (cases "fst (cancel_from_context i s)")
  case True
  then obtain r where r: "tm_index s i = Some r" "i \<noteq> 0"
      and v: "ctl_state (tm_controls s r) = executing"
    by (auto simp: cancel_from_context_eq split: option.splits if_splits)
  show ?thesis
    by (rule tm_inv_cancel_in_place [OF inv r(1) v, where c = "(tm_controls s r)
          \<lparr>ctl_state := cancelled, reschedule_requested := False\<rparr>"])
      (use r v in \<open>auto simp: cancel_from_context_eq same_queues_def split: if_splits\<close>)
qed (use inv in \<open>auto simp: cancel_from_context_eq split: option.splits if_splits\<close>)

text \<open>The preservation lemmas so far, as one rule set.\<close>

lemmas tm_inv_intros =
  tm_inv_notify tm_inv_set_notifier tm_inv_reset_notifier tm_inv_set_exception_handler
  tm_inv_close tm_inv_clear_reschedule tm_inv_reschedule tm_inv_post tm_inv_post_at
  tm_inv_post_every_after tm_inv_post_batch tm_inv_cancel_loaded tm_inv_cancel
  tm_inv_cancel_from_context

end
