(* ===== verification/Task_Inv_Process.thy ===== *)
theory Task_Inv_Process
  imports Task_Inv_Ops
begin

text \<open>
  Preservation of the manager's invariant by the consumer side: pruning, promotion, the
  snapshot, the execution loop around arbitrary user code, and the bulk removal.
\<close>

section \<open>Removing a cancelled entry\<close>

lemma placed_inv_drop_cancelled:
  assumes inv: "placed_inv (add_mset (p, e) B) s" and c: "entry_state s e = cancelled"
    and p: "p = In_ready \<or> p = In_heap \<or> p = In_snapshot"
  shows "placed_inv B s"
proof (rule placed_inv_remove [OF inv, where c = "tm_controls s (e_control e)"])
  show "tm_index s = (tm_index s)(e_id e := None)"
    using placed_inv_index [OF inv] c p by (auto simp: visible_def fun_upd_idem)
qed (use c p in \<open>auto simp: weight_defs entry_state_def\<close>)

text \<open>A state change, with or without a move, of an entry that stays in the index.\<close>

lemma placed_inv_move:
  assumes inv: "placed_inv (add_mset (p, e) B) s"
    and ctl: "tm_controls s' = (tm_controls s)(e_control e := c)"
    and c: "ctl_id c = ctl_id (tm_controls s (e_control e))"
      "ctl_periodic c = ctl_periodic (tm_controls s (e_control e))"
    and e': "e_control e' = e_control e" "e_id e' = e_id e" "e_periodic e' = e_periodic e"
      "e_task e' = e_task e"
    and vis: "visible p (entry_state s e)" "visible p' (ctl_state c)" "allowed p' (ctl_state c)"
    and same: "tm_index s' = tm_index s" "tm_next_control s' = tm_next_control s"
      "tm_next_id s' = tm_next_id s"
    and rc: "tm_ready_count s' + ready_weight p (entry_state s e) =
             tm_ready_count s + ready_weight p' (ctl_state c)"
    and pc: "tm_pending_count s' + pending_weight p (e_periodic e) (entry_state s e) =
             tm_pending_count s + pending_weight p' (e_periodic e) (ctl_state c)"
  shows "placed_inv (add_mset (p', e') B) s'"
proof -
  have ok: "entry_ok s (p, e)" using placed_inv_entry [OF inv] by simp
  have "tm_index s' = (tm_index s)(e_id e := if visible p' (ctl_state c) then Some (e_control e) else None)"
    using placed_inv_index [OF inv] vis same by (simp add: fun_upd_idem)
  then show ?thesis
    by (intro placed_inv_replace [OF inv ctl _ _ e' vis(3) _ same(2,3) rc pc])
      (use c ok in \<open>simp_all add: entry_ok_def\<close>)
qed

lemma set_state_fields [simp]:
  "tm_controls (set_state r v s) = (tm_controls s)(r := (tm_controls s r)\<lparr>ctl_state := v\<rparr>)"
  "tm_index (set_state r v s) = tm_index s"
  "tm_ready (set_state r v s) = tm_ready s"
  "tm_ready_count (set_state r v s) = tm_ready_count s"
  "tm_pending_count (set_state r v s) = tm_pending_count s"
  "tm_next_control (set_state r v s) = tm_next_control s"
  "tm_next_id (set_state r v s) = tm_next_id s"
  "tm_closed (set_state r v s) = tm_closed s"
  "tm_handler (set_state r v s) = tm_handler s"
  "tm_next_seq (set_state r v s) = tm_next_seq s"
  by (simp_all add: set_state_def set_control_def)

lemma counter_fields [simp]:
  "tm_controls (increment_ready_count s) = tm_controls s"
  "tm_controls (decrement_ready_count s) = tm_controls s"
  "tm_controls (increment_pending_count s) = tm_controls s"
  "tm_controls (decrement_pending_count s) = tm_controls s"
  "tm_ready (increment_ready_count s) = tm_ready s"
  "tm_ready (decrement_ready_count s) = tm_ready s"
  "tm_ready (increment_pending_count s) = tm_ready s"
  "tm_ready (decrement_pending_count s) = tm_ready s"
  "tm_heap (decrement_ready_count s) = tm_heap s"
  "tm_heap (increment_pending_count s) = tm_heap s"
  "tm_heap (decrement_pending_count s) = tm_heap s"
  by (simp_all add: increment_ready_count_def decrement_ready_count_def
      increment_pending_count_def decrement_pending_count_def)

lemma push_fields [simp]:
  "tm_controls (push_back_ready e s) = tm_controls s"
  "tm_controls (push_front_ready e s) = tm_controls s"
  "tm_index (push_back_ready e s) = tm_index s"
  "tm_index (push_front_ready e s) = tm_index s"
  "tm_heap (push_front_ready e s) = tm_heap s"
  "tm_ready_count (push_back_ready e s) = tm_ready_count s"
  "tm_ready_count (push_front_ready e s) = tm_ready_count s"
  "tm_pending_count (push_back_ready e s) = tm_pending_count s"
  "tm_pending_count (push_front_ready e s) = tm_pending_count s"
  "tm_next_control (push_back_ready e s) = tm_next_control s"
  "tm_next_control (push_front_ready e s) = tm_next_control s"
  "tm_next_id (push_back_ready e s) = tm_next_id s"
  "tm_next_id (push_front_ready e s) = tm_next_id s"
  by (simp_all add: push_back_ready_def push_front_ready_def Let_def)

section \<open>Pruning\<close>

definition in_place :: "Place \<Rightarrow> 'f Entry list \<Rightarrow> 'f placed multiset" where
  "in_place p es = image_mset (Pair p) (mset es)"

lemma in_place_simps [simp]:
  "in_place p [] = {#}"
  "in_place p (e # es) = add_mset (p, e) (in_place p es)"
  "in_place p (es @ fs) = in_place p es + in_place p fs"
  by (simp_all add: in_place_def)

lemma located_in_place:
  "located H S X s =
     in_place In_ready (tm_ready s 0 @ tm_ready s 1 @ tm_ready s 2) + in_place In_heap (tm_heap s) +
     in_place In_snapshot H + in_place Claimed S + in_place Running X"
  by (simp add: located_def in_place_def ready_mset_def)

lemma in_place_pop:
  "h \<noteq> [] \<Longrightarrow> in_place p h = add_mset (p, h ! 0) (in_place p (butlast (pop_heap DelayedSooner h)))"
  using delayed.mset_pop [of h] unfolding in_place_def by (metis image_mset_add_mset)

lemma prune_heap_inv:
  "placed_inv (in_place In_heap h + M) s \<Longrightarrow> is_heap DelayedSooner h \<Longrightarrow> c = tm_controls s \<Longrightarrow>
     placed_inv (in_place In_heap (prune_heap c h) + M) s \<and> is_heap DelayedSooner (prune_heap c h)"
proof (induction c h rule: prune_heap.induct)
  case (1 c h)
  show ?case
  proof (cases "h = [] \<or> ctl_state (c (e_control (h ! 0))) \<notin> {cancelled, completed}")
    case True
    then have "prune_heap c h = h" by (auto simp: prune_heap.simps [of c h])
    then show ?thesis using "1.prems" by simp
  next
    case False
    let ?t = "butlast (pop_heap DelayedSooner h)"
    have inv: "placed_inv (add_mset (In_heap, h ! 0) (in_place In_heap ?t + M)) s"
      using "1.prems"(1) False by (simp add: in_place_pop)
    have "entry_ok s (In_heap, h ! 0)" using placed_inv_entry [OF inv] by simp
    then have "entry_state s (h ! 0) = cancelled"
      using False "1.prems"(3) by (auto simp: entry_ok_def allowed_def entry_state_def)
    then have "placed_inv (in_place In_heap ?t + M) s"
      using placed_inv_drop_cancelled [OF inv] by simp
    moreover have "prune_heap c h = prune_heap c ?t"
      using False by (auto simp: prune_heap.simps [of c h])
    ultimately show ?thesis
      using "1.IH" False "1.prems"(2,3) delayed.ok_pop [of h] by simp
  qed
qed

text \<open>
  The rest of the manager's entries: \<open>outside\<close> the heap, respectively outside queue \<open>i\<close>.
\<close>

lemma tm_inv_heap_cases:
  "tm_inv H S X s \<longleftrightarrow>
     placed_inv (in_place In_heap (tm_heap s) + (located H S X (s\<lparr>tm_heap := []\<rparr>))) s \<and>
     is_heap DelayedSooner (tm_heap s) \<and> queues_ok s"
  by (simp add: tm_inv_def located_in_place ac_simps)

lemma placed_inv_upd_queues [simp]:
  "placed_inv M (s\<lparr>tm_heap := h\<rparr>) = placed_inv M s"
  "placed_inv M (s\<lparr>tm_ready := q\<rparr>) = placed_inv M s"
proof -
  have "entry_state (s\<lparr>tm_heap := h\<rparr>) = entry_state s" "entry_state (s\<lparr>tm_ready := q\<rparr>) = entry_state s"
    by (simp_all add: entry_state_def fun_eq_iff)
  then show "placed_inv M (s\<lparr>tm_heap := h\<rparr>) = placed_inv M s"
    "placed_inv M (s\<lparr>tm_ready := q\<rparr>) = placed_inv M s"
    by (simp_all add: placed_inv_def entry_ok_def listed_def live_block_def placed_ready_def
        placed_pending_def)
qed

lemma located_heap_upd [simp]:
  "located H S X (s\<lparr>tm_heap := h, tm_heap := h'\<rparr>) = located H S X (s\<lparr>tm_heap := h'\<rparr>)"
  by simp

lemma tm_inv_prune:
  assumes inv: "tm_inv H S X s"
  shows "tm_inv H S X (prune_delayed_top_locked s)"
proof -
  note cases = inv [unfolded tm_inv_heap_cases]
  show ?thesis
    using prune_heap_inv [OF conjunct1 [OF cases] conjunct1 [OF conjunct2 [OF cases]] refl]
      conjunct2 [OF conjunct2 [OF cases]]
    unfolding tm_inv_heap_cases
    by (simp add: prune_delayed_top_locked_def queues_ok_def)
qed

section \<open>Promotion\<close>

text \<open>An entry that enters a ready queue, at its end or at its front, or the heap.\<close>

lemma tm_inv_enter_ready:
  assumes "placed_inv (add_mset (In_ready, e) (located H S X s)) s'"
    and "tm_ready s' = tm_ready (push_back_ready e s) \<or> tm_ready s' = tm_ready (push_front_ready e s)"
    and "tm_heap s' = tm_heap s" "is_heap DelayedSooner (tm_heap s)" "queues_ok s"
  shows "tm_inv H S X s'"
proof -
  have "ready_mset s' = add_mset e (ready_mset s)"
    using assms(2) ready_mset_push_back [of e s] ready_mset_push_front [of e s]
    by (auto simp: ready_mset_def)
  then have "located H S X s' = add_mset (In_ready, e) (located H S X s)"
    using assms(3) by (simp add: located_def)
  moreover have "queues_ok s'"
    using assms(2) queues_ok_push_back [OF assms(5), of e] queues_ok_push_front [OF assms(5), of e]
    by (auto simp: queues_ok_def)
  ultimately show ?thesis using assms by (simp add: tm_inv_def)
qed

lemma tm_inv_enter_heap:
  assumes "placed_inv (add_mset (In_heap, e) (located H S X s)) s'"
    and "tm_ready s' = tm_ready s" "tm_heap s' = push_heap DelayedSooner (tm_heap s @ [e])"
    and "is_heap DelayedSooner (tm_heap s)" "queues_ok s"
  shows "tm_inv H S X s'"
proof -
  have "located H S X s' = add_mset (In_heap, e) (located H S X s)"
    using assms(2,3) by (simp add: located_def ready_mset_def delayed.mset_push)
  then show ?thesis
    using assms delayed.ok_push [OF assms(4)] by (simp add: tm_inv_def queues_ok_def)
qed

lemma entry_state_upd [simp]:
  "entry_state (s\<lparr>tm_heap := h\<rparr>) e = entry_state s e"
  "entry_state (s\<lparr>tm_ready := q\<rparr>) e = entry_state s e"
  by (simp_all add: entry_state_def)

lemma transition_entry:
  "transition (e_control e) v w s =
     (entry_state s e = v, if entry_state s e = v then set_state (e_control e) w s else s)"
  by (simp add: transition_eq entry_state_def)

lemma tm_inv_promote_front:
  assumes inv: "tm_inv H S X s" and ne: "tm_heap s \<noteq> []"
  shows "tm_inv H S X (promote_front s)"
proof -
  let ?h = "pop_heap DelayedSooner (tm_heap s)"
  define e where "e = tm_heap s ! 0"
  define s1 where "s1 = s\<lparr>tm_heap := butlast ?h\<rparr>"
  have inv1: "placed_inv (add_mset (In_heap, e) (located H S X s1)) s1"
    using tm_invD(1) [OF inv] in_place_pop [OF ne]
    by (simp add: located_in_place s1_def e_def)
  have heap: "is_heap DelayedSooner (tm_heap s1)"
    using delayed.ok_pop [OF tm_invD(2) [OF inv]] by (simp add: s1_def)
  have queues: "queues_ok s1" using tm_invD(3) [OF inv] by (simp add: queues_ok_def s1_def)
  define s2 where "s2 = (if entry_state s1 e = queued_delayed
      then increment_ready_count (push_back_ready e (set_state (e_control e) queued_ready s1))
      else s1)"
  have "tm_inv H S X s2"
  proof (cases "entry_state s1 e = queued_delayed")
    case True
    then have s2: "s2 = increment_ready_count (push_back_ready e (set_state (e_control e) queued_ready s1))"
      by (simp add: s2_def)
    have "placed_inv (add_mset (In_ready, e) (located H S X s1)) s2"
      unfolding s2
      by (rule placed_inv_move [OF inv1, where c =
            "(tm_controls s1 (e_control e))\<lparr>ctl_state := queued_ready\<rparr>"])
        (simp_all add: True weight_defs increment_ready_count_def)
    then show ?thesis
      by (rule tm_inv_enter_ready) (simp_all add: s2 push_back_ready_def Let_def heap queues)
  next
    case False
    have "entry_ok s1 (In_heap, e)" using placed_inv_entry [OF inv1] by simp
    then have "entry_state s1 e = cancelled" using False by (auto simp: entry_ok_def allowed_def)
    then have "placed_inv (located H S X s1) s1" by (rule placed_inv_drop_cancelled [OF inv1]) simp
    then show ?thesis using False heap queues by (simp add: s2_def tm_inv_def)
  qed
  moreover have "promote_front s = prune_delayed_top_locked s2"
    using delayed.last_pop [OF ne]
    by (simp add: promote_front_def s2_def s1_def e_def transition_entry Let_def)
  ultimately show ?thesis by (simp only: tm_inv_prune)
qed

lemma tm_inv_promote_loop: "tm_inv H S X s \<Longrightarrow> tm_inv H S X (promote_loop now s)"
proof (induction now s rule: promote_loop.induct)
  case (1 now s)
  then show ?case
    by (subst promote_loop.simps) (simp add: tm_inv_promote_front)
qed

lemma tm_inv_promote_due: "tm_inv H S X s \<Longrightarrow> tm_inv H S X (promote_due_locked now s)"
  by (simp add: promote_due_locked_def tm_inv_promote_loop tm_inv_prune)

section \<open>The snapshot\<close>

text \<open>Entries outside the containers, one at a time.\<close>

lemma located_Cons [simp]:
  "located (e # H) S X s = add_mset (In_snapshot, e) (located H S X s)"
  "located H (e # S) X s = add_mset (Claimed, e) (located H S X s)"
  "located H S (e # X) s = add_mset (Running, e) (located H S X s)"
  by (simp_all add: located_def)

lemma tm_inv_new_located:
  "placed_inv (located H S X s) s' \<Longrightarrow> same_queues s s' \<Longrightarrow> is_heap DelayedSooner (tm_heap s) \<Longrightarrow>
     queues_ok s \<Longrightarrow> tm_inv H S X s'"
  using located_same_queues [of s s' H S X] by (simp add: tm_inv_def same_queues_def queues_ok_def)

lemma same_queues_simps [simp]:
  "same_queues s s" "same_queues s (set_state r v s)" "same_queues s (clear_reschedule r s)"
  "same_queues s (index_erase i s)"
  "same_queues s (increment_pending_count s)" "same_queues s (decrement_pending_count s)"
  by (simp_all add: same_queues_def clear_reschedule_def set_control_def index_erase_def)

text \<open>A claimed or cancelled head of a queue.\<close>

lemma take_queue_inv:
  "placed_inv (in_place In_ready q + (in_place In_snapshot batch + M)) s \<Longrightarrow>
   take_queue n q batch s = (q', batch', s') \<Longrightarrow>
     placed_inv (in_place In_ready q' + (in_place In_snapshot batch' + M)) s' \<and>
     tm_ready s' = tm_ready s \<and> tm_heap s' = tm_heap s \<and> set q' \<subseteq> set q"
proof (induction n q batch s rule: take_queue.induct)
  case (2 n e q batch s)
  have inv: "placed_inv (add_mset (In_ready, e) (in_place In_ready q + (in_place In_snapshot batch + M))) s"
    using "2.prems"(1) by simp
  show ?case
  proof (cases "length batch = n")
    case False
    show ?thesis
    proof (cases "entry_state s e = queued_ready")
      case True
      have "placed_inv (add_mset (In_snapshot, e) (in_place In_ready q + (in_place In_snapshot batch + M)))
          (decrement_ready_count (set_state (e_control e) ready_snapshot s))"
        by (rule placed_inv_move [OF inv, where c =
              "(tm_controls s (e_control e))\<lparr>ctl_state := ready_snapshot\<rparr>"])
          (simp_all add: True weight_defs decrement_ready_count_def)
      then show ?thesis
        using "2.IH"(2) [OF False] "2.prems"(2) False True
        by (simp add: transition_entry ac_simps subset_insertI2)
    next
      case cancelled: False
      have "entry_ok s (In_ready, e)" using placed_inv_entry [OF inv] by simp
      then have "entry_state s e = cancelled" using cancelled by (auto simp: entry_ok_def allowed_def)
      then have "placed_inv (in_place In_ready q + (in_place In_snapshot batch + M)) s"
        by (rule placed_inv_drop_cancelled [OF inv]) simp
      then show ?thesis
        using "2.IH"(1) [OF False] "2.prems"(2) False cancelled
        by (simp add: transition_entry subset_insertI2)
    qed
  qed (use "2.prems" in auto)
qed auto

lemma located_queue:
  "i < 3 \<Longrightarrow> located H S X (s\<lparr>tm_ready := (tm_ready s)(i := q)\<rparr>) =
     in_place In_ready q + located H S X (s\<lparr>tm_ready := (tm_ready s)(i := [])\<rparr>)"
proof -
  assume "i < 3"
  then have "i = 0 \<or> i = 1 \<or> i = 2" by arith
  then show ?thesis by (auto simp: located_in_place ac_simps)
qed

lemma located_snapshot: "located (batch @ H) S X s = in_place In_snapshot batch + located H S X s"
  by (simp add: located_in_place ac_simps)

lemma tm_inv_take_from:
  assumes inv: "tm_inv (batch @ H) S X s" and i: "i < 3"
    and eq: "take_from n i (batch, s) = (batch', s')"
  shows "tm_inv (batch' @ H) S X s'"
proof -
  obtain q t where t: "take_queue n (tm_ready s i) batch s = (q, batch', t)"
      and s': "s' = t\<lparr>tm_ready := (tm_ready t)(i := q)\<rparr>"
    using eq by (auto simp: take_from_def split: prod.splits)
  let ?M = "located H S X (s\<lparr>tm_ready := (tm_ready s)(i := [])\<rparr>)"
  have "located (batch @ H) S X s = in_place In_ready (tm_ready s i) + (in_place In_snapshot batch + ?M)"
    using located_queue [OF i, of "batch @ H" S X s "tm_ready s i"]
    by (simp add: located_snapshot ac_simps)
  then have "placed_inv (in_place In_ready (tm_ready s i) + (in_place In_snapshot batch + ?M)) s"
    using tm_invD(1) [OF inv] by simp
  note t = take_queue_inv [OF this t]
  have "same_queues (s\<lparr>tm_ready := (tm_ready s)(i := [])\<rparr>) (t\<lparr>tm_ready := (tm_ready t)(i := [])\<rparr>)"
    using t by (simp add: same_queues_def)
  then have "located (batch' @ H) S X s' = in_place In_ready q + (in_place In_snapshot batch' + ?M)"
    using located_queue [OF i, of "batch' @ H" S X t q] located_same_queues [of _ _ "batch' @ H" S X]
    by (simp add: s' located_snapshot ac_simps)
  moreover have "queues_ok s'"
    using t tm_invD(3) [OF inv] by (auto simp: queues_ok_def s')
  ultimately show ?thesis
    using t tm_invD(2) [OF inv] by (simp add: tm_inv_def s')
qed

lemma tm_inv_take_ready_batch:
  assumes "tm_inv H S X s" and "take_ready_batch_locked n s = (batch, s')"
  shows "tm_inv (batch @ H) S X s'"
proof -
  obtain b0 s0 where 0: "take_from n 0 ([], s) = (b0, s0)" by (cases "take_from n 0 ([], s)")
  obtain b1 s1 where 1: "take_from n 1 (b0, s0) = (b1, s1)" by (cases "take_from n 1 (b0, s0)")
  have 2: "take_from n 2 (b1, s1) = (batch, s')"
    using assms(2) 0 1 by (simp add: take_ready_batch_locked_def)
  have "tm_inv (b0 @ H) S X s0" by (rule tm_inv_take_from [OF _ _ 0]) (simp_all add: assms)
  then have "tm_inv (b1 @ H) S X s1" by (rule tm_inv_take_from [OF _ _ 1]) simp
  then show ?thesis by (rule tm_inv_take_from [OF _ _ 2]) simp
qed

lemma tm_inv_take_snapshot:
  "tm_inv H S X s \<Longrightarrow> take_snapshot now n s = (batch, s') \<Longrightarrow> tm_inv (batch @ H) S X s'"
  by (rule tm_inv_take_ready_batch [OF tm_inv_promote_due]) (simp_all add: take_snapshot_def)

section \<open>Starting a task\<close>

lemma tm_inv_start_entry:
  assumes inv: "tm_inv (e # H) S X s" and eq: "start_entry e s = (ok, s')"
  shows "if ok then tm_inv H (e # S) X s' else tm_inv H S X s'"
proof (cases "entry_state s e = ready_snapshot")
  case True
  have "placed_inv (located H (e # S) X s) (set_state (e_control e) executing s)"
    unfolding located_Cons
    by (rule placed_inv_move [OF tm_invD(1) [OF inv, unfolded located_Cons], where c =
          "(tm_controls s (e_control e))\<lparr>ctl_state := executing\<rparr>"])
      (simp_all add: True weight_defs)
  with tm_invD(2,3) [OF inv] have "tm_inv H (e # S) X (set_state (e_control e) executing s)"
    by (intro tm_inv_new_located) simp_all
  then show ?thesis using eq True by (auto simp: start_entry_def transition_entry)
next
  case False
  have "entry_ok s (In_snapshot, e)" using placed_inv_entry [OF tm_invD(1) [OF inv]] by simp
  then have "entry_state s e = cancelled" using False by (auto simp: entry_ok_def allowed_def)
  then have "placed_inv (located H S X s) s"
    using tm_invD(1) [OF inv] placed_inv_drop_cancelled [of In_snapshot e "located H S X s" s] by simp
  then show ?thesis
    using False eq tm_invD(2,3) [OF inv] by (auto simp: start_entry_def transition_entry tm_inv_def)
qed

lemma tm_inv_uncount_started:
  assumes inv: "tm_inv H (e # S) X s"
  shows "tm_inv H S (e # X) (uncount_started e s)"
proof -
  note inv1 = tm_invD(1) [OF inv, unfolded located_Cons]
  have ok: "entry_ok s (Claimed, e)" using placed_inv_entry [OF inv1] by simp
  have "placed_inv (add_mset (Running, e) (located H S X s)) (uncount_started e s)"
    by (rule placed_inv_move [OF inv1, where c = "tm_controls s (e_control e)"])
      (use ok in \<open>auto simp: uncount_started_def decrement_pending_count_def weight_defs
        entry_ok_def entry_state_def\<close>)
  then show ?thesis
    using tm_invD(2,3) [OF inv]
    by (intro tm_inv_new_located [of H S "e # X" s]) (simp_all add: uncount_started_def)
qed

section \<open>Finishing a task\<close>

lemma seq_fields [simp]:
  "snd (next_seq s) = s\<lparr>tm_next_seq := tm_next_seq s + 1\<rparr>"
  "fst (next_seq s) = tm_next_seq s"
  by (simp_all add: next_seq_def)

text \<open>\<open>requeued\<close>: the entry as it re-enters a container.\<close>

definition requeued :: "'f Entry \<Rightarrow> time \<Rightarrow> u64 \<Rightarrow> 'f Entry" where
  "requeued e due sq = e\<lparr>e_seq := sq, e_due := due, e_planned_due := due\<rparr>"

lemma requeued_fields [simp]:
  "e_control (requeued e due sq) = e_control e" "e_id (requeued e due sq) = e_id e"
  "e_periodic (requeued e due sq) = e_periodic e" "e_task (requeued e due sq) = e_task e"
  "e_priority (requeued e due sq) = e_priority e" "e_due (requeued e due sq) = due"
  "e_seq (requeued e due sq) = sq" "e_planned_due (requeued e due sq) = due"
  "e_interval (requeued e due sq) = e_interval e" "e_schedule (requeued e due sq) = e_schedule e"
  by (simp_all add: requeued_def)

lemma enqueue_existing_eq:
  "enqueue_existing_locked now e due s =
     (if entry_state s e \<noteq> executing then s
      else let s1 = set_state (e_control e) (if due \<le> now then queued_ready else queued_delayed) s;
               s2 = (if \<not> e_periodic e then increment_pending_count s1 else s1);
               s3 = s2\<lparr>tm_next_seq := tm_next_seq s + 1\<rparr>;
               e' = requeued e due (tm_next_seq s)
           in if due \<le> now then increment_ready_count (push_back_ready e' s3)
              else push_delayed e' s3)"
  by (simp add: enqueue_existing_locked_def transition_entry next_seq_def requeued_def
      increment_pending_count_def Let_def)

lemma tm_inv_enqueue_existing:
  assumes inv: "tm_inv H S (e # X) s" and st: "entry_state s e = executing"
  shows "tm_inv H S X (enqueue_existing_locked now e due s)"
proof -
  note inv1 = tm_invD(1) [OF inv, unfolded located_Cons]
  let ?e = "requeued e due (tm_next_seq s)"
  let ?v = "if due \<le> now then queued_ready else queued_delayed"
  let ?p = "if due \<le> now then In_ready else In_heap"
  have placed: "placed_inv (add_mset (?p, ?e) (located H S X s)) (enqueue_existing_locked now e due s)"
    by (rule placed_inv_move [OF inv1, where c = "(tm_controls s (e_control e))\<lparr>ctl_state := ?v\<rparr>"])
      (use st in \<open>simp_all add: enqueue_existing_eq weight_defs Let_def increment_ready_count_def
        increment_pending_count_def push_delayed_def\<close>)
  show ?thesis
  proof (cases "due \<le> now")
    case True
    show ?thesis
      by (rule tm_inv_enter_ready [of ?e H S X s])
        (use placed tm_invD(2,3) [OF inv] in \<open>simp_all add: True enqueue_existing_eq st
          push_back_ready_def Let_def increment_ready_count_def increment_pending_count_def\<close>)
  next
    case False
    show ?thesis
      by (rule tm_inv_enter_heap [of ?e H S X s])
        (use placed tm_invD(2,3) [OF inv] in \<open>simp_all add: False enqueue_existing_eq st
          push_delayed_def Let_def increment_pending_count_def\<close>)
  qed
qed

text \<open>A running entry that leaves the manager.\<close>

lemma tm_inv_retire:
  assumes inv: "tm_inv H S (e # X) s"
    and ctl: "tm_controls s' = (tm_controls s)(e_control e := c)"
    and dead: "ctl_state c = cancelled \<or> ctl_state c = completed"
    and idx: "tm_index s' = (tm_index s)(e_id e := None)"
    and nxt: "tm_next_control s' = tm_next_control s" "tm_next_id s' = tm_next_id s"
    and rc: "tm_ready_count s' = tm_ready_count s"
    and pc: "tm_pending_count s' = tm_pending_count s -
               (if e_periodic e \<and> entry_state s e \<noteq> cancelled then 1 else 0)"
    and q: "same_queues s s'"
  shows "tm_inv H S X s'"
proof -
  have "placed_inv (located H S X s) s'"
    by (rule placed_inv_remove [OF tm_invD(1) [OF inv, unfolded located_Cons] ctl dead idx nxt])
      (simp_all add: rc pc weight_defs)
  then show ?thesis using q tm_invD(2,3) [OF inv] by (rule tm_inv_new_located)
qed

lemma running_state:
  assumes "tm_inv H S (e # X) s" shows "entry_state s e = executing \<or> entry_state s e = cancelled"
  using placed_inv_entry [OF tm_invD(1) [OF assms], of "(Running, e)"]
  by (simp add: entry_ok_def allowed_def)

lemma clear_reschedule_fields [simp]:
  "tm_controls (clear_reschedule r s) =
     (tm_controls s)(r := (tm_controls s r)\<lparr>reschedule_requested := False\<rparr>)"
  "tm_index (clear_reschedule r s) = tm_index s"
  "tm_closed (clear_reschedule r s) = tm_closed s"
  "tm_ready_count (clear_reschedule r s) = tm_ready_count s"
  "tm_pending_count (clear_reschedule r s) = tm_pending_count s"
  "tm_next_control (clear_reschedule r s) = tm_next_control s"
  "tm_next_id (clear_reschedule r s) = tm_next_id s"
  "tm_next_seq (clear_reschedule r s) = tm_next_seq s"
  "tm_ready (clear_reschedule r s) = tm_ready s"
  "tm_heap (clear_reschedule r s) = tm_heap s"
  by (simp_all add: clear_reschedule_def set_control_def)

lemma entry_state_clear_reschedule [simp]:
  "entry_state (clear_reschedule r s) e = entry_state s e"
  by (simp add: entry_state_def)

lemma tm_inv_finish_after_success:
  assumes inv: "tm_inv H S (e # X) s"
  shows "tm_inv H S X (finish_after_success now1 now2 e s)"
  using running_state [OF inv]
proof
  assume c: "entry_state s e = cancelled"
  show ?thesis
    by (rule tm_inv_retire [OF inv, where c = "(tm_controls s (e_control e))\<lparr>reschedule_requested := False\<rparr>"])
      (use c in \<open>simp_all add: entry_state_def finish_after_success_def Let_def index_erase_def same_queues_def\<close>)
next
  assume x: "entry_state s e = executing"
  consider "tm_closed s" | "\<not> tm_closed s" "reschedule_requested (control_of s e) \<or> e_periodic e"
    | "\<not> tm_closed s" "\<not> reschedule_requested (control_of s e)" "\<not> e_periodic e"
    by blast
  then show ?thesis
  proof cases
    case 1
    show ?thesis
      by (rule tm_inv_retire [OF inv, where c = "(tm_controls s (e_control e))
            \<lparr>ctl_state := completed, reschedule_requested := False\<rparr>"])
        (use x 1 in \<open>simp_all add: finish_after_success_def Let_def index_erase_def same_queues_def
          transition_entry decrement_pending_count_def\<close>)
  next
    case 2
    then show ?thesis
      using x by (auto simp: finish_after_success_def Let_def
          intro!: tm_inv_enqueue_existing inv tm_inv_clear_reschedule)
  next
    case 3
    show ?thesis
      by (rule tm_inv_retire [OF inv, where c = "(tm_controls s (e_control e))\<lparr>ctl_state := completed\<rparr>"])
        (use x 3 in \<open>simp_all add: finish_after_success_def Let_def index_erase_def same_queues_def
          transition_entry\<close>)
  qed
qed

lemma tm_inv_finish_after_exception:
  assumes inv: "tm_inv H S (e # X) s"
  shows "tm_inv H S X (finish_after_exception e s)"
  using running_state [OF inv]
proof
  assume c: "entry_state s e = cancelled"
  show ?thesis
    by (rule tm_inv_retire [OF inv, where c = "(tm_controls s (e_control e))\<lparr>reschedule_requested := False\<rparr>"])
      (use c in \<open>simp_all add: entry_state_def finish_after_exception_def Let_def index_erase_def same_queues_def\<close>)
next
  assume x: "entry_state s e = executing"
  show ?thesis
    by (rule tm_inv_retire [OF inv, where c = "(tm_controls s (e_control e))
          \<lparr>reschedule_requested := False, ctl_state := completed\<rparr>"])
      (use x in \<open>simp_all add: finish_after_exception_def Let_def index_erase_def same_queues_def
        transition_entry decrement_pending_count_def\<close>)
qed

section \<open>Restoring the unstarted part of a snapshot\<close>

lemma tm_inv_restore_one:
  assumes inv: "tm_inv (e # H) S X s"
  shows "tm_inv H S X (restore_one e s)"
proof (cases "entry_state s e = ready_snapshot")
  case True
  note inv1 = tm_invD(1) [OF inv, unfolded located_Cons]
  have eq: "restore_one e s =
      increment_ready_count (push_front_ready e (set_state (e_control e) queued_ready s))"
    using True by (simp add: restore_one_def transition_entry)
  have "placed_inv (add_mset (In_ready, e) (located H S X s)) (restore_one e s)"
    by (rule placed_inv_move [OF inv1, where c =
          "(tm_controls s (e_control e))\<lparr>ctl_state := queued_ready\<rparr>"])
      (simp_all add: eq True weight_defs increment_ready_count_def)
  then show ?thesis
    by (rule tm_inv_enter_ready)
      (use tm_invD(2,3) [OF inv] in \<open>simp_all add: eq push_front_ready_def Let_def
        increment_ready_count_def\<close>)
next
  case False
  have "start_entry e s = (False, s)" using False by (simp add: start_entry_def transition_entry)
  then show ?thesis
    using tm_inv_start_entry [OF inv] False by (simp add: restore_one_def transition_entry)
qed

lemma tm_inv_restore_unrun: "tm_inv (es @ H) S X s \<Longrightarrow> tm_inv H S X (restore_unrun es s)"
proof (induction es arbitrary: H)
  case (Cons e es)
  have "tm_inv (es @ e # H) S X s"
    using Cons.prems by (subst tm_inv_perm [of _ "(e # es) @ H" _ S _ X]) simp_all
  then have "tm_inv (e # H) S X (restore_unrun es s)" by (rule Cons.IH)
  then show ?case by (simp add: restore_unrun_def tm_inv_restore_one)
qed (simp add: restore_unrun_def)

section \<open>Clearing\<close>

lemma clear_queue_inv:
  "placed_inv (in_place In_ready q + M) s \<Longrightarrow> clear_queue q (k, s) = (k', s') \<Longrightarrow>
     placed_inv M s' \<and> tm_ready s' = tm_ready s \<and> tm_heap s' = tm_heap s"
proof (induction q arbitrary: k s)
  case (Cons e q)
  have inv: "placed_inv (add_mset (In_ready, e) (in_place In_ready q + M)) s"
    using Cons.prems(1) by simp
  show ?case
  proof (cases "entry_state s e = queued_ready")
    case True
    let ?s = "index_erase (e_id e) (decrement_pending_count (decrement_ready_count
        (set_state (e_control e) cancelled s)))"
    have "placed_inv (in_place In_ready q + M) ?s"
      by (rule placed_inv_remove [OF inv, where c = "(tm_controls s (e_control e))\<lparr>ctl_state := cancelled\<rparr>"])
        (simp_all add: True weight_defs index_erase_def decrement_pending_count_def
          decrement_ready_count_def)
    then show ?thesis
      using Cons.IH [of ?s "Suc k"] Cons.prems(2) True
      by (simp add: transition_entry index_erase_def)
  next
    case False
    have "entry_ok s (In_ready, e)" using placed_inv_entry [OF inv] by simp
    then have "entry_state s e = cancelled" using False by (auto simp: entry_ok_def allowed_def)
    then have "placed_inv (in_place In_ready q + M) s"
      by (rule placed_inv_drop_cancelled [OF inv]) simp
    then show ?thesis using Cons.IH [of s k] Cons.prems(2) False by (simp add: transition_entry)
  qed
qed simp

lemma clear_heap_inv:
  "placed_inv (in_place In_heap h + M) s \<Longrightarrow> clear_heap h (k, s) = (k', s') \<Longrightarrow>
     placed_inv M s' \<and> tm_ready s' = tm_ready s \<and> tm_heap s' = tm_heap s"
proof (induction h arbitrary: k s)
  case (Cons e h)
  have inv: "placed_inv (add_mset (In_heap, e) (in_place In_heap h + M)) s"
    using Cons.prems(1) by simp
  show ?case
  proof (cases "entry_state s e = queued_delayed")
    case True
    let ?s = "index_erase (e_id e) (decrement_pending_count (set_state (e_control e) cancelled s))"
    have "placed_inv (in_place In_heap h + M) ?s"
      by (rule placed_inv_remove [OF inv, where c = "(tm_controls s (e_control e))\<lparr>ctl_state := cancelled\<rparr>"])
        (simp_all add: True weight_defs index_erase_def decrement_pending_count_def)
    then show ?thesis
      using Cons.IH [of ?s "Suc k"] Cons.prems(2) True
      by (simp add: transition_entry index_erase_def)
  next
    case False
    have "entry_ok s (In_heap, e)" using placed_inv_entry [OF inv] by simp
    then have "entry_state s e = cancelled" using False by (auto simp: entry_ok_def allowed_def)
    then have "placed_inv (in_place In_heap h + M) s"
      by (rule placed_inv_drop_cancelled [OF inv]) simp
    then show ?thesis using Cons.IH [of s k] Cons.prems(2) False by (simp add: transition_entry)
  qed
qed simp

lemma tm_inv_clear_ready:
  assumes inv: "tm_inv H S X s" and i: "i < 3" and eq: "clear_ready i (k, s) = (k', s')"
  shows "tm_inv H S X s' \<and> tm_ready s' = (tm_ready s)(i := []) \<and> tm_heap s' = tm_heap s"
proof -
  obtain t where t: "clear_queue (tm_ready s i) (k, s) = (k', t)"
      and s': "s' = t\<lparr>tm_ready := (tm_ready t)(i := [])\<rparr>"
    using eq by (auto simp: clear_ready_def split: prod.splits)
  let ?M = "located H S X (s\<lparr>tm_ready := (tm_ready s)(i := [])\<rparr>)"
  have "located H S X s = in_place In_ready (tm_ready s i) + ?M"
    using located_queue [OF i, of H S X s "tm_ready s i"] by simp
  then have "placed_inv (in_place In_ready (tm_ready s i) + ?M) s"
    using tm_invD(1) [OF inv] by simp
  note t = clear_queue_inv [OF this t]
  have "same_queues (s\<lparr>tm_ready := (tm_ready s)(i := [])\<rparr>) s'"
    using t by (simp add: same_queues_def s')
  then have "tm_inv H S X s'"
    by (rule tm_inv_new_located [rotated])
      (use t tm_invD(2,3) [OF inv] in \<open>auto simp: s' queues_ok_def\<close>)
  then show ?thesis using t by (simp add: s')
qed

lemma tm_inv_clear_pending:
  assumes inv: "tm_inv H S X s" and eq: "clear_pending s = (k, s')"
  shows "tm_inv H S X s' \<and> (\<forall>i < 3. tm_ready s' i = []) \<and> tm_heap s' = []"
proof -
  obtain k0 s0 where 0: "clear_ready 0 (0, s) = (k0, s0)" by (cases "clear_ready 0 (0, s)")
  obtain k1 s1 where 1: "clear_ready 1 (k0, s0) = (k1, s1)" by (cases "clear_ready 1 (k0, s0)")
  obtain k2 s2 where 2: "clear_ready 2 (k1, s1) = (k2, s2)" by (cases "clear_ready 2 (k1, s1)")
  note inv0 = tm_inv_clear_ready [OF inv _ 0]
  note inv1 = tm_inv_clear_ready [OF conjunct1 [OF inv0] _ 1]
  note inv2 = tm_inv_clear_ready [OF conjunct1 [OF inv1] _ 2]
  have i2: "tm_inv H S X s2" and e2: "\<forall>i < 3. tm_ready s2 i = []"
    using inv0 inv1 inv2 by (auto simp: less_Suc_eq numeral_3_eq_3 numeral_2_eq_2)
  obtain t where t: "clear_heap (tm_heap s2) (k2, s2) = (k, t)" and s': "s' = t\<lparr>tm_heap := []\<rparr>"
    using eq 0 1 2 by (auto simp: clear_pending_def split: prod.splits)
  let ?M = "located H S X (s2\<lparr>tm_heap := []\<rparr>)"
  have "placed_inv (in_place In_heap (tm_heap s2) + ?M) s2"
    using i2 by (simp add: tm_inv_heap_cases)
  note t = clear_heap_inv [OF this t]
  have "same_queues (s2\<lparr>tm_heap := []\<rparr>) s'" using t by (simp add: same_queues_def s')
  then have "tm_inv H S X s'"
    by (rule tm_inv_new_located [rotated])
      (use t tm_invD(3) [OF i2] in \<open>simp_all add: s' queues_ok_def is_heap_def\<close>)
  then show ?thesis using t e2 by (simp add: s')
qed

section \<open>The whole of process()\<close>

text \<open>
  User code may use the manager through its operations, \<^verbatim>\<open>process()\<close> included. All the loop relies on is
  that it keeps the invariant whatever the outer calls hold.
\<close>

definition callback_ok :: "('f, ('f, 'z) TM_scheme) runner \<Rightarrow> bool" where
  "callback_ok run \<longleftrightarrow>
     (\<forall>f ctx s H S X. tm_inv H S X s \<longrightarrow> tm_inv H S X (fst (run f ctx s)))"

definition handler_ok :: "('f, ('f, 'z) TM_scheme) handler_runner \<Rightarrow> bool" where
  "handler_ok hrun \<longleftrightarrow>
     (\<forall>h x s H S X. tm_inv H S X s \<longrightarrow> tm_inv H S X (fst (hrun h x s)))"

lemma tm_inv_task_call:
  "callback_ok run \<Longrightarrow> tm_inv H S X s \<Longrightarrow> tm_inv H S X (fst (Task_call_context run t ctx s))"
  by (cases t) (simp_all add: callback_ok_def)

lemma tm_inv_report_exception:
  "handler_ok hrun \<Longrightarrow> tm_inv H S X s \<Longrightarrow> tm_inv H S X (snd (report_exception hrun x s))"
  by (auto simp: report_exception_def handler_ok_def split: option.splits prod.splits)
     (metis fst_conv)+

lemma tm_inv_process_loop:
  assumes run: "callback_ok run" and hrun: "handler_ok hrun"
  shows "tm_inv (batch @ H) S X s \<Longrightarrow>
    tm_inv H S X (snd (snd (process_loop run hrun nows batch i processed s)))"
proof (induction batch arbitrary: i processed s)
  case (Cons e rest)
  obtain ok s1 where start: "start_entry e s = (ok, s1)" by (cases "start_entry e s")
  note started = tm_inv_start_entry [OF Cons.prems [unfolded append_Cons] start]
  show ?case
  proof (cases ok)
    case False
    then show ?thesis using started Cons.IH start by simp
  next
    case True
    then have "tm_inv (rest @ H) S (e # X) (uncount_started e s1)"
      using started by (simp add: tm_inv_uncount_started)
    note called = tm_inv_task_call [OF run this, of "e_task e" "make_context (e_id e)"]
    obtain s2 r where call: "Task_call_context run (e_task e) (make_context (e_id e))
        (uncount_started e s1) = (s2, r)"
      by (cases "Task_call_context run (e_task e) (make_context (e_id e)) (uncount_started e s1)")
    show ?thesis
    proof (cases r)
      case None
      have "tm_inv (rest @ H) S X (finish_after_success (fst (nows i)) (snd (nows i)) e s2)"
        using called call by (simp add: tm_inv_finish_after_success)
      from Cons.IH [OF this, of "Suc i" "Suc processed"] show ?thesis
        using start True call None by (auto split: prod.splits)
    next
      case (Some x)
      have "tm_inv (rest @ H) S X (finish_after_exception e s2)"
        using called call by (simp add: tm_inv_finish_after_exception)
      note rep = tm_inv_report_exception [OF hrun this, of x]
      obtain a s3 where a: "report_exception hrun x (finish_after_exception e s2) = (a, s3)"
        by (cases "report_exception hrun x (finish_after_exception e s2)")
      then have s3: "tm_inv (rest @ H) S X s3" using rep by simp
      show ?thesis
        using start True call Some a Cons.IH [OF s3, of "Suc i" "Suc processed"]
          tm_inv_restore_unrun [OF s3]
        by (auto split: prod.splits sum.splits bool.splits)
    qed
  qed
qed simp

lemma tm_inv_process:
  assumes "callback_ok run" "handler_ok hrun" "tm_inv H S X s"
  shows "tm_inv H S X (snd (process run hrun now nows n s))"
proof (cases "n = 0")
  case False
  obtain batch t where t: "take_snapshot now n s = (batch, t)" by (cases "take_snapshot now n s")
  show ?thesis
    using tm_inv_process_loop [OF assms(1,2) tm_inv_take_snapshot [OF assms(3) t]] False t
    by (simp add: process_def process_traced_def)
qed (use assms in \<open>simp add: process_def process_traced_def\<close>)

end
