(* ===== verification/Task_States.thy ===== *)
theory Task_States
  imports Task_Inv_Process
begin

text \<open>
  The life of a control block: the edges along which the operations move its state. \<open>moves E s s'\<close> says
  that from \<open>s\<close> to \<open>s'\<close> a block keeps its state or takes an edge of \<open>E\<close>; each operation has a lemma
  with its own edges, so that single steps are told apart from their closure. Identity and kind of a
  block never change, and blocks are never reused.
\<close>

section \<open>The edges\<close>

inductive state_edge :: "State \<Rightarrow> State \<Rightarrow> bool" where
  promoted: "state_edge queued_delayed queued_ready"
| taken: "state_edge queued_ready ready_snapshot"
| restored: "state_edge ready_snapshot queued_ready"
| started: "state_edge ready_snapshot executing"
| requeued_ready: "state_edge executing queued_ready"
| requeued_delayed: "state_edge executing queued_delayed"
| finished: "state_edge executing completed"
| dropped: "v \<noteq> cancelled \<Longrightarrow> v \<noteq> completed \<Longrightarrow> state_edge v cancelled"


lemmas state_edges = state_edge.intros

text \<open>The edges by the group of operations that takes them.\<close>

abbreviation promote_edges :: "(State \<times> State) set" where
  "promote_edges \<equiv> {(queued_delayed, queued_ready)}"

abbreviation take_edges :: "(State \<times> State) set" where
  "take_edges \<equiv> {(queued_ready, ready_snapshot)}"

abbreviation snapshot_edges :: "(State \<times> State) set" where
  "snapshot_edges \<equiv> promote_edges \<union> take_edges \<union> {(queued_delayed, ready_snapshot)}"

abbreviation start_edges :: "(State \<times> State) set" where
  "start_edges \<equiv> {(ready_snapshot, executing)}"

abbreviation finish_edges :: "(State \<times> State) set" where
  "finish_edges \<equiv>
     {(executing, queued_ready), (executing, queued_delayed), (executing, completed)}"

abbreviation restore_edges :: "(State \<times> State) set" where
  "restore_edges \<equiv> {(ready_snapshot, queued_ready)}"

abbreviation cancel_edges :: "(State \<times> State) set" where
  "cancel_edges \<equiv> {(v, cancelled) |v. v \<noteq> cancelled \<and> v \<noteq> completed}"

definition ctl_step :: "(State \<times> State) set \<Rightarrow> Control \<Rightarrow> Control \<Rightarrow> bool" where
  "ctl_step E c c' \<longleftrightarrow> (ctl_state c' = ctl_state c \<or> (ctl_state c, ctl_state c') \<in> E) \<and>
     ctl_id c' = ctl_id c \<and> ctl_periodic c' = ctl_periodic c"

definition moves :: "(State \<times> State) set \<Rightarrow> ('f, 'z) TM_scheme \<Rightarrow> ('f, 'z) TM_scheme \<Rightarrow> bool" where
  "moves E s s' \<longleftrightarrow> tm_next_control s \<le> tm_next_control s' \<and>
     (\<forall>r < tm_next_control s. ctl_step E (tm_controls s r) (tm_controls s' r))"

text \<open>Sequences of operations leave the final states alone.\<close>

abbreviation ctl_path :: "('f, 'z) TM_scheme \<Rightarrow> ('f, 'z) TM_scheme \<Rightarrow> bool" where
  "ctl_path \<equiv> moves {(v, w). v \<noteq> cancelled \<and> v \<noteq> completed}"

lemma moves_next: "moves E s s' \<Longrightarrow> r < tm_next_control s \<Longrightarrow> r < tm_next_control s'"
  by (simp add: moves_def)

lemma moves_block:
  "moves E s s' \<Longrightarrow> r < tm_next_control s \<Longrightarrow> ctl_step E (tm_controls s r) (tm_controls s' r)"
  by (simp add: moves_def)

lemma ctl_path_final:
  "ctl_path s s' \<Longrightarrow> r < tm_next_control s \<Longrightarrow>
     ctl_state (tm_controls s r) = cancelled \<or> ctl_state (tm_controls s r) = completed \<Longrightarrow>
     ctl_state (tm_controls s' r) = ctl_state (tm_controls s r)"
  by (auto simp: ctl_step_def dest: moves_block)

lemma moves_refl [simp]: "moves E s s"
  by (simp add: moves_def ctl_step_def)

lemma moves_mono: "moves E s t \<Longrightarrow> E \<subseteq> G \<Longrightarrow> moves G s t"
  by (auto simp: moves_def ctl_step_def)

lemma moves_trans:
  assumes "moves E s t" "moves F t u" "E \<union> F \<union> E O F \<subseteq> G"
  shows "moves G s u"
proof -
  have "ctl_step G (tm_controls s r) (tm_controls u r)" if "r < tm_next_control s" for r
    using moves_block [OF assms(1) that] moves_block [OF assms(2) moves_next [OF assms(1) that]]
      assms(3) by (auto simp: ctl_step_def)
  then show ?thesis using assms(1,2) by (simp add: moves_def)
qed

text \<open>Repeating an operation whose edges do not chain takes no new edges.\<close>

lemma moves_repeat: "moves E s t \<Longrightarrow> moves E t u \<Longrightarrow> E O E \<subseteq> E \<Longrightarrow> moves E s u"
  by (erule (1) moves_trans) simp

lemma ctl_path_trans [trans]: "ctl_path s t \<Longrightarrow> ctl_path t u \<Longrightarrow> ctl_path s u"
  by (erule (1) moves_repeat) auto

lemma moves_cong:
  "tm_next_control u = tm_next_control t \<Longrightarrow> tm_controls u = tm_controls t \<Longrightarrow>
     moves E s u = moves E s t"
  by (simp add: moves_def)

section \<open>Elementary updates\<close>

lemma moves_ignores [simp]:
  "moves E s (index_erase i t) = moves E s t"
  "moves E s (index_emplace i r t) = moves E s t"
  "moves E s (increment_ready_count t) = moves E s t"
  "moves E s (decrement_ready_count t) = moves E s t"
  "moves E s (increment_pending_count t) = moves E s t"
  "moves E s (decrement_pending_count t) = moves E s t"
  "moves E s (push_back_ready e t) = moves E s t"
  "moves E s (push_front_ready e t) = moves E s t"
  "moves E s (push_delayed e t) = moves E s t"
  "moves E s (notify_work_available t) = moves E s t"
  "moves E s (t\<lparr>tm_ready := q\<rparr>) = moves E s t"
  "moves E s (t\<lparr>tm_heap := h\<rparr>) = moves E s t"
  "moves E s (t\<lparr>tm_closed := b\<rparr>) = moves E s t"
  "moves E s (t\<lparr>tm_notifier := n\<rparr>) = moves E s t"
  "moves E s (t\<lparr>tm_handler := g\<rparr>) = moves E s t"
  "moves E s (t\<lparr>tm_next_seq := k\<rparr>) = moves E s t"
  "moves E s (t\<lparr>tm_next_id := k\<rparr>) = moves E s t"
  by (rule moves_cong; simp add: index_erase_def index_emplace_def increment_ready_count_def
      decrement_ready_count_def increment_pending_count_def decrement_pending_count_def
      push_back_ready_def push_front_ready_def push_delayed_def Let_def split: option.splits)+

lemma moves_from_ignores [simp]:
  "moves E (index_erase i s) t = moves E s t"
  "moves E (decrement_ready_count s) t = moves E s t"
  "moves E (decrement_pending_count s) t = moves E s t"
  by (simp_all add: moves_def index_erase_def decrement_ready_count_def
      decrement_pending_count_def)

lemma moves_set_control:
  "moves {} s t \<Longrightarrow> ctl_step E (tm_controls t r) c \<Longrightarrow> moves E s (set_control r c t)"
  by (auto simp: moves_def set_control_def ctl_step_def)

lemma moves_clear_reschedule [simp]: "moves E s (clear_reschedule r t) = moves E s t"
proof -
  have "ctl_step E c (tm_controls (clear_reschedule r t) q) = ctl_step E c (tm_controls t q)" for c q
    by (simp add: clear_reschedule_def set_control_def ctl_step_def)
  then show ?thesis by (simp add: moves_def clear_reschedule_def set_control_def)
qed

lemma moves_set_state:
  "moves {} s t \<Longrightarrow> (ctl_state (tm_controls t r), w) \<in> E \<Longrightarrow> moves E s (set_state r w t)"
  by (auto simp: set_state_def ctl_step_def intro!: moves_set_control)

lemma moves_transition:
  "transition r v w t = (ok, t') \<Longrightarrow> moves {} s t \<Longrightarrow> moves {(v, w)} s t'"
  by (auto simp: transition_eq intro: moves_set_state moves_mono [OF _ empty_subsetI] split: if_splits)

lemma moves_make_control:
  "moves E s t \<Longrightarrow> make_control i v p t = (r, t') \<Longrightarrow> moves E s t'"
  by (auto simp: make_control_def moves_def set_control_def)

section \<open>Operations\<close>

lemma moves_enqueue_ready_locked: "moves {} s (snd (enqueue_ready_locked t opt s))"
  by (auto simp: enqueue_ready_locked_def next_id_def Let_def next_seq_def split: prod.splits
      intro: moves_make_control [rotated])

lemma moves_enqueue_delayed_locked: "moves {} s (snd (enqueue_delayed_locked due t opt s))"
  by (auto simp: enqueue_delayed_locked_def next_id_def Let_def next_seq_def split: prod.splits
      intro: moves_make_control [rotated])

lemma moves_enqueue_periodic_locked:
  "moves {} s (snd (enqueue_periodic_locked now due interval t opt s))"
  by (auto simp: enqueue_periodic_locked_def next_id_def Let_def next_seq_def split: prod.splits
      intro: moves_make_control [rotated])

lemma moves_notify_if_accepted: "moves E s (snd (notify_if_accepted p)) = moves E s (snd p)"
  by (simp add: notify_if_accepted_def split: prod.splits)

lemma moves_post: "moves {} s (snd (post t opt s))"
  by (simp add: post_def enqueue_ready_def moves_notify_if_accepted moves_enqueue_ready_locked)

lemma moves_post_at: "moves {} s (snd (post_at now due t opt s))"
  by (simp add: post_at_def moves_notify_if_accepted moves_enqueue_ready_locked
      moves_enqueue_delayed_locked)

lemma moves_post_every_after: "moves {} s (snd (post_every_after now1 now2 delay interval t opt s))"
  by (simp add: post_every_after_def Let_def moves_notify_if_accepted moves_enqueue_periodic_locked)

lemma moves_post_batch_loop: "moves {} s (snd (snd (post_batch_loop ts opt s)))"
proof (induction ts arbitrary: s)
  case (Cons t ts)
  show ?case
    using Cons [of s] Cons [of "snd (enqueue_ready_locked t opt s)"]
      moves_enqueue_ready_locked [of s t opt]
    by (auto split: prod.splits intro: moves_repeat)
qed simp

lemma moves_post_batch: "moves {} s (snd (post_batch ts opt s))"
  using moves_post_batch_loop [of s ts opt] by (auto simp: post_batch_def split: prod.splits)

lemma moves_cancel_loaded: "moves cancel_edges s (snd (cancel_loaded i r v s))"
  by (cases v) (auto simp: cancel_loaded_def transition_eq intro!: moves_set_state)

lemma moves_cancel_from_context: "moves cancel_edges s (snd (cancel_from_context i s))"
  by (auto simp: cancel_from_context_def transition_eq Let_def split: option.splits
      intro!: moves_set_state)

lemma moves_reschedule: "moves {} s (snd (reschedule_from_context i due s))"
  by (auto simp: reschedule_from_context_def ctl_step_def split: option.splits
      intro!: moves_set_control)

lemma moves_prune [simp]: "moves E s (prune_delayed_top_locked t) = moves E s t"
  by (simp add: prune_delayed_top_locked_def)

lemma moves_promote_front: "moves promote_edges s (promote_front s)"
  by (auto simp: promote_front_def transition_eq Let_def intro!: moves_set_state)

lemma moves_promote_loop: "moves promote_edges s (promote_loop now s)"
proof (induction now s rule: promote_loop.induct)
  case (1 now s)
  show ?case
    by (subst promote_loop.simps) (auto intro: moves_repeat [OF moves_promote_front 1])
qed

lemma moves_promote_due: "moves promote_edges s (promote_due_locked now s)"
  unfolding promote_due_locked_def by (rule moves_repeat [OF _ moves_promote_loop]) auto

lemma moves_take_queue: "take_queue n q batch s = (q', batch', s') \<Longrightarrow> moves take_edges s s'"
proof (induction n q batch s rule: take_queue.induct)
  case (2 n e q batch s)
  obtain ok t where t: "transition (e_control e) queued_ready ready_snapshot s = (ok, t)"
    by (cases "transition (e_control e) queued_ready ready_snapshot s")
  have "moves take_edges s t" by (rule moves_transition [OF t]) simp
  then show ?case using 2 t by (auto split: if_splits intro: moves_repeat)
qed simp

lemma moves_take_from: "moves take_edges s (snd (take_from n i (batch, s)))"
  using moves_take_queue [of n "tm_ready s i" batch s]
  by (simp add: take_from_def split: prod.splits)

lemma moves_take_batch: "moves take_edges s (snd (take_ready_batch_locked n s))"
proof -
  let ?p1 = "take_from n 0 ([], s)"
  let ?p2 = "take_from n 1 ?p1"
  have "moves take_edges s (snd ?p1)" by (rule moves_take_from)
  then have "moves take_edges s (snd ?p2)"
    by (rule moves_repeat) (use moves_take_from [of "snd ?p1" n 1 "fst ?p1"] in auto)
  then have "moves take_edges s (snd (take_from n 2 ?p2))"
    by (rule moves_repeat) (use moves_take_from [of "snd ?p2" n 2 "fst ?p2"] in auto)
  then show ?thesis by (simp add: take_ready_batch_locked_def)
qed

lemma moves_take_snapshot: "moves snapshot_edges s (snd (take_snapshot now n s))"
  unfolding take_snapshot_def by (rule moves_trans [OF moves_promote_due moves_take_batch]) auto

lemma moves_start_entry: "start_entry e s = (ok, s') \<Longrightarrow> moves start_edges s s'"
  by (auto simp: start_entry_def intro: moves_transition)

lemma moves_uncount [simp]: "moves E s (uncount_started e t) = moves E s t"
  by (simp add: uncount_started_def)

lemma moves_enqueue_existing:
  "moves {} s t \<Longrightarrow> moves finish_edges s (enqueue_existing_locked now e due t)"
  by (auto simp: enqueue_existing_eq entry_state_def Let_def intro!: moves_set_state
      intro: moves_mono [OF _ empty_subsetI])

lemma moves_finish_after_success: "moves finish_edges s (finish_after_success now1 now2 e s)"
  by (auto simp: finish_after_success_def transition_entry Let_def entry_state_def
      intro!: moves_enqueue_existing moves_set_state)

lemma moves_finish_after_exception: "moves finish_edges s (finish_after_exception e s)"
  by (auto simp: finish_after_exception_def transition_entry Let_def entry_state_def
      intro!: moves_set_state)

lemma moves_restore_unrun: "moves restore_edges s (restore_unrun es s)"
proof (induction es)
  case (Cons e es)
  have "moves restore_edges t (restore_one e t)" for t
    by (auto simp: restore_one_def transition_eq intro!: moves_set_state)
  then show ?case using Cons by (auto simp: restore_unrun_def intro: moves_repeat)
qed (simp add: restore_unrun_def)

lemma cancel_edges_chain: "cancel_edges O cancel_edges \<subseteq> cancel_edges"
  by auto

lemma moves_cancel_transition:
  "transition r v cancelled s = (ok, t) \<Longrightarrow> v \<noteq> cancelled \<Longrightarrow> v \<noteq> completed \<Longrightarrow> moves cancel_edges s t"
  by (rule moves_mono [OF moves_transition]) auto

lemma moves_clear_queue: "clear_queue q (k, s) = (k', s') \<Longrightarrow> moves cancel_edges s s'"
proof (induction q arbitrary: k s)
  case (Cons e q)
  obtain ok t where t: "transition (e_control e) queued_ready cancelled s = (ok, t)"
    by (cases "transition (e_control e) queued_ready cancelled s")
  show ?case
    using Cons.prems t Cons.IH [of k t] moves_cancel_transition [OF t] Cons.IH [of "Suc k"
      "index_erase (e_id e) (decrement_pending_count (decrement_ready_count t))"]
    by (auto split: if_splits intro: moves_repeat [OF _ _ cancel_edges_chain])
qed simp

lemma moves_clear_heap: "clear_heap h (k, s) = (k', s') \<Longrightarrow> moves cancel_edges s s'"
proof (induction h arbitrary: k s)
  case (Cons e h)
  obtain ok t where t: "transition (e_control e) queued_delayed cancelled s = (ok, t)"
    by (cases "transition (e_control e) queued_delayed cancelled s")
  show ?case
    using Cons.prems t Cons.IH [of k t] moves_cancel_transition [OF t]
      Cons.IH [of "Suc k" "index_erase (e_id e) (decrement_pending_count t)"]
    by (auto split: if_splits intro: moves_repeat [OF _ _ cancel_edges_chain])
qed simp

lemma moves_clear_ready: "moves cancel_edges (snd p) (snd (clear_ready i p))"
  using moves_clear_queue [of "tm_ready (snd p) i" "fst p" "snd p"]
  by (simp add: clear_ready_def split: prod.splits)

lemma moves_clear_pending: "moves cancel_edges s (snd (clear_pending s))"
proof -
  let ?p2 = "clear_ready 2 (clear_ready 1 (clear_ready 0 (0, s)))"
  let ?p3 = "clear_heap (tm_heap (snd ?p2)) ?p2"
  note chain = moves_repeat [OF _ _ cancel_edges_chain]
  have "moves cancel_edges s (snd ?p2)"
    by (rule chain [OF chain [OF _ moves_clear_ready] moves_clear_ready])
      (rule moves_clear_ready [of "(0, s)", unfolded snd_conv])
  moreover have "moves cancel_edges (snd ?p2) (snd ?p3)"
    by (rule moves_clear_heap [of _ "fst ?p2" _ "fst ?p3"]) simp
  ultimately have "moves cancel_edges s (snd ?p3)" by (rule chain)
  then show ?thesis by (simp add: clear_pending_def case_prod_beta)
qed

end
