(* ===== verification/Task_Steps.thy ===== *)
theory Task_Steps
  imports Task_States
begin

text \<open>
  The manager under concurrency, as a step relation. Producers call any operation at any time; a
  \<^verbatim>\<open>process()\<close> call is a frame that advances by the atomic actions of the source (the locked prologue,
  the unlocked compare-exchange that claims a task, the count update, the locked epilogues), and any
  number of frames may be active, nested in callbacks or on several threads. \<^verbatim>\<open>cancel()\<close> is split at its
  state load, because it holds the mutex while the claiming compare-exchange does not take it.
  Runs stay below the wrap of the 64-bit identifier counter.
\<close>

section \<open>States, labels and steps\<close>

datatype 'f phase = Between | Counting "'f Entry" | Calling "'f Entry" | Reporting

datatype 'f frame = Frame (frame_rest: "'f Entry list") (frame_phase: "'f phase")

record ('f, 'z) sys =
  sys_tm :: "('f, 'z) TM_scheme"
  sys_frames :: "'f frame list"
  sys_cancel :: "(TaskId \<times> nat \<times> State) option"

text \<open>\<open>Cancel_result r v ok\<close>: the \<^verbatim>\<open>cancel()\<close> that loaded state \<open>v\<close> of block \<open>r\<close> returns \<open>ok\<close>.\<close>

datatype 'f label = Silent | Started "'f Entry" | Cancel_result nat State bool

definition sys_init :: "nat option \<Rightarrow> ('f, unit) sys" where
  "sys_init n = \<lparr> sys_tm = TaskManager_init n, sys_frames = [], sys_cancel = None \<rparr>"

inductive producer_step :: "('f, 'z) TM_scheme \<Rightarrow> ('f, 'z) TM_scheme \<Rightarrow> bool" where
  "id_headroom 2 s \<Longrightarrow> producer_step s (snd (post t opt s))"
| "id_headroom 2 s \<Longrightarrow> producer_step s (snd (post_at now due t opt s))"
| "id_headroom 2 s \<Longrightarrow> producer_step s (snd (post_every_after now1 now2 delay interval t popt s))"
| "id_headroom (Suc (length ts)) s \<Longrightarrow> producer_step s (snd (post_batch ts opt s))"
| "producer_step s (close s)"
| "producer_step s (set_notifier n s)"
| "producer_step s (reset_notifier s)"
| "producer_step s (set_exception_handler h s)"
| "producer_step s (snd (clear_pending s))"
| "producer_step s (snd (cancel_from_context i s))"
| "producer_step s (snd (reschedule_from_context i due s))"
| "producer_step s (snd (next_deadline s))"

text \<open>
  The steps of one frame. The first argument tells whether the mutex is free, which the actions of
  the source that lock it need.
\<close>

inductive frame_step ::
  "bool \<Rightarrow> 'f frame \<times> ('f, 'z) TM_scheme \<Rightarrow> 'f label \<Rightarrow> 'f frame option \<times> ('f, 'z) TM_scheme \<Rightarrow> bool"
where
  claim: "start_entry e s = (True, s') \<Longrightarrow>
    frame_step m (Frame (e # es) Between, s) (Started e) (Some (Frame es (Counting e)), s')"
| skip: "start_entry e s = (False, s') \<Longrightarrow>
    frame_step m (Frame (e # es) Between, s) Silent (Some (Frame es Between), s')"
| uncount: "frame_step m (Frame es (Counting e), s) Silent
    (Some (Frame es (Calling e)), uncount_started e s)"
| returned: "frame_step True (Frame es (Calling e), s) Silent
    (Some (Frame es Between), finish_after_success now1 now2 e s)"
| threw: "frame_step True (Frame es (Calling e), s) Silent
    (Some (Frame es Reporting), finish_after_exception e s)"
| handled: "frame_step m (Frame es Reporting, s) Silent (Some (Frame es Between), s)"
| rethrown: "frame_step True (Frame es Reporting, s) Silent (None, restore_unrun es s)"
| returns: "frame_step m (Frame [] Between, s) Silent (None, s)"

fun set_frame :: "'f frame list \<Rightarrow> 'f frame option \<Rightarrow> 'f frame list \<Rightarrow> 'f frame list" where
  "set_frame pre None suf = pre @ suf"
| "set_frame pre (Some f) suf = pre @ f # suf"

inductive tm_step :: "('f, 'z) sys \<Rightarrow> 'f label \<Rightarrow> ('f, 'z) sys \<Rightarrow> bool" where
  produce: "sys_cancel g = None \<Longrightarrow> producer_step (sys_tm g) s' \<Longrightarrow>
    tm_step g Silent (g\<lparr>sys_tm := s'\<rparr>)"
| cancel_loads: "sys_cancel g = None \<Longrightarrow> i \<noteq> 0 \<Longrightarrow> tm_index (sys_tm g) i = Some r \<Longrightarrow>
    tm_step g Silent (g\<lparr>sys_cancel := Some (i, r, ctl_state (tm_controls (sys_tm g) r))\<rparr>)"
| cancel_ends: "sys_cancel g = Some (i, r, v) \<Longrightarrow> cancel_loaded i r v (sys_tm g) = (ok, s') \<Longrightarrow>
    tm_step g (Cancel_result r v ok) (g\<lparr>sys_tm := s', sys_cancel := None\<rparr>)"
| process_begins: "sys_cancel g = None \<Longrightarrow> n \<noteq> 0 \<Longrightarrow> take_snapshot now n (sys_tm g) = (batch, s') \<Longrightarrow>
    tm_step g Silent (g\<lparr>sys_tm := s', sys_frames := Frame batch Between # sys_frames g\<rparr>)"
| frame: "sys_frames g = pre @ f # suf \<Longrightarrow>
    frame_step (sys_cancel g = None) (f, sys_tm g) l (f', s') \<Longrightarrow>
    tm_step g l (g\<lparr>sys_tm := s', sys_frames := set_frame pre f' suf\<rparr>)"

inductive tm_run :: "('f, 'z) sys \<Rightarrow> 'f label list \<Rightarrow> ('f, 'z) sys \<Rightarrow> bool" where
  run_nil: "tm_run g [] g"
| run_cons: "tm_step g l g' \<Longrightarrow> tm_run g' ls g'' \<Longrightarrow> tm_run g (l # ls) g''"

inductive_cases tm_run_ConsE: "tm_run g (l # ls) g'"
inductive_cases tm_run_NilE: "tm_run g [] g'"

lemma tm_run_append:
  "tm_run g ls h \<Longrightarrow> tm_run h ms k \<Longrightarrow> tm_run g (ls @ ms) k"
  by (induction rule: tm_run.induct) (auto intro: run_cons)

lemma tm_run_split:
  "tm_run g (ls @ ms) k \<Longrightarrow> \<exists>h. tm_run g ls h \<and> tm_run h ms k"
proof (induction ls arbitrary: g)
  case (Cons l ls)
  obtain g' where "tm_step g l g'" "tm_run g' (ls @ ms) k"
    using Cons.prems by (auto elim: tm_run_ConsE)
  with Cons.IH show ?case by (meson run_cons)
qed (auto intro: run_nil)

section \<open>The invariant of a run\<close>

fun counting_of :: "'f phase \<Rightarrow> 'f Entry list" where
  "counting_of (Counting e) = [e]"
| "counting_of _ = []"

fun calling_of :: "'f phase \<Rightarrow> 'f Entry list" where
  "calling_of (Calling e) = [e]"
| "calling_of _ = []"

definition held :: "'f frame list \<Rightarrow> 'f Entry list" where
  "held fs = concat (map frame_rest fs)"

definition claimed :: "'f frame list \<Rightarrow> 'f Entry list" where
  "claimed fs = concat (map (counting_of \<circ> frame_phase) fs)"

definition running :: "'f frame list \<Rightarrow> 'f Entry list" where
  "running fs = concat (map (calling_of \<circ> frame_phase) fs)"

definition sys_inv :: "('f, 'z) sys \<Rightarrow> bool" where
  "sys_inv g \<longleftrightarrow>
     tm_inv (held (sys_frames g)) (claimed (sys_frames g)) (running (sys_frames g)) (sys_tm g) \<and>
     (case sys_cancel g of None \<Rightarrow> True | Some (i, r, v) \<Rightarrow> tm_index (sys_tm g) i = Some r)"

lemma frames_simps [simp]:
  "held [] = []" "claimed [] = []" "running [] = []"
  "held (Frame es p # fs) = es @ held fs"
  "claimed (Frame es p # fs) = counting_of p @ claimed fs"
  "running (Frame es p # fs) = calling_of p @ running fs"
  by (simp_all add: held_def claimed_def running_def)

lemma frames_append:
  "held (fs @ gs) = held fs @ held gs"
  "claimed (fs @ gs) = claimed fs @ claimed gs"
  "running (fs @ gs) = running fs @ running gs"
  by (simp_all add: held_def claimed_def running_def)

lemma sys_inv_init: "sys_inv (sys_init n)"
  by (simp add: sys_inv_def sys_init_def tm_inv_init)

lemma tm_inv_next_deadline: "tm_inv H S X s \<Longrightarrow> tm_inv H S X (snd (next_deadline s))"
  by (simp add: next_deadline_def Let_def tm_inv_prune)

lemma id_headroom_nonzero: "id_headroom 2 s \<Longrightarrow> tm_next_id s \<noteq> 0"
  by (simp add: id_headroom_def)

lemma id_headroom_mono: "id_headroom (Suc k) s \<Longrightarrow> id_headroom k s"
  by (simp add: id_headroom_def)

lemma producer_step_inv:
  assumes "producer_step s s'" "tm_inv H S X s"
  shows "tm_inv H S X s'"
  using assms
proof cases
  case (9)
  then show ?thesis using assms(2) tm_inv_clear_pending [of H S X s] by (cases "clear_pending s") auto
qed (use assms(2) in \<open>simp_all add: tm_inv_intros tm_inv_next_deadline id_headroom_nonzero
    id_headroom_mono\<close>)

text \<open>One frame with the rest of the frames around it.\<close>

lemma frame_step_inv:
  assumes "frame_step m (f, s) l (f', s')"
    and "tm_inv (held (f # fs)) (claimed (f # fs)) (running (f # fs)) s"
  shows "tm_inv (held (set_frame [] f' fs)) (claimed (set_frame [] f' fs))
    (running (set_frame [] f' fs)) s'"
  using assms
proof cases
  case (claim e es)
  then show ?thesis
    using assms(2) tm_inv_start_entry [of e "es @ held fs" "claimed fs" "running fs" s True s'] by simp
next
  case (skip e es)
  then show ?thesis
    using assms(2) tm_inv_start_entry [of e "es @ held fs" "claimed fs" "running fs" s False s'] by simp
qed (use assms(2) in \<open>simp_all add: tm_inv_uncount_started tm_inv_finish_after_success
    tm_inv_finish_after_exception tm_inv_restore_unrun\<close>)

lemma frames_focus:
  "tm_inv (held (pre @ fs)) (claimed (pre @ fs)) (running (pre @ fs)) s =
   tm_inv (held (fs @ pre)) (claimed (fs @ pre)) (running (fs @ pre)) s"
  by (rule tm_inv_perm) (simp_all add: frames_append)

lemma set_frame_focus: "set_frame pre f suf = pre @ set_frame [] f suf"
  by (cases f) simp_all

lemma set_frame_tail: "set_frame [] f (suf @ fs) = set_frame [] f suf @ fs"
  by (cases f) simp_all

text \<open>The steps that do not take the mutex leave the index alone.\<close>

lemma frame_step_index:
  "frame_step False (f, s) l (f', s') \<Longrightarrow> tm_index s' = tm_index s"
  by (erule frame_step.cases)
    (auto simp: start_entry_def transition_eq uncount_started_def decrement_pending_count_def)

lemma cancel_loaded_inv:
  "cancel_loaded i r v s = (ok, s') \<Longrightarrow> tm_inv H S X s \<Longrightarrow> tm_index s i = Some r \<Longrightarrow> tm_inv H S X s'"
  using tm_inv_cancel_loaded [of H S X s i r v] by simp

lemma tm_step_inv:
  assumes "tm_step g l g'" "sys_inv g"
  shows "sys_inv g'"
  using assms
proof cases
  case (produce s')
  then show ?thesis using assms(2) producer_step_inv by (auto simp: sys_inv_def)
next
  case (cancel_loads i r)
  then show ?thesis using assms(2) by (simp add: sys_inv_def)
next
  case (cancel_ends i r v ok s')
  then show ?thesis using assms(2) cancel_loaded_inv by (auto simp: sys_inv_def)
next
  case (process_begins n now batch s')
  then show ?thesis using assms(2) tm_inv_take_snapshot by (auto simp: sys_inv_def)
next
  case (frame pre f suf f' s')
  have "tm_inv (held (pre @ f # suf)) (claimed (pre @ f # suf)) (running (pre @ f # suf)) (sys_tm g)"
    using assms(2) frame(2) by (simp add: sys_inv_def)
  then have "tm_inv (held (f # suf @ pre)) (claimed (f # suf @ pre)) (running (f # suf @ pre)) (sys_tm g)"
    unfolding frames_focus [of pre "f # suf"] by simp
  from frame_step_inv [OF frame(3) this]
  have "tm_inv (held (set_frame pre f' suf)) (claimed (set_frame pre f' suf))
      (running (set_frame pre f' suf)) s'"
    unfolding set_frame_focus [of pre f' suf] frames_focus [of pre] set_frame_tail .
  moreover have "tm_index s' = tm_index (sys_tm g)" if "sys_cancel g \<noteq> None"
    using frame_step_index frame(3) that by fastforce
  ultimately show ?thesis
    using assms(2) frame(1) by (auto simp: sys_inv_def split: option.splits)
qed

lemma tm_run_inv: "tm_run g ls g' \<Longrightarrow> sys_inv g \<Longrightarrow> sys_inv g'"
  by (induction rule: tm_run.induct) (auto intro: tm_step_inv)

section \<open>States along a run\<close>

text \<open>
  The edges of the steps without a label: everything but the claim, which is the only way into
  \<^verbatim>\<open>executing\<close>.
\<close>

abbreviation silent_edges :: "(State \<times> State) set" where
  "silent_edges \<equiv> cancel_edges \<union> snapshot_edges \<union> finish_edges \<union> restore_edges"

lemma producer_step_moves: "producer_step s s' \<Longrightarrow> moves cancel_edges s s'"
  by (erule producer_step.cases)
    (simp_all add: moves_post [THEN moves_mono] moves_post_at [THEN moves_mono]
      moves_post_every_after [THEN moves_mono] moves_post_batch [THEN moves_mono]
      moves_cancel_from_context moves_reschedule [THEN moves_mono] moves_clear_pending
      close_def set_notifier_def reset_notifier_def set_exception_handler_def next_deadline_def Let_def)

lemma frame_step_silent:
  "frame_step m (f, s) Silent (f', s') \<Longrightarrow> moves (finish_edges \<union> restore_edges) s s'"
  by (erule frame_step.cases)
    (auto simp: start_entry_def transition_eq moves_finish_after_success [THEN moves_mono]
      moves_finish_after_exception [THEN moves_mono] moves_restore_unrun [THEN moves_mono])

inductive_cases frame_step_StartedE: "frame_step m (f, s) (Started e) (f', s')"
inductive_cases frame_step_CancelE: "frame_step m (f, s) (Cancel_result r v ok) (f', s')"

lemma tm_step_silent:
  assumes "tm_step g Silent g'"
  shows "moves silent_edges (sys_tm g) (sys_tm g')"
  using assms
proof cases
  case (produce s')
  then show ?thesis by (auto intro: moves_mono [OF producer_step_moves])
next
  case (process_begins n now batch s')
  then show ?thesis
    using moves_take_snapshot [of "sys_tm g" now n] by (auto intro: moves_mono)
next
  case (frame pre f suf f' s')
  then show ?thesis by (auto intro: moves_mono [OF frame_step_silent])
qed simp

lemma tm_step_claims:
  "tm_step g (Started e) g' \<Longrightarrow> start_entry e (sys_tm g) = (True, sys_tm g')"
  by (erule tm_step.cases) (auto elim: frame_step_StartedE)

lemma tm_step_cancels:
  "tm_step g (Cancel_result r v ok) g' \<Longrightarrow>
     \<exists>i. cancel_loaded i r v (sys_tm g) = (ok, sys_tm g')"
  by (erule tm_step.cases) (auto elim: frame_step_CancelE)

lemma tm_step_path:
  assumes "tm_step g l g'"
  shows "ctl_path (sys_tm g) (sys_tm g')"
proof (cases l)
  case Silent
  then show ?thesis using tm_step_silent assms by (auto intro: moves_mono)
next
  case (Started e)
  then show ?thesis
    using moves_start_entry [OF tm_step_claims] assms by (auto intro: moves_mono)
next
  case (Cancel_result r v ok)
  then obtain i where "cancel_loaded i r v (sys_tm g) = (ok, sys_tm g')"
    using tm_step_cancels assms by blast
  then show ?thesis using moves_cancel_loaded [of "sys_tm g" i r v] by (auto intro: moves_mono)
qed

lemma tm_run_path: "tm_run g ls g' \<Longrightarrow> ctl_path (sys_tm g) (sys_tm g')"
  by (induction rule: tm_run.induct) (auto dest: tm_step_path intro: ctl_path_trans)

text \<open>Claims and successful cancellations, seen from a step.\<close>

lemma step_started:
  assumes "tm_step g (Started e) g'" "sys_inv g"
  shows "entry_state (sys_tm g) e = ready_snapshot" "e_control e < tm_next_control (sys_tm g)"
proof -
  obtain pre es suf where f: "sys_frames g = pre @ Frame (e # es) Between # suf"
      and s: "fst (start_entry e (sys_tm g))"
    using assms(1) by cases (auto elim: frame_step.cases)
  show "entry_state (sys_tm g) e = ready_snapshot"
    using s by (simp add: start_entry_def transition_entry)
  have "(In_snapshot, e) \<in># located (held (sys_frames g)) (claimed (sys_frames g))
      (running (sys_frames g)) (sys_tm g)"
    by (simp add: f frames_append located_def)
  then show "e_control e < tm_next_control (sys_tm g)"
    using assms(2) placed_inv_entry [OF tm_invD(1)]
    unfolding sys_inv_def by (fastforce simp: entry_ok_def)
qed

lemma step_cancelled:
  assumes "tm_step g (Cancel_result r v True) g'" "sys_inv g"
  shows "ctl_state (tm_controls (sys_tm g') r) = cancelled" "r < tm_next_control (sys_tm g)"
proof -
  obtain i s' where c: "sys_cancel g = Some (i, r, v)" "cancel_loaded i r v (sys_tm g) = (True, s')"
      "g' = g\<lparr>sys_tm := s', sys_cancel := None\<rparr>"
    using assms(1) by cases (auto elim: frame_step.cases)
  then show "ctl_state (tm_controls (sys_tm g') r) = cancelled"
    by (auto simp: cancel_loaded_eq split: if_splits)
  have inv: "placed_inv (located (held (sys_frames g)) (claimed (sys_frames g))
      (running (sys_frames g)) (sys_tm g)) (sys_tm g)" and r: "tm_index (sys_tm g) i = Some r"
    using assms(2) c(1) by (simp_all add: sys_inv_def tm_inv_def)
  obtain p e B where M: "located (held (sys_frames g)) (claimed (sys_frames g))
      (running (sys_frames g)) (sys_tm g) = add_mset (p, e) B" "e_control e = r"
    by (rule placed_inv_find [OF inv r])
  then show "r < tm_next_control (sys_tm g)"
    using placed_inv_entry [OF inv, of "(p, e)"] by (simp add: entry_ok_def)
qed

lemma no_start_when_final:
  assumes "tm_run g ls g'" "sys_inv g" "r < tm_next_control (sys_tm g)"
    and "\<not> live_block (sys_tm g) r" and "Started e \<in> set ls"
  shows "e_control e \<noteq> r"
  using assms
proof (induction rule: tm_run.induct)
  case (run_cons g l g' ls g'')
  note path = tm_step_path [OF run_cons.hyps(1)]
  have "\<not> live_block (sys_tm g') r"
    using run_cons.prems(3) ctl_path_final [OF path run_cons.prems(2)] by (auto simp: live_block_def)
  note later = run_cons.IH [OF tm_step_inv [OF run_cons.hyps(1) run_cons.prems(1)]
      moves_next [OF path run_cons.prems(2)] this]
  have "e_control e \<noteq> r" if "l = Started e"
    using step_started(1) [OF run_cons.hyps(1) [unfolded that] run_cons.prems(1)] run_cons.prems(3)
    by (auto simp: live_block_def entry_state_def)
  then show ?case using run_cons.prems(4) later by auto
qed simp

end
