(* ===== verification/Task_Order.thy ===== *)
theory Task_Order
  imports Task_Inv_Process
begin

text \<open>
  What promotion, the snapshot, the restoration after an exception and the deadline query compute,
  against list-level reference definitions.
\<close>

section \<open>Reference definitions\<close>

definition in_state :: "('f, 'z) TM_scheme \<Rightarrow> State \<Rightarrow> 'f Entry \<Rightarrow> bool" where
  "in_state s v e \<longleftrightarrow> entry_state s e = v"

definition live_in :: "('f, 'z) TM_scheme \<Rightarrow> State \<Rightarrow> 'f Entry list \<Rightarrow> 'f Entry list" where
  "live_in s v es = filter (in_state s v) es"

text \<open>All ready entries, in the order in which the priorities and queues offer them.\<close>

definition ready_list :: "('f, 'z) TM_scheme \<Rightarrow> 'f Entry list" where
  "ready_list s = tm_ready s 0 @ tm_ready s 1 @ tm_ready s 2"

definition of_priority :: "nat \<Rightarrow> 'f Entry list \<Rightarrow> 'f Entry list" where
  "of_priority q es = filter (\<lambda>e. priority_index (e_priority e) = q) es"

definition live_delayed :: "('f, 'z) TM_scheme \<Rightarrow> 'f Entry multiset" where
  "live_delayed s = filter_mset (in_state s queued_delayed) (mset (tm_heap s))"

section \<open>Distinct control blocks\<close>

lemma uniq_mset: "uniq (mset xs) \<longleftrightarrow> distinct xs"
  by (induction xs) auto

lemma located_controls:
  assumes inv: "tm_inv H S X s"
  shows "distinct (map e_control (ready_list s @ tm_heap s @ H @ S @ X))"
proof -
  have M: "image_mset (\<lambda>x. e_control (snd x)) (located H S X s) =
      mset (map e_control (ready_list s @ tm_heap s @ H @ S @ X))"
    by (simp add: located_in_place in_place_def image_mset.compositionality comp_def ready_list_def)
  have "uniq (image_mset (\<lambda>x. e_control (snd x)) (located H S X s))"
    using tm_invD(1) [OF inv] by (simp only: placed_inv_def)
  then show ?thesis unfolding M uniq_mset .
qed

lemma located_states:
  assumes "tm_inv H S X s"
  shows "e \<in> set (ready_list s) \<Longrightarrow> entry_state s e = queued_ready \<or> entry_state s e = cancelled"
    "e \<in> set (tm_heap s) \<Longrightarrow> entry_state s e = queued_delayed \<or> entry_state s e = cancelled"
    "e \<in> set H \<Longrightarrow> entry_state s e = ready_snapshot \<or> entry_state s e = cancelled"
  using placed_inv_entry [OF tm_invD(1) [OF assms], of "(In_ready, e)"]
    placed_inv_entry [OF tm_invD(1) [OF assms], of "(In_heap, e)"]
    placed_inv_entry [OF tm_invD(1) [OF assms], of "(In_snapshot, e)"]
  by (auto simp: located_in_place in_place_def ready_list_def entry_ok_def allowed_def image_iff)

section \<open>The snapshot\<close>

lemma live_in_simps [simp]:
  "live_in s v [] = []"
  "live_in s v (e # es) = (if entry_state s e = v then e # live_in s v es else live_in s v es)"
  "live_in s v (es @ fs) = live_in s v es @ live_in s v fs"
  by (simp_all add: live_in_def in_state_def)

lemma live_in_cong:
  "(\<And>e. e \<in> set es \<Longrightarrow> tm_controls s (e_control e) = tm_controls t (e_control e)) \<Longrightarrow>
     live_in s v es = live_in t v es"
  unfolding live_in_def in_state_def entry_state_def by (rule filter_cong) auto

definition marked :: "State \<Rightarrow> 'f Entry list \<Rightarrow> (nat \<Rightarrow> Control) \<Rightarrow> nat \<Rightarrow> Control" where
  "marked v es c = (\<lambda>r. if r \<in> e_control ` set es then (c r)\<lparr>ctl_state := v\<rparr> else c r)"

lemma marked_simps [simp]: "marked v [] c = c"
  by (simp add: marked_def)

lemma marked_append: "marked v (es @ fs) c = marked v fs (marked v es c)"
  by (auto simp: marked_def fun_eq_iff)

lemma take_queue_spec:
  "distinct (map e_control q) \<Longrightarrow> length batch \<le> n \<Longrightarrow> take_queue n q batch s = (q', batch', s') \<Longrightarrow>
     batch' = batch @ take (n - length batch) (live_in s queued_ready q) \<and>
     live_in s queued_ready q' = drop (n - length batch) (live_in s queued_ready q) \<and>
     set q' \<subseteq> set q \<and>
     e_control ` set (take (n - length batch) (live_in s queued_ready q)) \<inter> e_control ` set q' = {} \<and>
     tm_controls s' = marked ready_snapshot (take (n - length batch) (live_in s queued_ready q))
       (tm_controls s) \<and>
     tm_ready s' = tm_ready s \<and> tm_heap s' = tm_heap s"
proof (induction q arbitrary: batch s)
  case (Cons e q)
  show ?case
  proof (cases "length batch = n")
    case True
    then show ?thesis using Cons.prems by auto
  next
    case False
    then obtain k where k: "n - length batch = Suc k" "n - length (batch @ [e]) = k"
        "length (batch @ [e]) \<le> n"
      using Cons.prems(2) by (cases "n - length batch") auto
    have d: "distinct (map e_control q)" "e_control e \<notin> e_control ` set q"
      using Cons.prems(1) by auto
    show ?thesis
    proof (cases "entry_state s e = queued_ready")
      case True
      define t where "t = decrement_ready_count (set_state (e_control e) ready_snapshot s)"
      have t: "tm_controls t = marked ready_snapshot [e] (tm_controls s)" "tm_ready t = tm_ready s"
          "tm_heap t = tm_heap s"
        by (auto simp: t_def marked_def fun_eq_iff)
      have same: "live_in t queued_ready xs = live_in s queued_ready xs" if "set xs \<subseteq> set q" for xs
      proof (rule live_in_cong)
        fix x assume "x \<in> set xs"
        then have "e_control x \<noteq> e_control e" using d(2) that by (metis image_eqI subset_iff)
        then show "tm_controls t (e_control x) = tm_controls s (e_control x)"
          by (simp add: t marked_def)
      qed
      have "take_queue n q (batch @ [e]) t = (q', batch', s')"
        using Cons.prems(3) False True by (simp add: transition_entry t_def)
      note IH = Cons.IH [OF d(1) k(3) this, unfolded k(2)]
      have sub: "set q' \<subseteq> set q" using IH by blast
      have ne: "e_control e \<notin> e_control ` set q'" using d(2) sub by blast
      define b where "b = take k (live_in s queued_ready q)"
      have IH': "batch' = batch @ e # b" "live_in s queued_ready q' = drop k (live_in s queued_ready q)"
          "e_control ` set b \<inter> e_control ` set q' = {}"
          "tm_controls s' = marked ready_snapshot (e # b) (tm_controls s)"
          "tm_ready s' = tm_ready s" "tm_heap s' = tm_heap s"
        using IH t marked_append [of ready_snapshot "[e]" b "tm_controls s"]
        by (simp_all add: same sub b_def)
      have b: "take (n - length batch) (live_in s queued_ready (e # q)) = e # b"
        using True k(1) by (simp add: b_def)
      show ?thesis
        unfolding b using IH' True k(1) sub ne by auto
    next
      case no: False
      then show ?thesis
        using Cons.IH [of batch s] Cons.prems d False by (auto simp: transition_entry)
    qed
  qed
qed auto

text \<open>The three queues of one snapshot, in turn.\<close>

lemma take_from_spec:
  assumes d: "distinct (map e_control (tm_ready s i))" and n: "length batch \<le> n"
    and eq: "take_from n i (batch, s) = (batch', s')"
  defines "b \<equiv> take (n - length batch) (live_in s queued_ready (tm_ready s i))"
  shows "batch' = batch @ b" "tm_controls s' = marked ready_snapshot b (tm_controls s)"
    "tm_heap s' = tm_heap s" "\<And>j. j \<noteq> i \<Longrightarrow> tm_ready s' j = tm_ready s j"
    "live_in s' queued_ready (tm_ready s' i) =
       drop (n - length batch) (live_in s queued_ready (tm_ready s i))"
    "set (tm_ready s' i) \<subseteq> set (tm_ready s i)"
proof -
  obtain q t where t: "take_queue n (tm_ready s i) batch s = (q, batch', t)"
      and s': "s' = t\<lparr>tm_ready := (tm_ready t)(i := q)\<rparr>"
    using eq by (auto simp: take_from_def split: prod.splits)
  note spec = take_queue_spec [OF d n t, folded b_def]
  show "batch' = batch @ b" "tm_controls s' = marked ready_snapshot b (tm_controls s)"
    "tm_heap s' = tm_heap s" "\<And>j. j \<noteq> i \<Longrightarrow> tm_ready s' j = tm_ready s j"
    "set (tm_ready s' i) \<subseteq> set (tm_ready s i)"
    using spec by (simp_all add: s')
  have "live_in s' queued_ready q = live_in s queued_ready q"
    by (rule live_in_cong) (use spec in \<open>auto simp: s' marked_def\<close>)
  then show "live_in s' queued_ready (tm_ready s' i) =
      drop (n - length batch) (live_in s queued_ready (tm_ready s i))"
    using spec by (simp add: s')
qed

lemma marked_other: "e_control e \<notin> e_control ` set es \<Longrightarrow> marked v es c (e_control e) = c (e_control e)"
  by (simp add: marked_def)

lemma set_live_in: "set (live_in s v es) = {e \<in> set es. entry_state s e = v}"
  by (auto simp: live_in_def in_state_def)

lemma live_in_marked:
  assumes "tm_controls t = marked v b (tm_controls s)" "set b \<subseteq> set xs"
    and "e_control ` set xs \<inter> e_control ` set ys = {}"
  shows "live_in t w ys = live_in s w ys"
proof (rule live_in_cong)
  fix e assume "e \<in> set ys"
  then have "e_control e \<notin> e_control ` set b" using assms(2,3) by blast
  then show "tm_controls t (e_control e) = tm_controls s (e_control e)"
    using assms(1) by (simp add: marked_other)
qed

lemma image_apart: "f ` A \<inter> f ` B = {} \<Longrightarrow> A' \<subseteq> A \<Longrightarrow> f ` B \<inter> f ` A' = {}"
  by blast

text \<open>The snapshot takes the first \<open>n\<close> live ready entries and leaves the others.\<close>

lemma take_ready_batch_spec:
  assumes d: "distinct (map e_control (ready_list s))"
    and eq: "take_ready_batch_locked n s = (batch, s')"
  shows "batch = take n (live_in s queued_ready (ready_list s))"
    "live_in s' queued_ready (ready_list s') = drop n (live_in s queued_ready (ready_list s))"
    "tm_controls s' = marked ready_snapshot batch (tm_controls s)" "tm_heap s' = tm_heap s"
proof -
  let ?q = "tm_ready s" and ?l = "\<lambda>i. live_in s queued_ready (tm_ready s i)"
  obtain b0 s0 where 0: "take_from n 0 ([], s) = (b0, s0)" by (cases "take_from n 0 ([], s)")
  obtain b1 s1 where 1: "take_from n 1 (b0, s0) = (b1, s1)" by (cases "take_from n 1 (b0, s0)")
  have 2: "take_from n 2 (b1, s1) = (batch, s')"
    using eq 0 1 by (simp add: take_ready_batch_locked_def)
  have dq: "distinct (map e_control (?q 0))" "distinct (map e_control (?q 1))"
      "distinct (map e_control (?q 2))"
    and dis: "e_control ` set (?q 0) \<inter> e_control ` set (?q 1) = {}"
      "e_control ` set (?q 0) \<inter> e_control ` set (?q 2) = {}"
      "e_control ` set (?q 1) \<inter> e_control ` set (?q 2) = {}"
    using d by (auto simp: ready_list_def)
  have sub: "set (take k (live_in s v xs)) \<subseteq> set xs" for k v and xs :: "'a Entry list"
    using set_take_subset by (fastforce simp: set_live_in dest: in_set_takeD)
  note t0 = take_from_spec [OF dq(1) _ 0, simplified]
  have l01: "live_in s0 w (?q 1) = live_in s w (?q 1)" for w
    by (rule live_in_marked [OF t0(2) sub dis(1)])
  have l02: "live_in s0 w (?q 2) = live_in s w (?q 2)" for w
    by (rule live_in_marked [OF t0(2) sub dis(2)])
  have len0: "length b0 \<le> n" "n - length b0 = n - length (?l 0)" using t0(1) by auto
  have q0: "tm_ready s0 1 = ?q 1" "tm_ready s0 2 = ?q 2" using t0(4) by simp_all
  note t1 = take_from_spec [OF _ len0(1) 1, unfolded q0 l01, OF dq(2)]
  have len1: "length b1 \<le> n" "n - length b1 = n - length (?l 0) - length (?l 1)"
    using t1(1) t0(1) by auto
  have q1: "tm_ready s1 2 = ?q 2" "tm_ready s1 0 = tm_ready s0 0" using t1(4) q0 by simp_all
  have l12: "live_in s1 w (?q 2) = live_in s w (?q 2)" for w
    using live_in_marked [OF t1(2) sub dis(3)] l02 by simp
  note t2 = take_from_spec [OF _ len1(1) 2, unfolded q1 l12, OF dq(3)]
  show "batch = take n (live_in s queued_ready (ready_list s))"
    using t0(1) t1(1) t2(1) len0 len1 by (simp add: ready_list_def)
  show "tm_controls s' = marked ready_snapshot batch (tm_controls s)"
    using t0(1,2) t1(1,2) t2(1,2) by (simp add: marked_append)
  show "tm_heap s' = tm_heap s" using t0(3) t1(3) t2(3) by simp
  have r: "ready_list s' = tm_ready s0 0 @ tm_ready s1 1 @ tm_ready s' 2"
    using t2(4) q1(2) by (simp add: ready_list_def)
  have dis': "e_control ` set (?q 1) \<inter> e_control ` set (tm_ready s0 0) = {}"
      "e_control ` set (?q 2) \<inter> e_control ` set (tm_ready s0 0) = {}"
      "e_control ` set (?q 2) \<inter> e_control ` set (tm_ready s1 1) = {}"
    by (rule image_apart [OF dis(1) t0(6)] image_apart [OF dis(2) t0(6)]
        image_apart [OF dis(3) t1(6)])+
  have later: "live_in s' w (tm_ready s0 0) = live_in s0 w (tm_ready s0 0)"
      "live_in s' w (tm_ready s1 1) = live_in s1 w (tm_ready s1 1)" for w
    using live_in_marked [OF t1(2) sub dis'(1), of w] live_in_marked [OF t2(2) sub dis'(2), of w]
      live_in_marked [OF t2(2) sub dis'(3), of w] by simp_all
  show "live_in s' queued_ready (ready_list s') = drop n (live_in s queued_ready (ready_list s))"
    unfolding r ready_list_def [of s] live_in_simps later t0(5) t1(5) t2(5) len0 len1
    by (simp add: drop_append)
qed

section \<open>Restoring a snapshot\<close>

lemma of_priority_simps [simp]:
  "of_priority q [] = []"
  "of_priority q (e # es) =
     (if priority_index (e_priority e) = q then e # of_priority q es else of_priority q es)"
  by (simp_all add: of_priority_def)

lemma restore_unrun_spec:
  "distinct (map e_control es) \<Longrightarrow>
     (\<forall>q. tm_ready (restore_unrun es s) q =
        of_priority q (live_in s ready_snapshot es) @ tm_ready s q) \<and>
     tm_controls (restore_unrun es s) =
       marked queued_ready (live_in s ready_snapshot es) (tm_controls s) \<and>
     tm_heap (restore_unrun es s) = tm_heap s \<and>
     tm_ready_count (restore_unrun es s) =
       tm_ready_count s + of_nat (length (live_in s ready_snapshot es))"
proof (induction es)
  case (Cons e es)
  let ?t = "restore_unrun es s" and ?l = "live_in s ready_snapshot es"
  have d: "distinct (map e_control es)" "e_control e \<notin> e_control ` set es" using Cons.prems by auto
  note IH = Cons.IH [OF d(1)]
  have nl: "e_control e \<notin> e_control ` set ?l" using d(2) by (auto simp: set_live_in)
  then have c: "tm_controls ?t (e_control e) = tm_controls s (e_control e)"
    using IH by (simp add: marked_other)
  then have st: "entry_state ?t e = entry_state s e" by (simp add: entry_state_def)
  have r: "restore_unrun (e # es) s = restore_one e ?t" by (simp add: restore_unrun_def)
  have m: "marked queued_ready (e # ?l) (tm_controls s) =
      (marked queued_ready ?l (tm_controls s))
        (e_control e := (tm_controls s (e_control e))\<lparr>ctl_state := queued_ready\<rparr>)"
    using nl by (auto simp: marked_def fun_eq_iff)
  show ?case
    using IH st c m
    by (simp add: r restore_one_def transition_entry increment_ready_count_def push_front_ready_def
        Let_def)
qed (simp add: restore_unrun_def)

section \<open>Promotion\<close>

lemma uniq_subset: "A \<subseteq># B \<Longrightarrow> uniq B \<Longrightarrow> uniq A"
  by (auto simp: uniq_def subseteq_mset_def intro: le_trans)

abbreviation not_after :: "'f Entry \<Rightarrow> 'f Entry \<Rightarrow> bool" where
  "not_after a b \<equiv> \<not> DelayedSooner a b"

lemma prune_heap_spec:
  "is_heap DelayedSooner h \<Longrightarrow>
     is_heap DelayedSooner (prune_heap c h) \<and> mset (prune_heap c h) \<subseteq># mset h \<and>
     filter_mset (\<lambda>e. ctl_state (c (e_control e)) = queued_delayed) (mset (prune_heap c h)) =
     filter_mset (\<lambda>e. ctl_state (c (e_control e)) = queued_delayed) (mset h) \<and>
     (prune_heap c h \<noteq> [] \<longrightarrow>
        ctl_state (c (e_control (prune_heap c h ! 0))) \<notin> {cancelled, completed})"
proof (induction c h rule: prune_heap.induct)
  case (1 c h)
  show ?case
  proof (cases "h = [] \<or> ctl_state (c (e_control (h ! 0))) \<notin> {cancelled, completed}")
    case True
    then have "prune_heap c h = h" by (auto simp: prune_heap.simps [of c h])
    then show ?thesis using "1.prems" True by auto
  next
    case False
    let ?t = "butlast (pop_heap DelayedSooner h)"
    have m: "mset h = add_mset (h ! 0) (mset ?t)" using False by (simp add: delayed.mset_pop)
    have "prune_heap c h = prune_heap c ?t"
      using False by (auto simp: prune_heap.simps [of c h])
    moreover have "ctl_state (c (e_control (h ! 0))) \<noteq> queued_delayed" using False by auto
    ultimately show ?thesis
      using "1.IH" False delayed.ok_pop [OF "1.prems"] by (auto simp: m subset_mset.le_imp_less_or_eq
          intro: subset_mset.order_trans)
  qed
qed

text \<open>One promotion: what leaves the heap and what enters the queues.\<close>

definition promoted_of :: "('f, 'z) TM_scheme \<Rightarrow> 'f Entry list" where
  "promoted_of s = (if entry_state s (tm_heap s ! 0) = queued_delayed then [tm_heap s ! 0] else [])"

lemma of_priority_append: "of_priority q (es @ fs) = of_priority q es @ of_priority q fs"
  by (simp add: of_priority_def)

lemma promote_front_spec:
  assumes ne: "tm_heap s \<noteq> []" and ok: "is_heap DelayedSooner (tm_heap s)"
    and d: "distinct (map e_control (tm_heap s))"
  shows "is_heap DelayedSooner (tm_heap (promote_front s))"
    "mset (tm_heap (promote_front s)) \<subseteq># mset (tm_heap s) - {#tm_heap s ! 0#}"
    "live_delayed s = mset (promoted_of s) + live_delayed (promote_front s)"
    "tm_ready (promote_front s) q = tm_ready s q @ of_priority q (promoted_of s)"
    "tm_controls (promote_front s) = marked queued_ready (promoted_of s) (tm_controls s)"
    "tm_ready_count (promote_front s) = tm_ready_count s + of_nat (length (promoted_of s))"
proof -
  let ?e = "tm_heap s ! 0" and ?t = "butlast (pop_heap DelayedSooner (tm_heap s))"
  let ?c = "marked queued_ready (promoted_of s) (tm_controls s)"
  have m: "mset (tm_heap s) = add_mset ?e (mset ?t)" using ne by (simp add: delayed.mset_pop)
  have eq: "promote_front s = (if entry_state s ?e = queued_delayed
      then prune_delayed_top_locked (increment_ready_count (push_back_ready ?e
             (set_state (e_control ?e) queued_ready (s\<lparr>tm_heap := ?t\<rparr>))))
      else prune_delayed_top_locked (s\<lparr>tm_heap := ?t\<rparr>))"
    using delayed.last_pop [OF ne] by (simp add: promote_front_def transition_entry Let_def)
  show c: "tm_controls (promote_front s) = ?c"
    by (auto simp: eq prune_delayed_top_locked_def marked_def promoted_of_def fun_eq_iff)
  show "tm_ready_count (promote_front s) = tm_ready_count s + of_nat (length (promoted_of s))"
    by (simp add: eq prune_delayed_top_locked_def promoted_of_def increment_ready_count_def)
  show "tm_ready (promote_front s) q = tm_ready s q @ of_priority q (promoted_of s)"
    by (simp add: eq prune_delayed_top_locked_def promoted_of_def push_back_ready_def Let_def)
  have h: "tm_heap (promote_front s) = prune_heap ?c ?t"
    using c by (simp add: eq prune_delayed_top_locked_def split: if_splits)
  note spec = prune_heap_spec [OF delayed.ok_pop [OF ok], of ?c, folded h]
  show "is_heap DelayedSooner (tm_heap (promote_front s))" using spec by blast
  show "mset (tm_heap (promote_front s)) \<subseteq># mset (tm_heap s) - {#tm_heap s ! 0#}"
    using spec m by simp
  have "e_control ?e \<notin> e_control ` set ?t"
  proof -
    have "uniq (image_mset e_control (mset (tm_heap s)))" using d by (simp add: uniq_mset [symmetric])
    then show ?thesis unfolding m by simp
  qed
  then have same: "ctl_state (?c (e_control x)) = ctl_state (tm_controls s (e_control x))"
    if "x \<in># mset ?t" for x
  proof -
    have "e_control x \<noteq> e_control ?e" using \<open>e_control ?e \<notin> _\<close> that by (metis image_eqI set_mset_mset)
    then show ?thesis by (auto simp: marked_def promoted_of_def)
  qed
  have "live_delayed (promote_front s) =
      filter_mset (\<lambda>x. ctl_state (?c (e_control x)) = queued_delayed) (mset ?t)"
    using spec by (simp add: live_delayed_def in_state_def [abs_def] entry_state_def c)
  also have "\<dots> = filter_mset (in_state s queued_delayed) (mset ?t)"
    by (rule filter_mset_cong0) (simp add: same in_state_def entry_state_def)
  finally show "live_delayed s = mset (promoted_of s) + live_delayed (promote_front s)"
    by (simp add: live_delayed_def m promoted_of_def in_state_def)
qed

lemma heap_min: "is_heap DelayedSooner h \<Longrightarrow> x \<in> set h \<Longrightarrow> not_after (h ! 0) x"
  by (metis delayed.heap_front in_set_conv_nth)

lemma not_after_due: "not_after a b \<Longrightarrow> e_due a \<le> e_due b"
  by (auto simp: DelayedSooner_def split: if_splits)

text \<open>
  The whole promotion: the live entries that are due leave the heap in the order of \<open>(due, seq)\<close>, each
  to the end of its priority's queue; the later ones stay.
\<close>

lemma promote_loop_spec:
  "is_heap DelayedSooner (tm_heap s) \<Longrightarrow> distinct (map e_control (tm_heap s)) \<Longrightarrow>
   \<exists>es. mset es = filter_mset (\<lambda>e. e_due e \<le> now) (live_delayed s) \<and>
        sorted_wrt not_after es \<and>
        (\<forall>q. tm_ready (promote_loop now s) q = tm_ready s q @ of_priority q es) \<and>
        tm_controls (promote_loop now s) = marked queued_ready es (tm_controls s) \<and>
        live_delayed (promote_loop now s) = filter_mset (\<lambda>e. now < e_due e) (live_delayed s) \<and>
        tm_ready_count (promote_loop now s) = tm_ready_count s + of_nat (length es)"
proof (induction now s rule: promote_loop.induct)
  case (1 now s)
  show ?case
  proof (cases "tm_heap s \<noteq> [] \<and> e_due (tm_heap s ! 0) \<le> now")
    case False
    have "now < e_due x" if "x \<in># live_delayed s" for x
      using that False heap_min [OF "1.prems"(1), of x] not_after_due [of "tm_heap s ! 0" x]
      by (auto simp: live_delayed_def)
    then have "filter_mset (\<lambda>e. e_due e \<le> now) (live_delayed s) = {#}"
      "filter_mset (\<lambda>e. now < e_due e) (live_delayed s) = live_delayed s"
      by (auto simp: filter_mset_eq_conv not_le)
    then show ?thesis
      using False by (subst (1 2 3 4) promote_loop.simps) (auto intro!: exI [of _ "[]"] simp: of_priority_def)
  next
    case True
    let ?t = "promote_front s" and ?e = "tm_heap s ! 0"
    note spec = promote_front_spec [OF _ "1.prems"]
    have ne: "tm_heap s \<noteq> []" using True by simp
    have sub: "set (tm_heap ?t) \<subseteq> set (tm_heap s)"
      using spec(2) [OF ne] by (metis diff_subset_eq_self set_mset_mono set_mset_mset subset_mset.order_trans)
    have "mset (map e_control (tm_heap ?t)) \<subseteq># mset (map e_control (tm_heap s))"
      using image_mset_subseteq_mono [OF subset_mset.order_trans [OF spec(2) [OF ne] diff_subset_eq_self]]
      by (simp only: mset_map)
    then have d: "distinct (map e_control (tm_heap ?t))"
      using "1.prems"(2) by (metis uniq_mset uniq_subset)
    obtain es where es: "mset es = filter_mset (\<lambda>e. e_due e \<le> now) (live_delayed ?t)"
        "sorted_wrt not_after es"
        "\<And>q. tm_ready (promote_loop now ?t) q = tm_ready ?t q @ of_priority q es"
        "tm_controls (promote_loop now ?t) = marked queued_ready es (tm_controls ?t)"
        "live_delayed (promote_loop now ?t) = filter_mset (\<lambda>e. now < e_due e) (live_delayed ?t)"
        "tm_ready_count (promote_loop now ?t) = tm_ready_count ?t + of_nat (length es)"
      using "1.IH" [OF True spec(1) [OF ne] d] by blast
    have loop: "promote_loop now s = promote_loop now ?t"
      using True by (subst promote_loop.simps) simp
    have "not_after ?e x" if "x \<in> set es" for x
    proof -
      have "x \<in># mset es" using that by simp
      then have "x \<in> set (tm_heap ?t)" unfolding es(1) by (simp add: live_delayed_def)
      then show ?thesis using sub heap_min [OF "1.prems"(1)] by blast
    qed
    then have sorted: "sorted_wrt not_after (promoted_of s @ es)"
      using es(2) by (simp add: promoted_of_def)
    have due: "filter_mset (\<lambda>e. e_due e \<le> now) (mset (promoted_of s)) = mset (promoted_of s)"
      "filter_mset (\<lambda>e. now < e_due e) (mset (promoted_of s)) = {#}"
      using True by (simp_all add: promoted_of_def)
    show ?thesis
    proof (intro exI [of _ "promoted_of s @ es"] conjI allI)
      show "mset (promoted_of s @ es) = filter_mset (\<lambda>e. e_due e \<le> now) (live_delayed s)"
        by (simp add: spec(3) [OF ne] due es(1))
      show "sorted_wrt not_after (promoted_of s @ es)" by (rule sorted)
      show "tm_ready (promote_loop now s) q = tm_ready s q @ of_priority q (promoted_of s @ es)" for q
        by (simp add: loop es(3) spec(4) [OF ne] of_priority_append)
      show "tm_controls (promote_loop now s) = marked queued_ready (promoted_of s @ es) (tm_controls s)"
        by (simp add: loop es(4) spec(5) [OF ne] marked_append)
      show "live_delayed (promote_loop now s) = filter_mset (\<lambda>e. now < e_due e) (live_delayed s)"
        by (simp add: loop es(5) spec(3) [OF ne] due)
      show "tm_ready_count (promote_loop now s) = tm_ready_count s + of_nat (length (promoted_of s @ es))"
        by (simp add: loop es(6) spec(6) [OF ne])
    qed
  qed
qed

lemma prune_delayed_spec:
  assumes "is_heap DelayedSooner (tm_heap s)"
  shows "is_heap DelayedSooner (tm_heap (prune_delayed_top_locked s))"
    "mset (tm_heap (prune_delayed_top_locked s)) \<subseteq># mset (tm_heap s)"
    "live_delayed (prune_delayed_top_locked s) = live_delayed s"
    "tm_heap (prune_delayed_top_locked s) \<noteq> [] \<longrightarrow>
       entry_state s (tm_heap (prune_delayed_top_locked s) ! 0) \<notin> {cancelled, completed}"
  using prune_heap_spec [OF assms, of "tm_controls s"]
  by (simp_all add: prune_delayed_top_locked_def live_delayed_def in_state_def [abs_def]
      entry_state_def)

lemma distinct_sub_heap:
  assumes "distinct (map f xs)" "mset ys \<subseteq># mset xs" shows "distinct (map f ys)"
  using assms image_mset_subseteq_mono [of "mset ys" "mset xs" f] by (metis mset_map uniq_mset uniq_subset)

lemma promote_due_spec:
  assumes inv: "tm_inv H S X s"
  shows "\<exists>es. mset es = filter_mset (\<lambda>e. e_due e \<le> now) (live_delayed s) \<and>
        sorted_wrt not_after es \<and>
        (\<forall>q. tm_ready (promote_due_locked now s) q = tm_ready s q @ of_priority q es) \<and>
        tm_controls (promote_due_locked now s) = marked queued_ready es (tm_controls s) \<and>
        live_delayed (promote_due_locked now s) = filter_mset (\<lambda>e. now < e_due e) (live_delayed s) \<and>
        tm_ready_count (promote_due_locked now s) = tm_ready_count s + of_nat (length es)"
proof -
  note p = prune_delayed_spec [OF tm_invD(2) [OF inv]]
  have "distinct (map e_control (tm_heap s))" using located_controls [OF inv] by simp
  then have d: "distinct (map e_control (tm_heap (prune_delayed_top_locked s)))"
    by (rule distinct_sub_heap [OF _ p(2)])
  have same: "tm_ready (prune_delayed_top_locked s) = tm_ready s"
      "tm_controls (prune_delayed_top_locked s) = tm_controls s"
      "tm_ready_count (prune_delayed_top_locked s) = tm_ready_count s"
    by (simp_all add: prune_delayed_top_locked_def)
  show ?thesis
    using promote_loop_spec [OF p(1) d, of now] unfolding promote_due_locked_def p(3) same .
qed

section \<open>The next deadline\<close>

lemma next_deadline_spec:
  assumes inv: "tm_inv H S X s"
  shows "fst (next_deadline s) =
    (if live_delayed s = {#} then None else Some (Min (e_due ` set_mset (live_delayed s))))"
proof -
  let ?t = "prune_delayed_top_locked s"
  note p = prune_delayed_spec [OF tm_invD(2) [OF inv]]
  show ?thesis
  proof (cases "tm_heap ?t = []")
    case True
    then have "live_delayed s = {#}" using p(3) by (simp add: live_delayed_def)
    then show ?thesis using True by (simp add: next_deadline_def Let_def)
  next
    case False
    let ?e = "tm_heap ?t ! 0"
    have heap: "?e \<in> set (tm_heap ?t)" using False by simp
    then have "?e \<in> set (tm_heap s)" using p(2) by (metis in_multiset_in_set mset_subset_eqD)
    then have "entry_state s ?e = queued_delayed"
      using located_states(2) [OF inv] p(4) False by blast
    then have live: "?e \<in># live_delayed s"
      using heap unfolding p(3) [symmetric]
      by (simp add: live_delayed_def in_state_def entry_state_def prune_delayed_top_locked_def)
    have "e_due ?e \<le> e_due x" if "x \<in># live_delayed s" for x
      using that heap_min [OF p(1), of x] unfolding p(3) [symmetric]
      by (intro not_after_due) (simp add: live_delayed_def)
    then have "Min (e_due ` set_mset (live_delayed s)) = e_due ?e"
      using live by (intro Min_eqI) auto
    then show ?thesis using False live by (auto simp: next_deadline_def Let_def)
  qed
qed

end
