(* ===== verification/Task_Examples.thy ===== *)
theory Task_Examples
  imports Task_Steps Task_Order
begin

text \<open>
  Concrete managers, evaluated step by step, on which the properties are applied: \<open>two_tasks\<close> holds
  a one-shot and a periodic task, \<open>snapshot_state\<close> is the manager after a \<^verbatim>\<open>process()\<close> call took
  both of them, and \<open>cancelled_state\<close> after the one-shot task was cancelled inside that snapshot.
\<close>

definition one_task :: "nat TM" where
  "one_task = snd (post (NoArgModel 7) default_TaskOptions (TaskManager_init None))"

definition two_tasks :: "nat TM" where
  "two_tasks = snd (post_every_after 0 0 0 10 (NoArgModel 8) default_PeriodicTaskOptions one_task)"

definition snapshot_of_two :: "nat Entry list" where
  "snapshot_of_two = fst (take_snapshot 0 10 two_tasks)"

definition snapshot_state :: "nat TM" where
  "snapshot_state = snd (take_snapshot 0 10 two_tasks)"

definition cancelled_state :: "nat TM" where
  "cancelled_state = snd (cancel_loaded 1 0 ready_snapshot snapshot_state)"

definition first_entry :: "nat Entry" where "first_entry = snapshot_of_two ! 0"
definition second_entry :: "nat Entry" where "second_entry = snapshot_of_two ! 1"

definition claimed_state :: "nat TM" where
  "claimed_state = snd (start_entry second_entry cancelled_state)"

lemmas post_eval =
  post_def post_every_after_def post_at_def enqueue_ready_def enqueue_ready_locked_def
  enqueue_delayed_locked_def
  enqueue_periodic_locked_def notify_if_accepted_def notify_work_available_def
  tm_update_defs next_id_step_def fetch_add_def index_emplace_def TaskManager_init_def
  default_TaskOptions_def default_PeriodicTaskOptions_def

lemmas one_task_eq = one_task_def [simplified post_eval, simplified]
lemmas two_tasks_eq = two_tasks_def [unfolded one_task_def, simplified post_eval, simplified]

lemma promote_loop_no_heap: "tm_heap s = [] \<Longrightarrow> promote_loop now s = s"
  by (subst promote_loop.simps) simp

lemmas process_eval =
  take_snapshot_def promote_due_locked_def prune_delayed_top_locked_def promote_loop_no_heap
  prune_heap.simps [of _ "[]"] take_ready_batch_locked_def take_from_def transition_eq
  tm_update_defs

lemma snapshot_eval:
  "map e_id snapshot_of_two = [1, 2]" "map e_control snapshot_of_two = [0, 1]"
  "e_periodic second_entry" "e_schedule second_entry = fixed_delay" "e_interval second_entry = 10"
  "tm_index snapshot_state = [1 \<mapsto> 0, 2 \<mapsto> 1]"
  "tm_controls snapshot_state 0 = \<lparr> ctl_id = 1, ctl_periodic = False, reschedule_requested = False,
     reschedule_due = 0, ctl_state = ready_snapshot \<rparr>"
  "tm_controls snapshot_state 1 = \<lparr> ctl_id = 2, ctl_periodic = True, reschedule_requested = False,
     reschedule_due = 0, ctl_state = ready_snapshot \<rparr>"
  "\<not> tm_closed snapshot_state" "tm_handler snapshot_state = None"
  by (simp_all add: snapshot_of_two_def snapshot_state_def second_entry_def two_tasks_eq
      process_eval)

lemma snapshot_entries:
  "snapshot_of_two = [first_entry, second_entry]"
  "e_id first_entry = 1" "e_control first_entry = 0" "e_id second_entry = 2" "e_control second_entry = 1"
proof -
  have "length snapshot_of_two = 2" using snapshot_eval(1) by (metis length_map length_Cons list.size(3) numeral_2_eq_2)
  then show two: "snapshot_of_two = [first_entry, second_entry]"
    by (simp add: list_eq_iff_nth_eq first_entry_def second_entry_def less_Suc_eq numeral_2_eq_2)
  show "e_id first_entry = 1" "e_control first_entry = 0" "e_id second_entry = 2"
    "e_control second_entry = 1"
    using snapshot_eval(1,2) by (simp_all add: two)
qed

lemma snapshot_facts:
  "tm_index snapshot_state 1 = Some 0" "ctl_state (tm_controls snapshot_state 0) = ready_snapshot"
  "fst (cancel_loaded 1 0 ready_snapshot snapshot_state)"
  "entry_state cancelled_state first_entry = cancelled"
  "entry_state cancelled_state second_entry = ready_snapshot"
  "tm_index cancelled_state 2 = Some 1" "ctl_state (tm_controls cancelled_state 1) = ready_snapshot"
  "\<not> reschedule_requested (tm_controls cancelled_state 1)" "\<not> tm_closed cancelled_state"
  using snapshot_eval(7,8)
  by (simp_all add: snapshot_eval snapshot_entries cancel_loaded_eq cancelled_state_def
      entry_state_def)

end
