(* ===== verification/Task_Theorems.thy ===== *)
theory Task_Theorems
  imports Task_Examples
begin

text \<open>
  The correctness properties of the task manager: first those of arbitrary concurrent runs, then the
  functional behaviour of each operation.
\<close>

section \<open>Counting\<close>

lemma sum_indicator:
  "(\<Sum>x \<in># mset es. if P x then (1::u64) else 0) = of_nat (length (filter P es))"
  by (induction es) simp_all

definition not_cancelled :: "('f, 'z) TM_scheme \<Rightarrow> 'f Entry list \<Rightarrow> 'f Entry list" where
  "not_cancelled s es = filter (\<lambda>e. entry_state s e \<noteq> cancelled) es"

lemma in_place_sums:
  "(\<Sum>x \<in># in_place p es. f x) = (\<Sum>e \<in># mset es. f (p, e))"
  by (simp add: in_place_def image_mset.compositionality comp_def)

text \<open>The two counters of a manager, as numbers of entries.\<close>

lemma tm_inv_counts:
  assumes "tm_inv H S X s"
  shows "ready_count s = of_nat (length (not_cancelled s (ready_list s)))"
    "pending_count s =
       of_nat (length (not_cancelled s (ready_list s @ tm_heap s @ H)) +
               length (filter (\<lambda>e. \<not> e_periodic e \<or> entry_state s e \<noteq> cancelled) S) +
               length (filter (\<lambda>e. e_periodic e \<and> entry_state s e \<noteq> cancelled) X))"
proof -
  have "tm_ready_count s = (\<Sum>x \<in># located H S X s. placed_ready s x)"
    "tm_pending_count s = (\<Sum>x \<in># located H S X s. placed_pending s x)"
    using tm_invD(1) [OF assms] by (simp_all only: placed_inv_def)
  then show "ready_count s = of_nat (length (not_cancelled s (ready_list s)))"
    "pending_count s =
       of_nat (length (not_cancelled s (ready_list s @ tm_heap s @ H)) +
               length (filter (\<lambda>e. \<not> e_periodic e \<or> entry_state s e \<noteq> cancelled) S) +
               length (filter (\<lambda>e. e_periodic e \<and> entry_state s e \<noteq> cancelled) X))"
    by (simp_all add: located_in_place in_place_sums weight_defs sum_indicator not_cancelled_def
        ready_list_def ready_count_def pending_count_def)
qed

lemma located_live:
  assumes inv: "tm_inv H S X s" and r: "r < tm_next_control s" "live_block s r"
  shows "r \<in> e_control ` set (ready_list s @ tm_heap s @ H @ S @ X)"
proof -
  have "r \<in> (\<lambda>x. e_control (snd x)) ` set_mset (located H S X s)"
    using tm_invD(1) [OF inv] r by (simp only: placed_inv_def)
  then show ?thesis
    by (auto simp: located_in_place in_place_def ready_list_def)
qed

section \<open>Runs\<close>

lemma run_tm_inv:
  "tm_run (sys_init n) ls g \<Longrightarrow>
     tm_inv (held (sys_frames g)) (claimed (sys_frames g)) (running (sys_frames g)) (sys_tm g)"
  using tm_run_inv [OF _ sys_inv_init] unfolding sys_inv_def by blast

text \<open>
  A concrete run: two tasks are posted, one of them periodic, and a \<^verbatim>\<open>process()\<close> call takes its
  snapshot.
\<close>

definition after_posts :: "(nat, unit) sys" where
  "after_posts = \<lparr> sys_tm = two_tasks, sys_frames = [], sys_cancel = None \<rparr>"

definition after_snapshot :: "(nat, unit) sys" where
  "after_snapshot = \<lparr> sys_tm = snd (take_snapshot 0 10 two_tasks),
     sys_frames = [Frame (fst (take_snapshot 0 10 two_tasks)) Between], sys_cancel = None \<rparr>"

lemma run_to_posts: "tm_run (sys_init None) [Silent, Silent] after_posts"
proof -
  have h0: "id_headroom 2 (TaskManager_init None :: nat TM)"
    by (simp add: id_headroom_def TaskManager_init_def)
  have h1: "id_headroom 2 one_task"
    by (simp add: one_task_eq id_headroom_def)
  have "tm_step (sys_init None) Silent ((sys_init None)\<lparr>sys_tm := one_task\<rparr>)"
    by (rule produce) (simp_all add: sys_init_def one_task_def producer_step.intros(1) [OF h0])
  moreover have "tm_step ((sys_init None)\<lparr>sys_tm := one_task\<rparr>) Silent
      ((sys_init None)\<lparr>sys_tm := one_task\<rparr>\<lparr>sys_tm := two_tasks\<rparr>)"
    by (rule produce) (simp_all add: sys_init_def two_tasks_def producer_step.intros(3) [OF h1])
  moreover have "after_posts = (sys_init None)\<lparr>sys_tm := one_task\<rparr>\<lparr>sys_tm := two_tasks\<rparr>"
    by (simp add: after_posts_def sys_init_def)
  ultimately show ?thesis by (auto intro: tm_run.intros)
qed

lemma step_from_posts: "tm_step after_posts Silent after_snapshot"
proof -
  have "tm_step after_posts Silent (after_posts\<lparr>sys_tm := snd (take_snapshot 0 10 two_tasks),
      sys_frames := Frame (fst (take_snapshot 0 10 two_tasks)) Between # sys_frames after_posts\<rparr>)"
    by (rule process_begins [where n = 10]) (simp_all add: after_posts_def)
  then show ?thesis by (simp add: after_posts_def after_snapshot_def)
qed

lemma run_from_posts: "tm_run after_posts [Silent] after_snapshot"
  by (rule run_cons [OF step_from_posts run_nil])

lemma run_to_snapshot: "tm_run (sys_init None) ([Silent, Silent] @ [Silent]) after_snapshot"
proof (rule tm_run_append [OF run_to_posts])
  show "tm_run after_posts [Silent] after_snapshot" by (rule run_from_posts)
qed

text \<open>
  C1: in every concurrent run of producers, cancellations and \<^verbatim>\<open>process()\<close> calls, each task whose control
  block is neither cancelled nor completed is in exactly one place (a ready queue, the delayed
  heap, a snapshot, or the hands of one \<^verbatim>\<open>process()\<close> call): no task is lost and none is held twice.
\<close>

theorem run_no_task_lost:
  assumes "tm_run (sys_init n) ls g"
  defines "everywhere \<equiv> ready_list (sys_tm g) @ tm_heap (sys_tm g) @ held (sys_frames g) @
      claimed (sys_frames g) @ running (sys_frames g)"
  shows "distinct (map e_control everywhere) \<and>
    (\<forall>r < tm_next_control (sys_tm g). live_block (sys_tm g) r \<longrightarrow> r \<in> e_control ` set everywhere)"
  unfolding everywhere_def
  using located_controls [OF run_tm_inv [OF assms(1)]] located_live [OF run_tm_inv [OF assms(1)]] by blast

theorem run_no_task_lost_witness:
  "let g = after_snapshot in
   distinct (map e_control (ready_list (sys_tm g) @ tm_heap (sys_tm g) @ held (sys_frames g) @
      claimed (sys_frames g) @ running (sys_frames g)))"
  unfolding Let_def using run_no_task_lost [OF run_to_snapshot] by (rule conjunct1)

text \<open>
  C5: in every concurrent run the atomic counters are exact: \<^verbatim>\<open>ready_count()\<close> is the number of
  uncancelled entries in the ready queues, and \<^verbatim>\<open>pending_count()\<close> that of the uncancelled entries that
  are queued, delayed or snapshotted, plus the one-shot tasks claimed but not yet counted as
  started, plus the claimed or running periodic tasks whose series goes on.
\<close>

theorem run_counts_exact:
  assumes "tm_run (sys_init n) ls g"
  shows "ready_count (sys_tm g) = of_nat (length (not_cancelled (sys_tm g) (ready_list (sys_tm g)))) \<and>
    pending_count (sys_tm g) =
      of_nat (length (not_cancelled (sys_tm g)
                (ready_list (sys_tm g) @ tm_heap (sys_tm g) @ held (sys_frames g))) +
              length (filter (\<lambda>e. \<not> e_periodic e \<or> entry_state (sys_tm g) e \<noteq> cancelled)
                (claimed (sys_frames g))) +
              length (filter (\<lambda>e. e_periodic e \<and> entry_state (sys_tm g) e \<noteq> cancelled)
                (running (sys_frames g))))"
  using tm_inv_counts [OF run_tm_inv [OF assms]] by blast

theorem run_counts_exact_witness:
  "ready_count (sys_tm after_snapshot) =
     of_nat (length (not_cancelled (sys_tm after_snapshot) (ready_list (sys_tm after_snapshot))))"
  using run_counts_exact [OF run_to_snapshot] by blast

text \<open>
  C2: a task that \<^verbatim>\<open>cancel()\<close> reports as cancelled never starts afterwards, whatever the threads do in
  between: no later claim in the run is for its control block.
\<close>

theorem run_cancelled_never_starts:
  assumes "tm_run (sys_init n) (ls @ Cancel_result r v True # ms) g" and "Started e \<in> set ms"
  shows "e_control e \<noteq> r"
proof -
  obtain h h' where run: "tm_run (sys_init n) ls h" "tm_step h (Cancel_result r v True) h'"
      "tm_run h' ms g"
    using tm_run_split [OF assms(1)] by (auto elim: tm_run_ConsE)
  have inv: "sys_inv h" "sys_inv h'"
    using tm_run_inv [OF run(1) sys_inv_init] tm_step_inv [OF run(2)] by simp_all
  have "\<not> live_block (sys_tm h') r" "r < tm_next_control (sys_tm h')"
    using step_cancelled [OF run(2) inv(1)] moves_next [OF tm_step_path [OF run(2)]]
    by (auto simp: live_block_def)
  from no_start_when_final [OF run(3) inv(2) this(2,1) assms(2)] show ?thesis .
qed

text \<open>
  The witness continues the run above: the one-shot task is cancelled inside the snapshot, and only
  the periodic one starts.
\<close>

definition one_frame ::
  "nat TM \<Rightarrow> nat frame \<Rightarrow> (TaskId \<times> nat \<times> State) option \<Rightarrow> (nat, unit) sys"
where
  "one_frame s f c = \<lparr> sys_tm = s, sys_frames = [f], sys_cancel = c \<rparr>"

lemma one_frame_steps:
  "frame_step (c = None) (f, s) l (Some f', s') \<Longrightarrow> tm_step (one_frame s f c) l (one_frame s' f' c)"
  "i \<noteq> 0 \<Longrightarrow> tm_index s i = Some r \<Longrightarrow> tm_step (one_frame s f None) Silent
     (one_frame s f (Some (i, r, ctl_state (tm_controls s r))))"
  "cancel_loaded i r v s = (ok, s') \<Longrightarrow>
     tm_step (one_frame s f (Some (i, r, v))) (Cancel_result r v ok) (one_frame s' f None)"
  using frame [of "one_frame s f c" "[]" f "[]" l "Some f'" s'] cancel_loads [of "one_frame s f None" i r]
    cancel_ends [of "one_frame s f (Some (i, r, v))" i r v ok s']
  by (simp_all add: one_frame_def)

lemma run_one: "tm_step g l h \<Longrightarrow> tm_run h ls k \<Longrightarrow> tm_run g (l # ls) k"
  by (rule run_cons)

lemma run_with_cancel:
  "tm_run after_snapshot [Silent, Cancel_result 0 ready_snapshot True, Silent]
     (one_frame cancelled_state (Frame [second_entry] Between) None)"
proof -
  let ?f = "Frame [first_entry, second_entry] Between"
  have g: "after_snapshot = one_frame snapshot_state ?f None"
    unfolding after_snapshot_def one_frame_def snapshot_state_def [symmetric]
      snapshot_of_two_def [symmetric] by (simp add: snapshot_entries(1))
  have 1: "tm_step after_snapshot Silent (one_frame snapshot_state ?f (Some (1, 0, ready_snapshot)))"
    using one_frame_steps(2) [of 1 snapshot_state 0 ?f] snapshot_facts(1,2) by (simp add: g)
  have 2: "tm_step (one_frame snapshot_state ?f (Some (1, 0, ready_snapshot)))
      (Cancel_result 0 ready_snapshot True) (one_frame cancelled_state ?f None)"
    by (rule one_frame_steps(3)) (use snapshot_facts(3) in \<open>simp add: cancelled_state_def prod_eq_iff\<close>)
  have "start_entry first_entry cancelled_state = (False, cancelled_state)"
    using snapshot_facts(4) by (simp add: start_entry_def transition_entry)
  then have 3: "tm_step (one_frame cancelled_state ?f None) Silent
      (one_frame cancelled_state (Frame [second_entry] Between) None)"
    by (intro one_frame_steps(1) skip)
  show ?thesis by (intro run_one [OF 1] run_one [OF 2] run_one [OF 3] run_nil)
qed

lemma claim_second:
  "tm_step (one_frame cancelled_state (Frame [second_entry] Between) c) (Started second_entry)
     (one_frame claimed_state (Frame [] (Counting second_entry)) c)"
  by (intro one_frame_steps(1) claim)
    (use snapshot_facts(5) in \<open>simp add: claimed_state_def start_entry_def transition_entry\<close>)

lemma run_cancel_then_start:
  "tm_run (sys_init None) ([Silent, Silent, Silent, Silent] @ Cancel_result 0 ready_snapshot True #
     [Silent, Started second_entry]) (one_frame claimed_state (Frame [] (Counting second_entry)) None)"
  using tm_run_append [OF run_to_snapshot
      tm_run_append [OF run_with_cancel run_one [OF claim_second run_nil]]] by simp

theorem run_cancelled_never_starts_witness: "e_control second_entry \<noteq> 0"
  by (rule run_cancelled_never_starts [OF run_cancel_then_start]) simp

text \<open>
  C6: the life cycle of a task, step by step. Of a block that exists before an atomic step of the
  concurrent manager, with state \<open>v\<close> before the step and \<open>w\<close> after it: a claim moves the block of the
  claimed entry, and no other, from \<^verbatim>\<open>ready_snapshot\<close> to \<^verbatim>\<open>executing\<close>; a \<^verbatim>\<open>cancel()\<close> that ends moves its
  block to \<^verbatim>\<open>cancelled\<close>, from the live state it had loaded, if it reports success, and nothing
  otherwise; every other step keeps the state or takes one edge of the life cycle that does not lead
  into \<^verbatim>\<open>executing\<close> (the snapshot may promote and take a delayed entry under one lock). So nothing
  executes without having been in a snapshot, only an executing task completes, and no step leaves
  \<^verbatim>\<open>cancelled\<close> or \<^verbatim>\<open>completed\<close>. The id and the kind of a block never change.
\<close>

theorem step_follows_life_cycle:
  assumes "tm_step g l g'" and "r < tm_next_control (sys_tm g)"
  defines "v \<equiv> ctl_state (tm_controls (sys_tm g) r)"
    and "w \<equiv> ctl_state (tm_controls (sys_tm g') r)"
  shows "(case l of
      Started e \<Rightarrow> if e_control e = r then v = ready_snapshot \<and> w = executing else w = v
    | Cancel_result q u ok \<Rightarrow>
        if q = r \<and> ok then v = u \<and> u \<notin> {cancelled, completed} \<and> w = cancelled else w = v
    | Silent \<Rightarrow> w = v \<or> state_edge v w \<and> w \<noteq> executing \<or> v = queued_delayed \<and> w = ready_snapshot) \<and>
    ctl_id (tm_controls (sys_tm g') r) = ctl_id (tm_controls (sys_tm g) r) \<and>
    ctl_periodic (tm_controls (sys_tm g') r) = ctl_periodic (tm_controls (sys_tm g) r)"
proof (rule conjI)
  show "case l of
      Started e \<Rightarrow> if e_control e = r then v = ready_snapshot \<and> w = executing else w = v
    | Cancel_result q u ok \<Rightarrow>
        if q = r \<and> ok then v = u \<and> u \<notin> {cancelled, completed} \<and> w = cancelled else w = v
    | Silent \<Rightarrow> w = v \<or> state_edge v w \<and> w \<noteq> executing \<or> v = queued_delayed \<and> w = ready_snapshot"
  proof (cases l)
    case Silent
    have "w = v \<or> (v, w) \<in> silent_edges"
      using moves_block [OF tm_step_silent [OF assms(1) [unfolded Silent]] assms(2)]
      by (simp only: ctl_step_def v_def w_def)
    with Silent show ?thesis by (auto intro: state_edges)
  next
    case (Started e)
    from tm_step_claims [OF assms(1) [unfolded Started]]
    have "v = ready_snapshot" if "e_control e = r"
      using that by (simp add: v_def start_entry_def transition_eq)
    moreover have "w = (if e_control e = r then executing else v)"
      using tm_step_claims [OF assms(1) [unfolded Started]]
      by (auto simp: v_def w_def start_entry_def transition_eq set_state_def set_control_def
          dest: sym [of _ "sys_tm g'"])
    ultimately show ?thesis by (simp add: Started)
  next
    case (Cancel_result q u ok)
    then obtain i where "cancel_loaded i q u (sys_tm g) = (ok, sys_tm g')"
      using tm_step_cancels assms(1) by blast
    then show ?thesis
      by (simp add: Cancel_result v_def w_def cancel_loaded_eq split: if_splits) (auto dest: sym)
  qed
qed (use moves_block [OF tm_step_path [OF assms(1)] assms(2)] in \<open>simp add: ctl_step_def\<close>)

text \<open>The witness is the start of \<^verbatim>\<open>process()\<close> after the two posts of the run above.\<close>

theorem step_follows_life_cycle_witness:
  "let v = ctl_state (tm_controls (sys_tm after_posts) 0);
       w = ctl_state (tm_controls (sys_tm after_snapshot) 0)
   in w = v \<or> state_edge v w \<and> w \<noteq> executing \<or> v = queued_delayed \<and> w = ready_snapshot"
proof -
  have "0 < tm_next_control (sys_tm after_posts)" by (simp add: after_posts_def two_tasks_eq)
  from step_follows_life_cycle [OF step_from_posts this] show ?thesis by (simp add: Let_def)
qed

lemma race_end:
  defines "s \<equiv> uncount_started second_entry claimed_state"
  defines "fin \<equiv> finish_after_success 0 0 second_entry s"
  shows "entry_state fin second_entry = queued_delayed" "tm_index fin 2 = Some 1" "\<not> tm_closed fin"
    "ctl_state (tm_controls claimed_state 1) \<noteq> ready_snapshot"
proof -
  note e = snapshot_entries(4,5) snapshot_eval(3-5) snapshot_facts(6-9)
  have s: "s = set_state 1 executing cancelled_state"
    using e by (simp add: s_def claimed_state_def start_entry_def transition_eq uncount_started_def)
  have fin: "fin = push_delayed (requeued second_entry 10 (tm_next_seq cancelled_state))
      (set_state 1 queued_delayed s\<lparr>tm_next_seq := tm_next_seq cancelled_state + 1\<rparr>)"
    using e by (simp add: fin_def s finish_after_success_def entry_state_def control_of_def Let_def
        enqueue_existing_eq next_periodic_due_def)
  show "entry_state fin second_entry = queued_delayed" "tm_index fin 2 = Some 1" "\<not> tm_closed fin"
    "ctl_state (tm_controls claimed_state 1) \<noteq> ready_snapshot"
    using e unfolding fin
    by (simp_all add: s push_delayed_def entry_state_def claimed_state_def start_entry_def
        transition_eq uncount_started_def)
qed

text \<open>
  C11: the unlocked claim of \<^verbatim>\<open>process()\<close> can defeat a concurrent \<^verbatim>\<open>cancel()\<close> of a periodic task: the cancel
  loads \<^verbatim>\<open>ready_snapshot\<close>, the consumer claims the task before the compare-exchange, \<^verbatim>\<open>cancel()\<close> returns
  false, and the series goes on with its next cycle queued, although an executing periodic
  task could have been cancelled.
\<close>

theorem cancel_can_miss_running_series:
  "\<exists>ls ms g e. tm_run (sys_init None) (ls @ [Started e, Cancel_result (e_control e) ready_snapshot False] @ ms) (g :: (nat, unit) sys) \<and>
     e_periodic e \<and> \<not> tm_closed (sys_tm g) \<and> entry_state (sys_tm g) e = queued_delayed \<and>
     tm_index (sys_tm g) (e_id e) = Some (e_control e) \<and> sys_cancel g = None"
proof -
  let ?c = "Some (2, 1, ready_snapshot)" and ?f = "\<lambda>p. Frame [] p"
  let ?s = "uncount_started second_entry claimed_state"
  let ?fin = "finish_after_success 0 0 second_entry ?s"
  note e = snapshot_entries(4,5) snapshot_eval(3-5) snapshot_facts(6-9) and last = race_end
  have 1: "tm_step (one_frame cancelled_state (Frame [second_entry] Between) None) Silent
      (one_frame cancelled_state (Frame [second_entry] Between) ?c)"
    using one_frame_steps(2) [of 2 cancelled_state 1] e(6,7) by simp
  have 2: "tm_step (one_frame claimed_state (?f (Counting second_entry)) ?c)
      (Cancel_result 1 ready_snapshot False)
      (one_frame claimed_state (?f (Counting second_entry)) None)"
    by (rule one_frame_steps(3), rule cancel_loaded_stale) (rule last(4))
  have 3: "tm_step (one_frame claimed_state (?f (Counting second_entry)) None) Silent
      (one_frame ?s (?f (Calling second_entry)) None)"
    by (intro one_frame_steps(1) uncount)
  have 4: "tm_step (one_frame ?s (?f (Calling second_entry)) None) Silent
      (one_frame ?fin (?f Between) None)"
    by (rule one_frame_steps(1)) (simp add: returned)
  have "tm_run (one_frame cancelled_state (Frame [second_entry] Between) None)
      ([Silent] @ [Started second_entry, Cancel_result (e_control second_entry) ready_snapshot False] @
        [Silent, Silent]) (one_frame ?fin (?f Between) None)"
    using run_one [OF 1 run_one [OF claim_second run_one [OF 2 run_one [OF 3 run_one [OF 4 run_nil]]]]]
    by (simp add: e(2))
  from tm_run_append [OF tm_run_append [OF run_to_snapshot run_with_cancel] this]
  have "tm_run (sys_init None) (([Silent, Silent, Silent, Silent, Cancel_result 0 ready_snapshot True,
      Silent, Silent]) @ [Started second_entry, Cancel_result (e_control second_entry) ready_snapshot False]
      @ [Silent, Silent]) (one_frame ?fin (?f Between) None)" by simp
  moreover have "e_periodic second_entry \<and> \<not> tm_closed (sys_tm (one_frame ?fin (?f Between) None)) \<and>
      entry_state (sys_tm (one_frame ?fin (?f Between) None)) second_entry = queued_delayed \<and>
      tm_index (sys_tm (one_frame ?fin (?f Between) None)) (e_id second_entry) =
        Some (e_control second_entry) \<and> sys_cancel (one_frame ?fin (?f Between) None) = None"
    using e(1-3) last(1-3) by (simp add: one_frame_def)
  ultimately show ?thesis by blast
qed

end
