(* ===== verification/Task_Behaviour.thy ===== *)
theory Task_Behaviour
  imports Task_Examples "HOL-Library.Sublist"
begin

text \<open>
  The functional behaviour of the task manager's operations, one property per contract: what a
  \<^verbatim>\<open>process()\<close> call takes and runs, what exceptions leave behind, when periodic and rescheduled
  tasks run again, how cancellation, closing and clearing act, and what the queries answer.
\<close>

section \<open>What a process() call runs\<close>

lemma live_in_marked_ready:
  assumes "tm_controls t = marked queued_ready es (tm_controls s)"
    and "distinct (map e_control (q @ es'))" "set es' \<subseteq> set es" "e_control ` set q \<inter> e_control ` set es = {}"
  shows "live_in t queued_ready (q @ es') = live_in s queued_ready q @ es'"
proof -
  have "live_in t queued_ready q = live_in s queued_ready q"
    by (rule live_in_cong) (use assms(1,4) in \<open>auto simp: marked_def\<close>)
  moreover have "live_in t queued_ready es' = es'"
    unfolding live_in_def in_state_def entry_state_def
    by (rule filter_True) (use assms(1,3) in \<open>auto simp: marked_def\<close>)
  ultimately show ?thesis by simp
qed

text \<open>The due entries come from the heap, so no ready entry shares their control blocks.\<close>

lemma due_apart:
  assumes inv: "tm_inv H S X s" and due: "mset due = filter_mset P (live_delayed s)" and "q \<in> {0, 1, 2}"
  shows "e_control ` set (tm_ready s q) \<inter> e_control ` set due = {}"
proof -
  have "x \<in> set (tm_heap s)" if "x \<in> set due" for x
  proof -
    have "x \<in># mset due" using that by simp
    then show ?thesis unfolding due by (simp add: live_delayed_def)
  qed
  moreover have "e_control ` set (ready_list s) \<inter> e_control ` set (tm_heap s) = {}"
    using located_controls [OF inv] by auto
  ultimately show ?thesis using assms(3) by (auto simp: ready_list_def)
qed

lemma take_keeps_delayed:
  assumes inv: "tm_inv H S X s" and "take_ready_batch_locked n s = (batch, s')"
  shows "live_delayed s' = live_delayed s"
proof -
  have d: "distinct (map e_control (ready_list s))"
    "e_control ` set (ready_list s) \<inter> e_control ` set (tm_heap s) = {}"
    using located_controls [OF inv] by auto
  note spec = take_ready_batch_spec [OF d(1) assms(2)]
  have "entry_state s' e = entry_state s e" if "e \<in> set (tm_heap s)" for e
  proof -
    have "set batch \<subseteq> set (ready_list s)"
      unfolding spec(1) by (auto simp: set_live_in dest!: in_set_takeD)
    then have "e_control e \<notin> e_control ` set batch" using d(2) that by blast
    then show ?thesis using spec(3) by (simp add: entry_state_def marked_other)
  qed
  then show ?thesis unfolding live_delayed_def spec(4)
    by (intro filter_mset_cong0) (simp add: in_state_def)
qed

lemma snapshot_spec:
  assumes inv: "tm_inv H S X s" and take: "take_snapshot now n s = (batch, s')"
  shows "\<exists>due. mset due = filter_mset (\<lambda>e. e_due e \<le> now) (live_delayed s) \<and>
      sorted_wrt not_after due \<and>
      (let line = concat (map (\<lambda>q. live_in s queued_ready (tm_ready s q) @ of_priority q due) [0, 1, 2])
       in batch = take n line \<and> live_in s' queued_ready (ready_list s') = drop n line) \<and>
      live_delayed s' = filter_mset (\<lambda>e. now < e_due e) (live_delayed s)"
proof -
  let ?t = "promote_due_locked now s"
  obtain due where due: "mset due = filter_mset (\<lambda>e. e_due e \<le> now) (live_delayed s)"
      "sorted_wrt not_after due"
      "\<And>q. tm_ready ?t q = tm_ready s q @ of_priority q due"
      "tm_controls ?t = marked queued_ready due (tm_controls s)"
      "live_delayed ?t = filter_mset (\<lambda>e. now < e_due e) (live_delayed s)"
    using promote_due_spec [OF inv, of now] by blast
  have d: "distinct (map e_control (ready_list ?t))"
    using located_controls [OF tm_inv_promote_due [OF inv]] by simp
  have take': "take_ready_batch_locked n ?t = (batch, s')" using take by (simp add: take_snapshot_def)
  note spec = take_ready_batch_spec [OF d take']
  have line: "live_in ?t queued_ready (tm_ready ?t q) =
      live_in s queued_ready (tm_ready s q) @ of_priority q due" if "q \<in> {0, 1, 2}" for q
    unfolding due(3)
    by (rule live_in_marked_ready [OF due(4) _ _ due_apart [OF inv due(1) that]])
      (use d that in \<open>auto simp: ready_list_def due(3) of_priority_def\<close>)
  then have "live_in ?t queued_ready (ready_list ?t) =
      concat (map (\<lambda>q. live_in s queued_ready (tm_ready s q) @ of_priority q due) [0, 1, 2])"
    by (simp add: ready_list_def)
  then show ?thesis
    using due(1,2,5) spec(1,2) take_keeps_delayed [OF tm_inv_promote_due [OF inv] take'] by (intro exI [of _ due]) (simp add: Let_def)
qed

text \<open>
  C3: the snapshot of \<^verbatim>\<open>process()\<close> holds the first \<open>max_tasks\<close> of the live ready tasks and the delayed tasks
  due at entry: all high-priority ones, then the normal ones, then the low ones, and within a
  priority the earlier ready tasks in queue order followed by the due ones in order of
  \<open>(due, seq)\<close>. Whatever else is ready stays queued in the same order.
\<close>

theorem snapshot_order:
  assumes inv: "tm_inv H S X s" and take: "take_snapshot now n s = (batch, s')"
  shows "\<exists>due. mset due = filter_mset (\<lambda>e. e_due e \<le> now) (live_delayed s) \<and>
      sorted_wrt not_after due \<and>
      (let line = concat (map (\<lambda>q. live_in s queued_ready (tm_ready s q) @ of_priority q due) [0, 1, 2])
       in batch = take n line \<and> live_in s' queued_ready (ready_list s') = drop n line) \<and>
      live_delayed s' = filter_mset (\<lambda>e. now < e_due e) (live_delayed s)"
  by (rule snapshot_spec [OF inv take])

lemma two_tasks_inv: "tm_inv [] [] [] two_tasks"
proof -
  have "tm_inv [] [] [] one_task"
    unfolding one_task_def by (rule tm_inv_post [OF tm_inv_init]) (simp add: TaskManager_init_def)
  then show ?thesis
    unfolding two_tasks_def by (rule tm_inv_post_every_after) (simp add: one_task_eq)
qed

lemma snapshot_inv: "tm_inv [first_entry, second_entry] [] [] snapshot_state"
proof -
  have "tm_inv (snapshot_of_two @ []) [] [] snapshot_state"
    unfolding snapshot_of_two_def snapshot_state_def
    by (rule tm_inv_take_snapshot [OF two_tasks_inv]) simp
  then show ?thesis by (simp add: snapshot_entries(1))
qed

theorem snapshot_order_witness:
  "\<exists>due. mset due = filter_mset (\<lambda>e. e_due e \<le> 0) (live_delayed two_tasks) \<and>
     snapshot_of_two = take 10 (concat (map (\<lambda>q. live_in two_tasks queued_ready (tm_ready two_tasks q) @
       of_priority q due) [0, 1, 2]))"
  using snapshot_order [OF two_tasks_inv, of 0 10 snapshot_of_two snapshot_state]
  by (auto simp: snapshot_of_two_def snapshot_state_def Let_def)

lemma process_loop_started:
  "process_loop run hrun nows batch i k s = (started, r, s') \<Longrightarrow>
     subseq started (map e_id batch) \<and> (\<forall>m. r = Inr m \<longrightarrow> m = k + length started)"
proof (induction batch arbitrary: i k s started r s')
  case (Cons e rest)
  obtain ok s1 where start: "start_entry e s = (ok, s1)" by (cases "start_entry e s")
  show ?case
  proof (cases ok)
    case False
    then show ?thesis using Cons start by (auto dest: Cons.IH)
  next
    case True
    obtain s2 x where call: "Task_call_context run (e_task e) (make_context (e_id e))
        (uncount_started e s1) = (s2, x)"
      by (cases "Task_call_context run (e_task e) (make_context (e_id e)) (uncount_started e s1)")
    have again: "subseq (e_id e # tl started) (map e_id (e # rest)) \<and>
        (\<forall>m. r = Inr m \<longrightarrow> m = k + Suc (length (tl started)))"
      if "process_loop run hrun nows rest (Suc i) (Suc k) t = (tl started, r, s')" for t
      using Cons.IH [OF that] by simp
    show ?thesis
    proof (cases x)
      case None
      then obtain t where "process_loop run hrun nows rest (Suc i) (Suc k) t = (tl started, r, s')"
          "started = e_id e # tl started"
        using Cons.prems start True call by (auto split: prod.splits)
      then show ?thesis using again by (metis add_Suc_right length_Cons)
    next
      case (Some y)
      obtain v t where rep: "report_exception hrun y (finish_after_exception e s2) = (v, t)"
        by (cases "report_exception hrun y (finish_after_exception e s2)")
      show ?thesis
      proof (cases "v = Inr True")
        case True
        then have "process_loop run hrun nows rest (Suc i) (Suc k) t = (tl started, r, s')"
            "started = e_id e # tl started"
          using Cons.prems start \<open>ok\<close> call Some rep by (auto split: prod.splits)
        then show ?thesis using again by (metis add_Suc_right length_Cons)
      next
        case False
        then have "started = [e_id e] \<and> (\<exists>z. r = Inl z)"
          using Cons.prems start \<open>ok\<close> call Some rep
          by (cases v) (auto split: bool.splits)
        then show ?thesis by auto
      qed
    qed
  qed
qed simp

lemma take_queue_length:
  "take_queue n q batch s = (q', batch', s') \<Longrightarrow> length batch \<le> n \<Longrightarrow> length batch' \<le> n"
proof (induction n q batch s rule: take_queue.induct)
  case (2 n e q batch s)
  obtain ok t where t: "transition (e_control e) queued_ready ready_snapshot s = (ok, t)"
    by (cases "transition (e_control e) queued_ready ready_snapshot s")
  show ?case using 2 t by (auto split: if_splits)
qed simp

lemma take_from_length: "length (fst p) \<le> n \<Longrightarrow> length (fst (take_from n i p)) \<le> n"
  by (auto simp: take_from_def dest: take_queue_length split: prod.splits)

lemma take_snapshot_length: "length (fst (take_snapshot now n s)) \<le> n"
  unfolding take_snapshot_def take_ready_batch_locked_def by (intro take_from_length) simp

text \<open>
  C12: \<^verbatim>\<open>process()\<close> starts only tasks of the snapshot it took at entry, each at most once and in snapshot
  order, at most \<open>max_tasks\<close> of them, whatever the callbacks do meanwhile (tasks they submit wait for
  a later call); the number it returns is that of the callbacks it started.
\<close>

theorem process_starts_snapshot:
  assumes "process_traced run hrun now nows n s = (started, r, s')"
  shows "subseq started (map e_id (fst (take_snapshot now n s))) \<and> length started \<le> n \<and>
    (\<forall>m. r = Inr m \<longrightarrow> m = length started)"
proof (cases "n = 0")
  case False
  obtain batch t where t: "take_snapshot now n s = (batch, t)" by (cases "take_snapshot now n s")
  have "process_loop run hrun nows batch 0 0 t = (started, r, s')"
    using assms False t by (simp add: process_traced_def)
  note loop = process_loop_started [OF this]
  have "length started \<le> length batch"
    using list_emb_length [OF conjunct1 [OF loop]] by simp
  then show ?thesis using loop t take_snapshot_length [of now n s] by simp
qed (use assms in \<open>auto simp: process_traced_def\<close>)

theorem process_starts_snapshot_witness:
  "subseq (fst (process_traced (\<lambda>f c t. (t, None)) (\<lambda>h x t. (t, None)) 0 (\<lambda>i. (0, 0)) 1 two_tasks))
     (map e_id (fst (take_snapshot 0 1 two_tasks)))"
  using process_starts_snapshot [of "\<lambda>f c t. (t, None)" "\<lambda>h x t. (t, None)" 0 "\<lambda>i. (0, 0)" 1 two_tasks]
  by (metis prod.collapse)

section \<open>Exceptions\<close>

lemma finish_after_exception_fields [simp]:
  "tm_ready (finish_after_exception e s) = tm_ready s"
  "tm_heap (finish_after_exception e s) = tm_heap s"
  "tm_handler (finish_after_exception e s) = tm_handler s"
  "r \<noteq> e_control e \<Longrightarrow> tm_controls (finish_after_exception e s) r = tm_controls s r"
  by (simp_all add: finish_after_exception_def transition_entry index_erase_def Let_def
      clear_reschedule_def set_control_def decrement_pending_count_def)

text \<open>
  C4: when a callback throws and no handler is set, \<^verbatim>\<open>process()\<close> rethrows that exception, the failed task is
  finished and forgotten, and the rest of the snapshot that is still live goes back to the
  front of its queues in its original order, so the next call resumes where this one stopped.
\<close>

theorem exception_restores_rest:
  assumes inv: "tm_inv (e # rest @ H) S X s" and run: "callback_ok run"
    and start: "start_entry e s = (True, s1)"
    and call: "Task_call_context run (e_task e) (make_context (e_id e)) (uncount_started e s1) = (s2, Some x)"
    and handler: "tm_handler s2 = None"
  shows "\<exists>s3. process_loop run hrun nows (e # rest) i k s = ([e_id e], Inl x, s3) \<and>
    (\<forall>q. tm_ready s3 q = of_priority q (live_in s2 ready_snapshot rest) @ tm_ready s2 q) \<and>
    tm_heap s3 = tm_heap s2 \<and> tm_index s3 (e_id e) = None \<and> tm_inv H S X s3"
proof -
  let ?f = "finish_after_exception e s2"
  let ?s3 = "restore_unrun rest ?f"
  have "tm_inv (rest @ H) (e # S) X s1"
    using tm_inv_start_entry [OF inv start] by simp
  then have "tm_inv (rest @ H) S (e # X) (uncount_started e s1)"
    by (rule tm_inv_uncount_started)
  from tm_inv_task_call [OF run this, of "e_task e" "make_context (e_id e)"]
  have inv2: "tm_inv (rest @ H) S (e # X) s2" using call by simp
  have inv3: "tm_inv (rest @ H) S X ?f" by (rule tm_inv_finish_after_exception [OF inv2])
  have d: "distinct (map e_control (rest @ e # H))"
  proof -
    have "distinct (map e_control ((rest @ H) @ [e]))"
      using located_controls [OF inv2] by auto
    then show ?thesis by auto
  qed
  then have rest: "distinct (map e_control rest)" "e_control e \<notin> e_control ` set rest" by auto
  have live: "live_in ?f ready_snapshot rest = live_in s2 ready_snapshot rest"
    by (rule live_in_cong, rule finish_after_exception_fields(4)) (use rest(2) in \<open>metis image_eqI\<close>)
  note spec = restore_unrun_spec [OF rest(1), of ?f, unfolded live]
  have gone: "tm_index ?f (e_id e) = None"
    using running_state [OF inv2]
    by (auto simp: finish_after_exception_def transition_entry index_erase_def Let_def)
  have "tm_index ?s3 = tm_index ?f"
    by (induction rest) (auto simp: restore_unrun_def restore_one_def transition_entry
        increment_ready_count_def)
  moreover have "process_loop run hrun nows (e # rest) i k s = ([e_id e], Inl x, ?s3)"
    using start call handler by (simp add: report_exception_def)
  ultimately show ?thesis
    using spec gone tm_inv_restore_unrun [OF inv3] by (intro exI [of _ ?s3]) simp
qed

theorem exception_restores_rest_witness:
  "\<exists>s3. process_loop (\<lambda>f c t. (t, Some (User_exn 4))) (\<lambda>h x t. (t, None)) (\<lambda>i. (0, 0))
       [first_entry, second_entry] 0 0 snapshot_state = ([1], Inl (User_exn 4), s3) \<and>
     (\<forall>q. tm_ready s3 q = of_priority q [second_entry] @ tm_ready snapshot_state q)"
proof -
  define s1 where "s1 = snd (start_entry first_entry snapshot_state)"
  have inv: "tm_inv (first_entry # [second_entry] @ []) [] [] snapshot_state"
    using snapshot_inv by simp
  have start: "start_entry first_entry snapshot_state = (True, s1)"
    using snapshot_facts(2) snapshot_entries(3)
    by (simp add: s1_def start_entry_def transition_eq)
  have cb: "callback_ok (\<lambda>f c (t :: nat TM). (t, Some (User_exn 4)))" by (simp add: callback_ok_def)
  have model: "Task_call_context (\<lambda>f c t. (t, Some (User_exn 4))) (e_task first_entry) ctx t = (t, Some (User_exn 4))"
    for ctx and t :: "nat TM"
    using placed_inv_entry [OF tm_invD(1) [OF inv], of "(In_snapshot, first_entry)"]
    by (cases "e_task first_entry") (simp_all add: entry_ok_def)
  have fields: "tm_handler (uncount_started first_entry s1) = None"
    "tm_ready (uncount_started first_entry s1) = tm_ready snapshot_state"
    "entry_state (uncount_started first_entry s1) second_entry = ready_snapshot"
    using start snapshot_eval(8,10) snapshot_entries(3,5)
    by (auto simp: uncount_started_def decrement_pending_count_def start_entry_def transition_eq
        entry_state_def split: if_splits)
  show ?thesis
    using exception_restores_rest [OF inv cb start model fields(1), of "\<lambda>h x t. (t, None)" "\<lambda>i. (0, 0)" 0 0]
      fields(2,3) snapshot_entries(2) by auto
qed

end
