(* ===== verification/Task_Lifecycle.thy ===== *)
theory Task_Lifecycle
  imports Task_Behaviour
begin

text \<open>
  The queries, and the ways a task's life goes on or ends: periodic repetition, rescheduling,
  cancellation, closing, clearing, and acceptance of new tasks.
\<close>

section \<open>Queries\<close>

text \<open>
  \<^verbatim>\<open>next_deadline()\<close> is the earliest due time among the uncancelled delayed tasks, and empty when
  there is none; the pruning it does on the way drops only cancelled entries.
\<close>

theorem next_deadline_is_min:
  assumes "tm_inv H S X s"
  shows "fst (next_deadline s) =
      (if live_delayed s = {#} then None else Some (Min (e_due ` set_mset (live_delayed s)))) \<and>
    live_delayed (snd (next_deadline s)) = live_delayed s"
  using next_deadline_spec [OF assms] prune_delayed_spec(3) [OF tm_invD(2) [OF assms]]
  by (simp add: next_deadline_def Let_def)

definition one_delayed :: "nat TM" where
  "one_delayed = snd (post_at 3 50 (NoArgModel 9) default_TaskOptions two_tasks)"

lemma one_delayed_inv: "tm_inv [] [] [] one_delayed"
  unfolding one_delayed_def by (rule tm_inv_post_at [OF two_tasks_inv]) (simp add: two_tasks_eq)

lemma one_delayed_live: "image_mset e_due (live_delayed one_delayed) = {#50#}"
  by (simp add: one_delayed_def two_tasks_eq post_eval live_delayed_def in_state_def entry_state_def
      push_heap_def sift_up.simps)

theorem next_deadline_is_min_witness: "fst (next_deadline one_delayed) = Some 50"
proof -
  have "set_mset (image_mset e_due (live_delayed one_delayed)) = {50}"
    by (simp only: one_delayed_live set_mset_add_mset_insert set_mset_empty)
  then have "e_due ` set_mset (live_delayed one_delayed) = {50}" by (simp only: set_image_mset)
  moreover from this have "live_delayed one_delayed \<noteq> {#}" by force
  ultimately show ?thesis using next_deadline_is_min [OF one_delayed_inv] by simp
qed

text \<open>
  \<^verbatim>\<open>recommend_wait_for()\<close> asks for no wait when a task is ready or a delayed one is due, otherwise for
  the time to the earliest deadline, and never for more than the cap.
\<close>

theorem recommended_wait:
  assumes "tm_inv H S X s"
  shows "fst (recommend_wait_for now cap s) =
    (if ready_count s \<noteq> 0 then 0
     else if live_delayed s = {#} then cap
     else let deadline = Min (e_due ` set_mset (live_delayed s))
          in if deadline \<le> now then 0 else min (deadline - now) cap)"
proof -
  obtain d t where d: "next_deadline s = (d, t)" by (cases "next_deadline s")
  show ?thesis
    using next_deadline_spec [OF assms] d
    by (auto simp: recommend_wait_for_def has_ready_def Let_def min_def split: option.splits)
qed

theorem recommended_wait_witness:
  "fst (recommend_wait_for 0 20 (TaskManager_init None :: nat TM)) = 20"
  using recommended_wait [OF tm_inv_init, of 0 20 None, where 'a = nat]
  by (simp add: TaskManager_init_def live_delayed_def ready_count_def)

section \<open>Running again\<close>

text \<open>The effect of putting a running entry back.\<close>

definition put_back ::
  "time \<Rightarrow> time \<Rightarrow> 'f Entry \<Rightarrow> ('f, 'z) TM_scheme \<Rightarrow> ('f, 'z) TM_scheme \<Rightarrow> bool"
where
  "put_back now due e s s' \<longleftrightarrow>
     (let e' = requeued e due (tm_next_seq s)
      in if due \<le> now
         then (\<forall>q. tm_ready s' q = tm_ready s q @ of_priority q [e']) \<and> tm_heap s' = tm_heap s \<and>
              entry_state s' e = queued_ready
         else tm_ready s' = tm_ready s \<and> mset (tm_heap s') = add_mset e' (mset (tm_heap s)) \<and>
              entry_state s' e = queued_delayed)"

lemma put_back_cong:
  "tm_next_seq s = tm_next_seq t \<Longrightarrow> tm_ready s = tm_ready t \<Longrightarrow> tm_heap s = tm_heap t \<Longrightarrow>
     put_back now due e s s' = put_back now due e t s'"
  by (simp add: put_back_def)

lemma put_back_existing:
  assumes "entry_state s e = executing"
  shows "put_back now due e s (enqueue_existing_locked now e due s)"
  using assms by (simp add: put_back_def enqueue_existing_eq Let_def push_back_ready_def
      increment_ready_count_def increment_pending_count_def push_delayed_def entry_state_def
      of_priority_def delayed.mset_push)

lemma existing_fields:
  assumes "entry_state s e = executing"
  shows "tm_index (enqueue_existing_locked now e due s) = tm_index s"
    "tm_pending_count (enqueue_existing_locked now e due s) =
       tm_pending_count s + (if e_periodic e then 0 else 1)"
  using assms by (simp_all add: enqueue_existing_eq Let_def push_delayed_def
      increment_ready_count_def increment_pending_count_def push_back_ready_def)

lemma running_index:
  assumes "tm_inv H S (e # X) s"
  shows "tm_index s (e_id e) = Some (e_control e)" "e_id e \<noteq> 0"
    "ctl_periodic (tm_controls s (e_control e)) = e_periodic e"
proof -
  note inv = tm_invD(1) [OF assms, unfolded located_Cons]
  show "tm_index s (e_id e) = Some (e_control e)"
    using placed_inv_index [OF inv] by (simp add: visible_def)
  show "e_id e \<noteq> 0" "ctl_periodic (tm_controls s (e_control e)) = e_periodic e"
    using placed_inv_entry [OF inv, of "(Running, e)"] by (simp_all add: entry_ok_def)
qed

text \<open>
  C13: a periodic task whose callback returned is queued again under the same id, its series keeping
  its place in \<^verbatim>\<open>pending_count()\<close>: a fixed-rate series one interval after the previous planned due
  time, a fixed-delay series one interval after the callback's end; if that time has already come it
  goes straight to the end of its ready queue, otherwise to the delayed heap.
\<close>

theorem periodic_runs_again:
  assumes inv: "tm_inv H S (e # X) s" and "e_periodic e"
    and "entry_state s e = executing" "\<not> tm_closed s" "\<not> reschedule_requested (control_of s e)"
  shows "put_back now2
      (case e_schedule e of fixed_rate \<Rightarrow> e_planned_due e + e_interval e | fixed_delay \<Rightarrow> now1 + e_interval e)
      e s (finish_after_success now1 now2 e s) \<and>
    tm_index (finish_after_success now1 now2 e s) (e_id e) = Some (e_control e) \<and>
    pending_count (finish_after_success now1 now2 e s) = pending_count s \<and>
    tm_inv H S X (finish_after_success now1 now2 e s)"
proof -
  have eq: "finish_after_success now1 now2 e s = enqueue_existing_locked now2 e (next_periodic_due e now1) s"
    using assms by (simp add: finish_after_success_def Let_def)
  have due: "next_periodic_due e now1 =
      (case e_schedule e of fixed_rate \<Rightarrow> e_planned_due e + e_interval e | fixed_delay \<Rightarrow> now1 + e_interval e)"
    by (simp add: next_periodic_due_def split: PeriodicSchedule.split)
  show ?thesis
    using put_back_existing [OF assms(3), of now2 "next_periodic_due e now1"] existing_fields [OF assms(3)]
      running_index(1) [OF inv] assms(2) tm_inv_enqueue_existing [OF inv assms(3)]
    by (simp add: eq due [symmetric] pending_count_def)
qed

text \<open>The example continued up to the running periodic callback.\<close>

definition running_ex :: "nat TM" where
  "running_ex = uncount_started second_entry claimed_state"

lemma running_ex_inv: "tm_inv [] [] [second_entry] running_ex"
proof -
  have "tm_inv [first_entry, second_entry] [] [] cancelled_state"
    unfolding cancelled_state_def by (rule tm_inv_cancel_loaded [OF snapshot_inv snapshot_facts(1)])
  moreover have "start_entry first_entry cancelled_state = (False, cancelled_state)"
    using snapshot_facts(4) by (simp add: start_entry_def transition_entry)
  ultimately have "tm_inv [second_entry] [] [] cancelled_state"
    using tm_inv_start_entry by fastforce
  moreover have "start_entry second_entry cancelled_state = (True, claimed_state)"
    using snapshot_facts(5) by (simp add: claimed_state_def start_entry_def transition_entry)
  ultimately have "tm_inv [] [second_entry] [] claimed_state"
    using tm_inv_start_entry by fastforce
  then show ?thesis unfolding running_ex_def by (rule tm_inv_uncount_started)
qed

lemma running_ex_eval:
  "entry_state running_ex second_entry = executing" "\<not> tm_closed running_ex"
  "\<not> reschedule_requested (control_of running_ex second_entry)"
  using snapshot_entries(4,5) snapshot_eval(3) snapshot_facts(6-9)
  by (simp_all add: running_ex_def uncount_started_def claimed_state_def start_entry_def transition_eq
      entry_state_def control_of_def)

theorem periodic_runs_again_witness:
  "put_back 4 13 second_entry running_ex (finish_after_success 3 4 second_entry running_ex)"
  using periodic_runs_again [OF running_ex_inv snapshot_eval(3) running_ex_eval, of 4 3]
    snapshot_eval(4,5) by simp

section \<open>Rescheduling and cancelling from a callback\<close>

lemma reschedule_running:
  assumes inv: "tm_inv H S (e # X) s" and "entry_state s e = executing" "\<not> tm_closed s"
  shows "reschedule_from_context (e_id e) due s = (True, set_control (e_control e)
    ((tm_controls s (e_control e))\<lparr>reschedule_requested := True, reschedule_due := due\<rparr>) s)"
  using running_index [OF inv] assms(2,3)
  by (simp add: reschedule_from_context_def entry_state_def)

text \<open>
  C14: a running task that calls \<^verbatim>\<open>reschedule_at(due)\<close> on its context and returns is queued again for
  \<open>due\<close> under its own id, one-shot or periodic, and the request is consumed; a one-shot task
  becomes pending again.
\<close>

theorem reschedule_runs_again:
  assumes inv: "tm_inv H S (e # X) s" and "entry_state s e = executing" "\<not> tm_closed s"
  shows "\<exists>s1. TaskContext_reschedule_at (make_context (e_id e)) due s = (True, s1) \<and>
    put_back now2 due e s (finish_after_success now1 now2 e s1) \<and>
    tm_index (finish_after_success now1 now2 e s1) (e_id e) = Some (e_control e) \<and>
    \<not> reschedule_requested (control_of (finish_after_success now1 now2 e s1) e) \<and>
    pending_count (finish_after_success now1 now2 e s1) =
      pending_count s + (if e_periodic e then 0 else 1)"
proof -
  define s1 where "s1 = set_control (e_control e)
    ((tm_controls s (e_control e))\<lparr>reschedule_requested := True, reschedule_due := due\<rparr>) s"
  let ?t = "clear_reschedule (e_control e) s1"
  have st: "entry_state ?t e = executing"
    using assms(2) by (simp add: s1_def entry_state_def set_control_def)
  have fin: "finish_after_success now1 now2 e s1 = enqueue_existing_locked now2 e due ?t"
    using assms(2,3) by (simp add: finish_after_success_def s1_def entry_state_def set_control_def
        control_of_def Let_def)
  have "put_back now2 due e s (finish_after_success now1 now2 e s1)"
    using put_back_existing [OF st, of now2 due] unfolding fin
    by (subst put_back_cong [of s ?t]) (simp_all add: s1_def set_control_def)
  moreover have "\<not> reschedule_requested (control_of (finish_after_success now1 now2 e s1) e)"
    using st unfolding fin
    by (simp add: enqueue_existing_eq control_of_def Let_def push_delayed_def increment_pending_count_def)
  ultimately show ?thesis
    using reschedule_running [OF assms] existing_fields [OF st, of now2 due] running_index(1) [OF inv]
    unfolding fin [symmetric]
    by (simp add: make_context_def s1_def [symmetric] pending_count_def)
      (simp add: s1_def set_control_def)
qed

theorem reschedule_runs_again_witness:
  "\<exists>s1. TaskContext_reschedule_at (make_context (e_id second_entry)) 77 running_ex = (True, s1) \<and>
     put_back 4 77 second_entry running_ex (finish_after_success 3 4 second_entry s1)"
  using reschedule_runs_again [OF running_ex_inv running_ex_eval(1,2)] by blast

text \<open>
  C15: a running task that cancels itself through its context is final: a later reschedule request
  is refused, and when the callback returns, or throws, the task is forgotten and nothing is
  queued, even if it was periodic or had asked to be rescheduled before.
\<close>

theorem self_cancel_is_final:
  assumes inv: "tm_inv H S (e # X) s" and "entry_state s e = executing"
  shows "\<exists>s1. TaskContext_cancel (make_context (e_id e)) s = (True, s1) \<and>
    TaskContext_is_cancelled (make_context (e_id e)) s1 \<and>
    fst (TaskContext_reschedule_at (make_context (e_id e)) due s1) = False \<and>
    (\<forall>s' \<in> {finish_after_success now1 now2 e s1, finish_after_exception e s1}.
       tm_index s' (e_id e) = None \<and> tm_ready s' = tm_ready s \<and> tm_heap s' = tm_heap s \<and>
       entry_state s' e = cancelled \<and>
       pending_count s' = pending_count s - (if e_periodic e then 1 else 0))"
proof -
  let ?s1 = "snd (cancel_from_context (e_id e) s)"
  note idx = running_index [OF inv]
  have s1: "cancel_from_context (e_id e) s = (True,
      s\<lparr>tm_controls := (tm_controls s)(e_control e := (tm_controls s (e_control e))
           \<lparr>ctl_state := cancelled, reschedule_requested := False\<rparr>),
        tm_pending_count := tm_pending_count s - (if e_periodic e then 1 else 0)\<rparr>)"
    using idx assms(2) by (simp add: cancel_from_context_eq entry_state_def)
  show ?thesis
    using idx by (intro exI [of _ ?s1]) (simp add: s1 make_context_def is_cancelled_for_context_def
        reschedule_from_context_def finish_after_success_def finish_after_exception_def entry_state_def
        Let_def index_erase_def pending_count_def)
qed

theorem self_cancel_is_final_witness:
  "\<exists>s1. TaskContext_cancel (make_context (e_id second_entry)) running_ex = (True, s1) \<and>
     TaskContext_is_cancelled (make_context (e_id second_entry)) s1"
  using self_cancel_is_final [OF running_ex_inv running_ex_eval(1)] by blast

section \<open>Cancellation from outside\<close>

text \<open>
  C16: without a concurrent claim, \<^verbatim>\<open>cancel(id)\<close> returns true exactly for a known id whose task is queued,
  delayed, in an unstarted snapshot, or executing as a periodic task. It then marks the control
  block cancelled and corrects the counters; unless the task is executing the id is forgotten, so a
  second \<^verbatim>\<open>cancel\<close> returns false. Otherwise nothing changes.
\<close>

theorem cancel_behaviour:
  assumes inv: "tm_inv H S X s" and eq: "cancel i s = (ok, s')"
  shows "(ok \<longleftrightarrow> (\<exists>r. tm_index s i = Some r \<and> live_block s r \<and>
      (ctl_state (tm_controls s r) = executing \<longrightarrow> ctl_periodic (tm_controls s r)))) \<and>
    (\<not> ok \<longrightarrow> s' = s) \<and>
    (\<forall>r. ok \<and> tm_index s i = Some r \<longrightarrow>
      ctl_state (tm_controls s' r) = cancelled \<and> \<not> fst (cancel i s') \<and>
      pending_count s' = pending_count s - 1 \<and>
      ready_count s' = ready_count s - (if ctl_state (tm_controls s r) = queued_ready then 1 else 0) \<and>
      (ctl_state (tm_controls s r) \<noteq> executing \<longrightarrow> tm_index s' i = None))"
proof -
  have nz: "i \<noteq> 0" if "tm_index s i = Some r" for r
    by (rule placed_inv_find [OF tm_invD(1) [OF inv] that]) simp
  have eq': "cancel i s = (case tm_index s i of None \<Rightarrow> (False, s)
      | Some r \<Rightarrow> cancel_loaded i r (ctl_state (tm_controls s r)) s)"
    using nz by (auto simp: cancel_def split: option.splits)
  have A: "ok \<longleftrightarrow> (\<exists>r. tm_index s i = Some r \<and> live_block s r \<and>
      (ctl_state (tm_controls s r) = executing \<longrightarrow> ctl_periodic (tm_controls s r)))"
    using eq unfolding eq' by (auto simp: cancel_loaded_eq live_block_def split: option.splits if_splits)
  have B: "\<not> ok \<Longrightarrow> s' = s"
    using eq unfolding eq' by (auto simp: cancel_loaded_eq split: option.splits if_splits)
  have C: "ctl_state (tm_controls s' r) = cancelled \<and> \<not> fst (cancel i s') \<and>
      pending_count s' = pending_count s - 1 \<and>
      ready_count s' = ready_count s - (if ctl_state (tm_controls s r) = queued_ready then 1 else 0) \<and>
      (ctl_state (tm_controls s r) \<noteq> executing \<longrightarrow> tm_index s' i = None)"
    if "ok" "tm_index s i = Some r" for r
  proof -
    define v where "v = ctl_state (tm_controls s r)"
    have "cancel_loaded i r v s = (True, s')" using that eq unfolding eq' v_def by simp
    then have s': "s' = s\<lparr>tm_controls := (tm_controls s)(r := (tm_controls s r)
             \<lparr>ctl_state := cancelled,
              reschedule_requested :=
                (if v = executing then False else reschedule_requested (tm_controls s r))\<rparr>),
          tm_index := (if v = executing then tm_index s else (tm_index s)(i := None)),
          tm_ready_count := tm_ready_count s - (if v = queued_ready then 1 else 0),
          tm_pending_count := tm_pending_count s - 1\<rparr>"
      unfolding cancel_loaded_eq by (simp split: if_splits)
    have "\<not> fst (cancel i s')"
      using that(2) by (simp add: s' cancel_def cancel_loaded_eq)
    moreover have "ctl_state (tm_controls s' r) = cancelled"
        "pending_count s' = pending_count s - 1"
        "ready_count s' = ready_count s - (if v = queued_ready then 1 else 0)"
        "v \<noteq> executing \<longrightarrow> tm_index s' i = None"
      by (simp_all add: s' pending_count_def ready_count_def)
    ultimately show ?thesis unfolding v_def by blast
  qed
  show ?thesis
    by (rule conjI [OF A conjI [OF impI [OF B] allI [OF impI]]]) (assumption | erule conjE, rule C)+
qed

theorem cancel_behaviour_witness: "fst (cancel 1 snapshot_state)"
proof -
  have "live_block snapshot_state 0" by (simp add: live_block_def snapshot_eval(7))
  then show ?thesis
    using cancel_behaviour [OF snapshot_inv prod.collapse [symmetric], of 1] snapshot_facts(1,2) by simp
qed

end
