(* ===== verification/Task_Accept.thy ===== *)
theory Task_Accept
  imports Task_Lifecycle
begin

text \<open>
  Acceptance of new tasks, batches, the closed manager, and the removal of everything queued.
\<close>

section \<open>Accepting a task\<close>

text \<open>
  \<^verbatim>\<open>post\<close> on an open manager accepts every non-empty task under a new, non-zero id: the task goes to
  the end of its priority's ready queue, the other queues and the delayed heap stay, the index
  maps the id to a live, queued control block, and the notifier, if any, is told once.
\<close>

theorem post_appends:
  assumes inv: "tm_inv H S X s" and nz: "tm_next_id s \<noteq> 0"
    and "Task_bool t" "\<not> tm_closed s"
  shows "\<exists>e s'. post t opt s = (tm_next_id s, s') \<and> tm_index s (tm_next_id s) = None \<and>
    e_id e = tm_next_id s \<and> e_task e = t \<and> e_priority e = opt_priority opt \<and> \<not> e_periodic e \<and>
    (\<forall>q. tm_ready s' q = tm_ready s q @ of_priority q [e]) \<and> tm_heap s' = tm_heap s \<and>
    tm_index s' (tm_next_id s) = Some (e_control e) \<and> entry_state s' e = queued_ready \<and>
    ready_count s' = ready_count s + 1 \<and> pending_count s' = pending_count s + 1 \<and>
    tm_notified s' = tm_notified s @ (case tm_notifier s of None \<Rightarrow> [] | Some n \<Rightarrow> [n])"
proof -
  define e where "e = \<lparr> e_id = tm_next_id s, e_seq = tm_next_seq s, e_priority = opt_priority opt,
      e_due = 0, e_periodic = False, e_interval = 0, e_schedule = fixed_delay, e_planned_due = 0,
      e_control = tm_next_control s, e_task = t \<rparr>"
  note fresh = fresh_unindexed [OF tm_invD(1) [OF inv] nz]
  show ?thesis
    using assms(3,4) fresh nz
    by (intro exI [of _ e] exI [of _ "snd (post t opt s)"])
      (simp add: post_def enqueue_ready_def enqueue_ready_locked_def tm_update_defs
        task_ids.gen_nonzero index_emplace_def notify_if_accepted_def notify_work_available_def e_def
        of_priority_def entry_state_def ready_count_def pending_count_def split: option.split)
qed

theorem post_appends_witness:
  "\<exists>e s'. post (NoArgModel 5) default_TaskOptions two_tasks = (3, s') \<and> e_task e = NoArgModel 5 \<and>
     (\<forall>q. tm_ready s' q = tm_ready two_tasks q @ of_priority q [e])"
proof -
  have "tm_next_id two_tasks = 3" "\<not> tm_closed two_tasks" by (simp_all add: two_tasks_eq)
  then show ?thesis
    using post_appends [OF two_tasks_inv _ Task_bool_simps(2), of 5 default_TaskOptions]
    by (simp only:) fastforce
qed

text \<open>Posting one by one; \<open>quiet\<close> forgets the notifier calls.\<close>

fun post_all ::
  "'f Task list \<Rightarrow> TaskOptions \<Rightarrow> ('f, 'z) TM_scheme \<Rightarrow> TaskId list \<times> ('f, 'z) TM_scheme"
where
  "post_all [] opt s = ([], s)"
| "post_all (t # ts) opt s =
     (let (i, s1) = post t opt s; (is, s2) = post_all ts opt s1 in (i # is, s2))"

definition quiet :: "('f, 'z) TM_scheme \<Rightarrow> ('f, 'z) TM_scheme" where
  "quiet s = s\<lparr>tm_notified := []\<rparr>"

lemma quiet_notify [simp]: "quiet (notify_work_available s) = quiet s"
  by (simp add: quiet_def notify_work_available_def split: option.splits)

lemma quiet_update [simp]: "quiet (s\<lparr>tm_notified := ns\<rparr>) = quiet s"
  by (simp add: quiet_def)

lemma enqueue_ready_quiet:
  "fst (enqueue_ready_locked t opt (quiet s)) = fst (enqueue_ready_locked t opt s)"
  "quiet (snd (enqueue_ready_locked t opt (quiet s))) = quiet (snd (enqueue_ready_locked t opt s))"
  by (simp_all add: enqueue_ready_locked_def tm_update_defs index_emplace_def quiet_def
      split: prod.splits option.splits)

lemma enqueue_ready_facts:
  "fst (enqueue_ready_locked t opt s) \<noteq> 0"
  "tm_closed (snd (enqueue_ready_locked t opt s)) = tm_closed s"
  "tm_notified (snd (enqueue_ready_locked t opt s)) = tm_notified s"
  "tm_notifier (snd (enqueue_ready_locked t opt s)) = tm_notifier s"
  using task_ids.fst_gen_nonzero [of "tm_next_id s"]
  by (simp_all add: enqueue_ready_locked_def tm_update_defs index_emplace_def case_prod_beta
      split: option.splits)

lemma post_open:
  assumes "Task_bool t" "\<not> tm_closed s"
  shows "post t opt s = (fst (enqueue_ready_locked t opt s),
    notify_work_available (snd (enqueue_ready_locked t opt s)))"
  using assms enqueue_ready_facts(1) [of t opt s]
  by (cases "enqueue_ready_locked t opt s")
    (simp add: post_def enqueue_ready_def notify_if_accepted_def)

lemma post_batch_loop_facts:
  "list_all2 (\<lambda>t i. i = 0 \<longleftrightarrow> \<not> Task_bool t) ts (fst (post_batch_loop ts opt s)) \<and>
   (fst (snd (post_batch_loop ts opt s)) \<longleftrightarrow> (\<exists>t \<in> set ts. Task_bool t)) \<and>
   tm_notified (snd (snd (post_batch_loop ts opt s))) = tm_notified s \<and>
   tm_notifier (snd (snd (post_batch_loop ts opt s))) = tm_notifier s"
proof (induction ts arbitrary: s)
  case (Cons t ts)
  show ?case
    using Cons [of s] Cons [of "snd (enqueue_ready_locked t opt s)"] enqueue_ready_facts [of t opt s]
    by (cases "Task_bool t") (simp_all add: case_prod_beta)
qed simp

lemma post_batch_loop_quiet:
  "quiet s = quiet s' \<Longrightarrow> \<not> tm_closed s \<Longrightarrow>
     fst (post_batch_loop ts opt s) = fst (post_all ts opt s') \<and>
     quiet (snd (snd (post_batch_loop ts opt s))) = quiet (snd (post_all ts opt s'))"
proof (induction ts arbitrary: s s')
  case (Cons t ts)
  have "tm_closed (quiet s') = tm_closed s" using Cons.prems(1) by (metis quiet_def TM.select_convs(8) TM.surjective TM.update_convs(13))
  then have closed: "\<not> tm_closed s'" using Cons.prems(2) by (simp add: quiet_def)
  show ?case
  proof (cases "Task_bool t")
    case True
    have "fst (enqueue_ready_locked t opt s) = fst (enqueue_ready_locked t opt s')"
      "quiet (snd (enqueue_ready_locked t opt s)) = quiet (snd (enqueue_ready_locked t opt s'))"
      using Cons.prems(1) enqueue_ready_quiet by metis+
    then show ?thesis
      using Cons.IH [of "snd (enqueue_ready_locked t opt s)" "snd (post t opt s')"] True
        Cons.prems(2) closed enqueue_ready_facts(2) [of t opt s]
      by (simp add: post_open case_prod_beta Let_def)
  next
    case False
    then show ?thesis using Cons by (simp add: post_def case_prod_beta Let_def)
  qed
qed simp

text \<open>
  C18: \<^verbatim>\<open>post_batch\<close> on an open manager has the effect of posting its tasks one by one: the same ids in
  input order, zero exactly for the empty tasks, and the same manager, except that the notifier is
  told once for the batch and only when something was accepted.
\<close>

theorem post_batch_is_posts:
  assumes "\<not> tm_closed s"
  shows "fst (post_batch ts opt s) = fst (post_all ts opt s) \<and>
    quiet (snd (post_batch ts opt s)) = quiet (snd (post_all ts opt s)) \<and>
    list_all2 (\<lambda>t i. i = 0 \<longleftrightarrow> \<not> Task_bool t) ts (fst (post_batch ts opt s)) \<and>
    tm_notified (snd (post_batch ts opt s)) = tm_notified s @
      (if \<exists>t \<in> set ts. Task_bool t then (case tm_notifier s of None \<Rightarrow> [] | Some n \<Rightarrow> [n]) else [])"
  using post_batch_loop_quiet [OF refl assms, of ts opt] post_batch_loop_facts [of ts opt s] assms
  by (simp add: post_batch_def case_prod_beta notify_work_available_def split: option.splits)

theorem post_batch_is_posts_witness:
  "list_all2 (\<lambda>t i. i = 0 \<longleftrightarrow> \<not> Task_bool t) [NoArgModel (5::nat), Empty_task]
     (fst (post_batch [NoArgModel 5, Empty_task] default_TaskOptions two_tasks))"
proof -
  have "\<not> tm_closed two_tasks" by (simp add: two_tasks_eq)
  from post_batch_is_posts [OF this] show ?thesis by blast
qed

section \<open>The closed manager\<close>

text \<open>
  C19: after \<^verbatim>\<open>close()\<close> every submission is refused with id zero (\<^verbatim>\<open>submit\<close> with its exception) and leaves
  the manager exactly as it was, reschedule requests are refused, and a running task, periodic or
  not, is finished when its callback returns instead of being queued again.
\<close>

theorem closed_refuses:
  assumes "tm_closed s"
  shows "post t opt s = (0, s) \<and> post_at now due t opt s = (0, s) \<and>
    post_after now now2 delay t opt s = (0, s) \<and>
    post_every now now2 interval t popt s = (0, s) \<and>
    post_every_after now now2 delay interval t popt s = (0, s) \<and>
    add_task_at_system now now1 now2 due t opt s = (0, s) \<and>
    post_batch ts opt s = (replicate (length ts) 0, s) \<and>
    submit f opt s = (Inl (Runtime_error ''TaskManager rejected task''), s) \<and>
    reschedule_from_context i due s = (False, s) \<and>
    tm_ready (finish_after_success now1 now2 e s) = tm_ready s \<and>
    tm_heap (finish_after_success now1 now2 e s) = tm_heap s \<and>
    (entry_state s e = executing \<longrightarrow>
       entry_state (finish_after_success now1 now2 e s) e = completed \<and>
       tm_index (finish_after_success now1 now2 e s) (e_id e) = None)"
  using assms
  by (simp add: post_def enqueue_ready_def notify_if_accepted_def post_at_def post_after_def
      post_every_def post_every_after_def add_task_at_system_def post_batch_def submit_def
      reschedule_from_context_def finish_after_success_def transition_entry Let_def index_erase_def
      entry_state_def decrement_pending_count_def)

theorem closed_refuses_witness:
  "post (NoArgModel 5) default_TaskOptions (close two_tasks) = (0, close two_tasks)"
  using closed_refuses [of "close two_tasks" "NoArgModel 5" default_TaskOptions]
  by (simp add: close_def Let_def)

section \<open>Clearing\<close>

lemma clear_queue_count:
  "distinct (map e_control q) \<Longrightarrow> clear_queue q (k, s) = (k', s') \<Longrightarrow>
     k' = k + length (live_in s queued_ready q) \<and>
     (\<forall>r. r \<notin> e_control ` set q \<longrightarrow> tm_controls s' r = tm_controls s r) \<and> tm_ready s' = tm_ready s \<and>
     tm_heap s' = tm_heap s"
proof (induction q arbitrary: k s)
  case (Cons e q)
  have d: "distinct (map e_control q)" "e_control e \<notin> e_control ` set q" using Cons.prems(1) by auto
  show ?case
  proof (cases "entry_state s e = queued_ready")
    case True
    define t where "t = index_erase (e_id e) (decrement_pending_count (decrement_ready_count
        (set_state (e_control e) cancelled s)))"
    have c: "tm_controls t = (tm_controls s)(e_control e := (tm_controls s (e_control e))\<lparr>ctl_state := cancelled\<rparr>)"
      "tm_ready t = tm_ready s" "tm_heap t = tm_heap s"
      by (simp_all add: t_def index_erase_def)
    have "live_in t queued_ready q = live_in s queued_ready q"
      by (rule live_in_cong) (use d(2) in \<open>simp add: c, metis image_eqI\<close>)
    moreover have "clear_queue q (Suc k, t) = (k', s')"
      using Cons.prems(2) True by (simp add: transition_entry t_def)
    ultimately show ?thesis using Cons.IH [OF d(1), of "Suc k" t] True c by auto
  next
    case False
    then show ?thesis using Cons.IH [OF d(1), of k s] Cons.prems(2) by (simp add: transition_entry)
  qed
qed simp

lemma clear_heap_count:
  "distinct (map e_control h) \<Longrightarrow> clear_heap h (k, s) = (k', s') \<Longrightarrow>
     k' = k + length (live_in s queued_delayed h)"
proof (induction h arbitrary: k s)
  case (Cons e h)
  have d: "distinct (map e_control h)" "e_control e \<notin> e_control ` set h" using Cons.prems(1) by auto
  show ?case
  proof (cases "entry_state s e = queued_delayed")
    case True
    define t where "t = index_erase (e_id e) (decrement_pending_count
        (set_state (e_control e) cancelled s))"
    have "live_in t queued_delayed h = live_in s queued_delayed h"
      by (rule live_in_cong) (use d(2) in \<open>simp add: t_def index_erase_def, metis image_eqI\<close>)
    moreover have "clear_heap h (Suc k, t) = (k', s')"
      using Cons.prems(2) True by (simp add: transition_entry t_def)
    ultimately show ?thesis using Cons.IH [OF d(1), of "Suc k" t] True by simp
  next
    case False
    then show ?thesis using Cons.IH [OF d(1), of k s] Cons.prems(2) by (simp add: transition_entry)
  qed
qed simp

lemma clear_ready_count:
  assumes "distinct (map e_control (tm_ready s i))" "clear_ready i (k, s) = (k', s')"
  shows "k' = k + length (live_in s queued_ready (tm_ready s i))"
    "\<And>es v. e_control ` set es \<inter> e_control ` set (tm_ready s i) = {} \<Longrightarrow> live_in s' v es = live_in s v es"
    "\<And>j. j \<noteq> i \<Longrightarrow> tm_ready s' j = tm_ready s j" "tm_heap s' = tm_heap s"
proof -
  obtain t where t: "clear_queue (tm_ready s i) (k, s) = (k', t)"
      and s': "s' = t\<lparr>tm_ready := (tm_ready t)(i := [])\<rparr>"
    using assms(2) by (auto simp: clear_ready_def split: prod.splits)
  note spec = clear_queue_count [OF assms(1) t]
  show "k' = k + length (live_in s queued_ready (tm_ready s i))" "tm_heap s' = tm_heap s"
    "\<And>j. j \<noteq> i \<Longrightarrow> tm_ready s' j = tm_ready s j"
    using spec by (simp_all add: s')
  show "live_in s' v es = live_in s v es"
    if "e_control ` set es \<inter> e_control ` set (tm_ready s i) = {}" for es v
  proof (rule live_in_cong)
    fix e assume "e \<in> set es"
    then have "e_control e \<notin> e_control ` set (tm_ready s i)" using that by blast
    then show "tm_controls s' (e_control e) = tm_controls s (e_control e)" using spec by (simp add: s')
  qed
qed

lemma clear_pending_count:
  assumes inv: "tm_inv [] [] [] s" and eq: "clear_pending s = (k, s')"
  shows "k = length (live_in s queued_ready (ready_list s)) + length (live_in s queued_delayed (tm_heap s))"
proof -
  obtain k0 s0 where 0: "clear_ready 0 (0, s) = (k0, s0)" by (cases "clear_ready 0 (0, s)")
  obtain k1 s1 where 1: "clear_ready 1 (k0, s0) = (k1, s1)" by (cases "clear_ready 1 (k0, s0)")
  obtain k2 s2 where 2: "clear_ready 2 (k1, s1) = (k2, s2)" by (cases "clear_ready 2 (k1, s1)")
  obtain t where t: "clear_heap (tm_heap s2) (k2, s2) = (k, t)"
    using eq 0 1 2 by (auto simp: clear_pending_def split: prod.splits)
  have d: "distinct (map e_control (tm_ready s 0))" "distinct (map e_control (tm_ready s 1))"
      "distinct (map e_control (tm_ready s 2))" "distinct (map e_control (tm_heap s))"
    and dis: "e_control ` set (tm_ready s 1) \<inter> e_control ` set (tm_ready s 0) = {}"
      "e_control ` set (tm_ready s 2) \<inter> e_control ` set (tm_ready s 0) = {}"
      "e_control ` set (tm_ready s 2) \<inter> e_control ` set (tm_ready s 1) = {}"
      "e_control ` set (tm_heap s) \<inter> e_control ` set (tm_ready s 0) = {}"
      "e_control ` set (tm_heap s) \<inter> e_control ` set (tm_ready s 1) = {}"
      "e_control ` set (tm_heap s) \<inter> e_control ` set (tm_ready s 2) = {}"
    using located_controls [OF inv] by (auto simp: ready_list_def Int_commute)
  note c0 = clear_ready_count [OF d(1) 0]
  have r0: "tm_ready s0 1 = tm_ready s 1" "tm_ready s0 2 = tm_ready s 2" using c0(3) by simp_all
  note c1 = clear_ready_count [OF _ 1, unfolded r0, OF d(2)]
  have r1: "tm_ready s1 2 = tm_ready s 2" using c1(3) [of 2] r0 by simp
  note c2 = clear_ready_count [OF _ 2, unfolded r1, OF d(3)]
  have h: "tm_heap s2 = tm_heap s" using c0(4) c1(4) c2(4) by simp
  have "k = k2 + length (live_in s2 queued_delayed (tm_heap s))"
    using clear_heap_count [OF _ t] d(4) h by simp
  then show ?thesis
    using c0(1) c1(1) c2(1) c0(2) [OF dis(1)] c0(2) [OF dis(2)] c1(2) [OF dis(3)]
      c0(2) [OF dis(4)] c1(2) [OF dis(5)] c2(2) [OF dis(6)]
    by (simp add: ready_list_def)
qed

lemma emptied:
  assumes inv: "tm_inv [] [] [] s" and "\<forall>i < 3. tm_ready s i = []" "tm_heap s = []"
  shows "ready_count s = 0" "pending_count s = 0" "tm_index s = Map.empty"
    "r < tm_next_control s \<Longrightarrow> \<not> live_block s r"
proof -
  have e: "placed_inv {#} s"
    using tm_invD(1) [OF inv] assms(2,3) by (simp add: located_def ready_mset_def)
  then show "ready_count s = 0" "pending_count s = 0" "r < tm_next_control s \<Longrightarrow> \<not> live_block s r"
    by (auto simp: placed_inv_def ready_count_def pending_count_def)
  show "tm_index s = Map.empty"
    using placed_inv_listed [OF e] by (intro ext) (simp add: listed_def not_Some_eq [symmetric] del: not_Some_eq)
qed

text \<open>
  C17: \<^verbatim>\<open>clear_pending()\<close> on a manager without a \<^verbatim>\<open>process()\<close> in progress drops every live task, ready or
  delayed, and returns their number; afterwards both counters are zero, the queues, the heap and
  the index are empty, and every control block is cancelled or completed. The destructor leaves
  the manager closed and in the same condition.
\<close>

theorem clear_pending_drops_all:
  assumes inv: "tm_inv [] [] [] s"
  shows "fst (clear_pending s) =
      length (live_in s queued_ready (ready_list s)) + length (live_in s queued_delayed (tm_heap s)) \<and>
    (\<forall>s' \<in> {snd (clear_pending s), TaskManager_destroy s}.
       ready_count s' = 0 \<and> pending_count s' = 0 \<and> tm_index s' = Map.empty \<and>
       (\<forall>i < 3. tm_ready s' i = []) \<and> tm_heap s' = [] \<and>
       (\<forall>r < tm_next_control s'. \<not> live_block s' r))"
proof -
  have all: "ready_count s' = 0 \<and> pending_count s' = 0 \<and> tm_index s' = Map.empty \<and>
       (\<forall>i < 3. tm_ready s' i = []) \<and> tm_heap s' = [] \<and> (\<forall>r < tm_next_control s'. \<not> live_block s' r)"
    if "tm_inv [] [] [] t" "s' = snd (clear_pending t)" for t s' :: "('a, 'b) TM_scheme"
  proof -
    have "clear_pending t = (fst (clear_pending t), s')" using that(2) by simp
    note c = tm_inv_clear_pending [OF that(1) this]
    show ?thesis using emptied [of s'] c by blast
  qed
  have "fst (clear_pending s) =
      length (live_in s queued_ready (ready_list s)) + length (live_in s queued_delayed (tm_heap s))"
    by (rule clear_pending_count [OF inv]) (rule prod.collapse [symmetric])
  then show ?thesis
    using all [OF inv] all [OF tm_inv_close [OF inv]] by (simp add: TaskManager_destroy_def)
qed

theorem clear_pending_drops_all_witness: "tm_index (snd (clear_pending two_tasks)) = Map.empty"
  using clear_pending_drops_all [OF two_tasks_inv] by blast

end
