(* ===== verification/Task_Refine.thy ===== *)
theory Task_Refine
  imports Task_Theorems "HOL-Library.Sublist"
begin

text \<open>
  The function \<open>process\<close> refines the step relation of \<open>Task_Steps\<close>: whatever a single call does, around any
  user code that is itself a sequence of steps, is one run of the concurrent manager. So everything that is
  proved of runs holds of calls, nested ones included.
\<close>

text \<open>
  A piece of code is by steps when from every state without a pending \<^verbatim>\<open>cancel()\<close> a run leads to its result
  and leaves the frames as they are.
\<close>

definition by_steps :: "(('f, 'z) TM_scheme \<Rightarrow> ('f, 'z) TM_scheme) \<Rightarrow> bool" where
  "by_steps act \<longleftrightarrow>
     (\<forall>g. sys_cancel g = None \<longrightarrow> (\<exists>ls. tm_run g ls (g\<lparr>sys_tm := act (sys_tm g)\<rparr>)))"

fun started_ids :: "'f label list \<Rightarrow> TaskId list" where
  "started_ids [] = []"
| "started_ids (Started e # ls) = e_id e # started_ids ls"
| "started_ids (l # ls) = started_ids ls"

lemma started_ids_append: "started_ids (ls @ ms) = started_ids ls @ started_ids ms"
  by (induction ls rule: started_ids.induct) simp_all

lemma by_stepsE:
  assumes "by_steps act" "sys_cancel g = None"
  obtains ls where "tm_run g ls (g\<lparr>sys_tm := act (sys_tm g)\<rparr>)"
  using assms by (auto simp: by_steps_def)

lemma by_steps_id: "by_steps (\<lambda>s. s)"
  by (auto simp: by_steps_def intro: run_nil)

lemma by_steps_comp: "by_steps f \<Longrightarrow> by_steps h \<Longrightarrow> by_steps (\<lambda>s. h (f s))"
  unfolding by_steps_def
proof (intro allI impI)
  fix g :: "('a, 'b) sys"
  assume f: "\<forall>g. sys_cancel g = None \<longrightarrow> (\<exists>ls. tm_run g ls (g\<lparr>sys_tm := f (sys_tm g)\<rparr>))"
    and h: "\<forall>g. sys_cancel g = None \<longrightarrow> (\<exists>ls. tm_run g ls (g\<lparr>sys_tm := h (sys_tm g)\<rparr>))"
    and g: "sys_cancel g = None"
  obtain ls where "tm_run g ls (g\<lparr>sys_tm := f (sys_tm g)\<rparr>)" using f g by blast
  moreover obtain ms where "tm_run (g\<lparr>sys_tm := f (sys_tm g)\<rparr>) ms (g\<lparr>sys_tm := h (f (sys_tm g))\<rparr>)"
    using h [rule_format, of "g\<lparr>sys_tm := f (sys_tm g)\<rparr>"] g by auto
  ultimately show "\<exists>ls. tm_run g ls (g\<lparr>sys_tm := h (f (sys_tm g))\<rparr>)"
    using tm_run_append by blast
qed

lemma by_steps_producer: "(\<And>s. producer_step s (act s)) \<Longrightarrow> by_steps act"
  unfolding by_steps_def by (blast intro: tm_run.intros tm_step.produce)

text \<open>A whole \<^verbatim>\<open>cancel()\<close>: the load, then the rest.\<close>

lemma by_steps_cancel: "by_steps (\<lambda>s. snd (cancel i s))"
  unfolding by_steps_def
proof (intro allI impI)
  fix g :: "('a, 'b) sys"
  assume g: "sys_cancel g = None"
  show "\<exists>ls. tm_run g ls (g\<lparr>sys_tm := snd (cancel i (sys_tm g))\<rparr>)"
  proof (cases "i = 0 \<or> tm_index (sys_tm g) i = None")
    case True
    then have "snd (cancel i (sys_tm g)) = sys_tm g" by (auto simp: cancel_def)
    then show ?thesis by (auto intro: run_nil)
  next
    case False
    then obtain r where r: "i \<noteq> 0" "tm_index (sys_tm g) i = Some r" by auto
    let ?v = "ctl_state (tm_controls (sys_tm g) r)"
    obtain ok s' where c: "cancel_loaded i r ?v (sys_tm g) = (ok, s')" by fastforce
    let ?h = "g\<lparr>sys_cancel := Some (i, r, ?v)\<rparr>"
    have "tm_step ?h (Cancel_result r ?v ok) (?h\<lparr>sys_tm := s', sys_cancel := None\<rparr>)"
      by (rule tm_step.cancel_ends) (use c in simp_all)
    moreover have "?h\<lparr>sys_tm := s', sys_cancel := None\<rparr> = g\<lparr>sys_tm := snd (cancel i (sys_tm g))\<rparr>"
      using r c g by (cases g) (simp add: cancel_def)
    ultimately show ?thesis
      using tm_step.cancel_loads [OF g r] by (metis run_cons run_nil)
  qed
qed

lemma sys_commute: "g\<lparr>sys_frames := a, sys_tm := b\<rparr> = g\<lparr>sys_tm := b, sys_frames := a\<rparr>" for g :: "('f, 'z) sys"
  by (cases g) simp

text \<open>One step of the innermost frame.\<close>

lemma top_frame_step:
  assumes "sys_frames g = f # fs" "sys_cancel g = None" "frame_step True (f, sys_tm g) l (f', s')"
    and "tm_run (g\<lparr>sys_tm := s', sys_frames := set_frame [] f' fs\<rparr>) ls h"
  shows "tm_run g (l # ls) h"
  using tm_step.frame [of g "[]" f fs l f' s'] assms by (auto intro: run_cons)

lemma top_frame_code:
  assumes "by_steps act" "sys_cancel g = None" "tm_run (g\<lparr>sys_tm := act (sys_tm g)\<rparr>) ls h"
  shows "\<exists>ms. tm_run g ms h \<and> subseq (started_ids ls) (started_ids ms)"
proof -
  obtain ks where "tm_run g ks (g\<lparr>sys_tm := act (sys_tm g)\<rparr>)" by (rule by_stepsE [OF assms(1,2)])
  then have "tm_run g (ks @ ls) h" using assms(3) tm_run_append by blast
  then show ?thesis by (auto simp: started_ids_append intro!: exI [of _ "ks @ ls"] list_emb_append2)
qed

text \<open>The callback is by steps because the callable is.\<close>

lemma by_steps_callback:
  assumes "\<forall>f ctx. by_steps (\<lambda>s. fst (run f ctx s))"
  shows "by_steps (\<lambda>s. fst (Task_call_context run t ctx s))"
  using assms by (cases t) (simp_all add: by_steps_id)

lemma by_steps_report:
  assumes "\<forall>h x. by_steps (\<lambda>s. fst (hrun h x s))"
  shows "\<exists>act. by_steps act \<and> snd (report_exception hrun x s) = act s"
proof (cases "tm_handler s")
  case None
  then show ?thesis using by_steps_id by (auto simp: report_exception_def)
next
  case (Some h)
  then have "snd (report_exception hrun x s) = fst (hrun h x s)"
    by (simp add: report_exception_def split: prod.split option.split)
  then show ?thesis using assms by blast
qed

section \<open>The loop\<close>

text \<open>The steps of a frame from a claimed entry to the end of its callback.\<close>

lemma claimed_steps:
  assumes run: "\<forall>f ctx. by_steps (\<lambda>s. fst (run f ctx s))"
    and g: "sys_frames g = Frame (e # es) Between # fs" "sys_cancel g = None"
    and claim: "start_entry e (sys_tm g) = (True, s1)"
    and later: "tm_run (g\<lparr>sys_tm := fst (Task_call_context run (e_task e) ctx (uncount_started e s1)),
                          sys_frames := Frame es (Calling e) # fs\<rparr>) ls h"
  shows "\<exists>ms. tm_run g ms h \<and> subseq (e_id e # started_ids ls) (started_ids ms)"
proof -
  let ?c = "g\<lparr>sys_tm := s1, sys_frames := Frame es (Counting e) # fs\<rparr>"
  let ?d = "?c\<lparr>sys_tm := uncount_started e s1, sys_frames := Frame es (Calling e) # fs\<rparr>"
  obtain ms where ms: "tm_run ?d ms h" "subseq (started_ids ls) (started_ids ms)"
    using top_frame_code [OF by_steps_callback [OF run, where t = "e_task e" and ctx = ctx], where g = ?d and ls = ls and h = h] later g(2) by (auto simp: sys_commute)
  have "tm_run ?c (Silent # ms) h"
    by (rule top_frame_step [OF _ _ frame_step.uncount]) (use g ms(1) in simp_all)
  then have "tm_run g (Started e # Silent # ms) h"
    by (intro top_frame_step [OF g frame_step.claim [OF claim]]) simp
  then show ?thesis using ms(2) by (auto intro!: exI [of _ "Started e # Silent # ms"])
qed

text \<open>The end of a callback: it returned, or it threw and the handler was asked.\<close>

lemma callback_end_steps:
  assumes hrun: "\<forall>h x. by_steps (\<lambda>s. fst (hrun h x s))"
    and g: "sys_frames g = Frame es (Calling e) # fs" "sys_cancel g = None"
    and loop: "\<And>j p t st q t'. process_loop run hrun nows es j p t = (st, q, t') \<Longrightarrow>
      \<exists>ls. tm_run (g\<lparr>sys_tm := t, sys_frames := Frame es Between # fs\<rparr>) ls (g\<lparr>sys_tm := t', sys_frames := fs\<rparr>) \<and>
           subseq st (started_ids ls)"
    and res: "(case x of
        None \<Rightarrow> process_loop run hrun nows es i (Suc processed) (finish_after_success n1 n2 e (sys_tm g)) = (st, r, s')
      | Some y \<Rightarrow>
          (case report_exception hrun y (finish_after_exception e (sys_tm g)) of
             (Inr True, s3) \<Rightarrow> process_loop run hrun nows es i (Suc processed) s3 = (st, r, s')
           | (_, s3) \<Rightarrow> st = [] \<and> s' = restore_unrun es s3))"
  shows "\<exists>ls. tm_run g ls (g\<lparr>sys_tm := s', sys_frames := fs\<rparr>) \<and> subseq st (started_ids ls)"
proof (cases x)
  case None
  let ?t = "finish_after_success n1 n2 e (sys_tm g)"
  obtain ls where ls: "tm_run (g\<lparr>sys_tm := ?t, sys_frames := Frame es Between # fs\<rparr>) ls (g\<lparr>sys_tm := s', sys_frames := fs\<rparr>)"
      "subseq st (started_ids ls)"
    using loop [where t = ?t and j = i and p = "Suc processed"] res None by auto
  have "tm_run g (Silent # ls) (g\<lparr>sys_tm := s', sys_frames := fs\<rparr>)"
    by (rule top_frame_step [OF g frame_step.returned]) (use ls(1) in simp)
  then show ?thesis using ls(2) by (auto intro!: exI [of _ "Silent # ls"])
next
  case (Some y)
  let ?t = "finish_after_exception e (sys_tm g)"
  let ?c = "g\<lparr>sys_tm := ?t, sys_frames := Frame es Reporting # fs\<rparr>"
  obtain act where act: "by_steps act" "snd (report_exception hrun y ?t) = act ?t"
    using by_steps_report [OF hrun] by blast
  let ?d = "?c\<lparr>sys_tm := act ?t\<rparr>"
  have "\<exists>ls. tm_run ?d ls (g\<lparr>sys_tm := s', sys_frames := fs\<rparr>) \<and> subseq st (started_ids ls)"
  proof (cases "fst (report_exception hrun y ?t) = Inr True")
    case True
    then have "process_loop run hrun nows es i (Suc processed) (act ?t) = (st, r, s')"
      using res Some act(2) by (auto split: prod.splits)
    then obtain ls where ls: "tm_run (g\<lparr>sys_tm := act ?t, sys_frames := Frame es Between # fs\<rparr>) ls
        (g\<lparr>sys_tm := s', sys_frames := fs\<rparr>)" "subseq st (started_ids ls)" using loop by blast
    have "tm_run ?d (Silent # ls) (g\<lparr>sys_tm := s', sys_frames := fs\<rparr>)"
      by (rule top_frame_step [OF _ _ frame_step.handled]) (use g(2) ls(1) in simp_all)
    then show ?thesis using ls(2) by (auto intro!: exI [of _ "Silent # ls"])
  next
    case False
    then have st: "st = []" "s' = restore_unrun es (act ?t)"
      using res Some act(2) by (auto split: prod.splits sum.splits bool.splits)
    have "tm_run ?d [Silent] (g\<lparr>sys_tm := s', sys_frames := fs\<rparr>)"
      by (rule top_frame_step [OF _ _ frame_step.rethrown]) (use g(2) st in \<open>auto simp: sys_commute intro: run_nil\<close>)
    then show ?thesis using st(1) by blast
  qed
  then obtain ls where ls: "tm_run ?d ls (g\<lparr>sys_tm := s', sys_frames := fs\<rparr>)" "subseq st (started_ids ls)" by blast
  obtain ms where ms: "tm_run ?c ms (g\<lparr>sys_tm := s', sys_frames := fs\<rparr>)" "subseq (started_ids ls) (started_ids ms)"
    using top_frame_code [OF act(1), where g = ?c and ls = ls] ls(1) g(2) by (auto simp: sys_commute)
  have "tm_run g (Silent # ms) (g\<lparr>sys_tm := s', sys_frames := fs\<rparr>)"
    by (rule top_frame_step [OF g frame_step.threw]) (use ms(1) in simp)
  then show ?thesis
    using subseq_order.order_trans [OF ls(2) ms(2)] by (auto intro!: exI [of _ "Silent # ms"])
qed

lemma process_loop_steps:
  assumes run: "\<forall>f ctx. by_steps (\<lambda>s. fst (run f ctx s))" and hrun: "\<forall>h x. by_steps (\<lambda>s. fst (hrun h x s))"
    and "sys_frames g = Frame batch Between # fs" "sys_cancel g = None"
    and "process_loop run hrun nows batch i processed (sys_tm g) = (started, r, s')"
  shows "\<exists>ls. tm_run g ls (g\<lparr>sys_tm := s', sys_frames := fs\<rparr>) \<and> subseq started (started_ids ls)"
  using assms(3-)
proof (induction batch arbitrary: g i processed started r s')
  case Nil
  have "tm_run g [Silent] (g\<lparr>sys_tm := sys_tm g, sys_frames := fs\<rparr>)"
    by (rule top_frame_step [OF Nil.prems(1,2) frame_step.returns]) (simp add: run_nil)
  then show ?case using Nil.prems(3) by (auto intro!: exI [of _ "[Silent]"])
next
  case (Cons e es)
  note g = Cons.prems(1,2)
  obtain ok s1 where claim: "start_entry e (sys_tm g) = (ok, s1)" by fastforce
  let ?call = "Task_call_context run (e_task e) (make_context (e_id e)) (uncount_started e s1)"
  have loop: "\<exists>ls. tm_run (g\<lparr>sys_tm := t, sys_frames := Frame es Between # fs\<rparr>) ls (g\<lparr>sys_tm := t', sys_frames := fs\<rparr>) \<and>
      subseq st (started_ids ls)" if "process_loop run hrun nows es j p t = (st, q, t')" for t j p st q t'
    using Cons.IH [of "g\<lparr>sys_tm := t, sys_frames := Frame es Between # fs\<rparr>" j p st q t'] that g(2) by simp
  show ?case
  proof (cases ok)
    case False
    then obtain ls where ls: "tm_run (g\<lparr>sys_tm := s1, sys_frames := Frame es Between # fs\<rparr>) ls
        (g\<lparr>sys_tm := s', sys_frames := fs\<rparr>)" "subseq started (started_ids ls)"
      using Cons.prems(3) claim loop [where t = s1 and j = "Suc i" and p = processed] by auto
    have "tm_run g (Silent # ls) (g\<lparr>sys_tm := s', sys_frames := fs\<rparr>)"
      by (rule top_frame_step [OF g frame_step.skip]) (use claim False ls(1) in simp_all)
    then show ?thesis using ls(2) by (auto intro!: exI [of _ "Silent # ls"])
  next
    case True
    let ?g = "g\<lparr>sys_tm := fst ?call, sys_frames := Frame es (Calling e) # fs\<rparr>"
    define st where "st = tl started"
    have "started = e_id e # st \<and>
      (case snd ?call of
        None \<Rightarrow> process_loop run hrun nows es (Suc i) (Suc processed)
                  (finish_after_success (fst (nows i)) (snd (nows i)) e (sys_tm ?g)) = (st, r, s')
      | Some y \<Rightarrow>
          (case report_exception hrun y (finish_after_exception e (sys_tm ?g)) of
             (Inr True, s3) \<Rightarrow> process_loop run hrun nows es (Suc i) (Suc processed) s3 = (st, r, s')
           | (_, s3) \<Rightarrow> st = [] \<and> s' = restore_unrun es s3))"
      using Cons.prems(3) claim True by (auto simp: st_def split: prod.splits option.splits sum.splits bool.splits)
    moreover from this have "\<exists>ls. tm_run ?g ls (?g\<lparr>sys_tm := s', sys_frames := fs\<rparr>) \<and> subseq st (started_ids ls)"
      by (intro callback_end_steps [OF hrun, where run = run and nows = nows]) (use g(2) loop in auto)
    ultimately have "\<exists>st ls. tm_run ?g ls (g\<lparr>sys_tm := s', sys_frames := fs\<rparr>) \<and> started = e_id e # st \<and>
        subseq st (started_ids ls)" by auto
    then obtain st ls where ls: "tm_run (g\<lparr>sys_tm := fst ?call, sys_frames := Frame es (Calling e) # fs\<rparr>) ls
        (g\<lparr>sys_tm := s', sys_frames := fs\<rparr>)" "started = e_id e # st" "subseq st (started_ids ls)"
      by blast
    obtain ms where "tm_run g ms (g\<lparr>sys_tm := s', sys_frames := fs\<rparr>)"
        "subseq (e_id e # started_ids ls) (started_ids ms)"
      using claimed_steps [OF run g claim [unfolded eqTrueI [OF True]] ls(1)] by blast
    then show ?thesis using ls(2,3) by (meson subseq_Cons2 subseq_order.order_trans)
  qed
qed

section \<open>The call\<close>

lemma process_by_steps:
  assumes "\<forall>f ctx. by_steps (\<lambda>s. fst (run f ctx s))" "\<forall>h x. by_steps (\<lambda>s. fst (hrun h x s))" "sys_cancel g = None"
    and "process_traced run hrun now nows n (sys_tm g) = (started, r, s')"
  shows "\<exists>ls. tm_run g ls (g\<lparr>sys_tm := s'\<rparr>) \<and> subseq started (started_ids ls)"
proof (cases "n = 0")
  case True
  then show ?thesis using assms(4) run_nil by (fastforce simp: process_traced_def)
next
  case False
  obtain batch t where snap: "take_snapshot now n (sys_tm g) = (batch, t)" by fastforce
  let ?h = "g\<lparr>sys_tm := t, sys_frames := Frame batch Between # sys_frames g\<rparr>"
  have loop: "process_loop run hrun nows batch 0 0 (sys_tm ?h) = (started, r, s')"
    using assms(4) False snap by (simp add: process_traced_def)
  have "\<exists>ls. tm_run ?h ls (?h\<lparr>sys_tm := s', sys_frames := sys_frames g\<rparr>) \<and> subseq started (started_ids ls)"
    by (rule process_loop_steps [OF assms(1,2) _ _ loop]) (use assms(3) in simp_all)
  then obtain ls where ls: "tm_run ?h ls (g\<lparr>sys_tm := s'\<rparr>)" "subseq started (started_ids ls)"
    by auto
  have "tm_run g (Silent # ls) (g\<lparr>sys_tm := s'\<rparr>)"
    using tm_step.process_begins [OF assms(3) False snap] ls(1) by (auto intro: run_cons)
  then show ?thesis using ls(2) by (auto intro!: exI [of _ "Silent # ls"])
qed

text \<open>
  C7: a call of \<^verbatim>\<open>process()\<close> refines the concurrent manager: around user code that is itself a sequence of
  operations, the call is a run of atomic steps from the state before it to the state after it, in which the
  callbacks it starts are claimed in order. So are nested calls, because the call is user code of this kind
  again.
\<close>

theorem process_refines_steps:
  assumes "\<forall>f ctx. by_steps (\<lambda>s. fst (run f ctx s))" "\<forall>h x. by_steps (\<lambda>s. fst (hrun h x s))"
  shows "(sys_cancel g = None \<and> process_traced run hrun now nows n (sys_tm g) = (started, r, s') \<longrightarrow>
            (\<exists>ls. tm_run g ls (g\<lparr>sys_tm := s'\<rparr>) \<and> subseq started (started_ids ls))) \<and>
         by_steps (\<lambda>s. snd (process run hrun now nows n s))"
proof -
  have "\<exists>ls. tm_run g ls (g\<lparr>sys_tm := snd (process run hrun now nows n (sys_tm g))\<rparr>)" if "sys_cancel g = None" for g
    using process_by_steps [OF assms that, of now nows n] by (cases "process_traced run hrun now nows n (sys_tm g)")
      (auto simp: process_def)
  then show ?thesis using process_by_steps [OF assms] by (auto simp: by_steps_def)
qed

text \<open>User code that closes the manager and throws.\<close>

definition closing_code :: "nat \<Rightarrow> TaskContext option \<Rightarrow> nat TM \<Rightarrow> nat TM \<times> exn option" where
  "closing_code f ctx s = (close s, Some (User_exn f))"

theorem process_refines_steps_witness:
  "\<exists>ls. tm_run \<lparr>sys_tm = two_tasks, sys_frames = [], sys_cancel = None\<rparr> ls
     \<lparr>sys_tm = snd (process closing_code (\<lambda>h x s. (s, None)) 0 (\<lambda>_. (0, 0)) 2 two_tasks), sys_frames = [], sys_cancel = None\<rparr>"
proof -
  have "\<forall>f ctx. by_steps (\<lambda>s. fst (closing_code f ctx s))"
    by (auto simp: closing_code_def intro!: by_steps_producer producer_step.intros)
  moreover have "\<forall>h x. by_steps (\<lambda>s. fst ((\<lambda>h x s. (s, None)) h x s))"
    by (simp add: by_steps_id)
  ultimately have "by_steps (\<lambda>s. snd (process closing_code (\<lambda>h x s. (s, None)) 0 (\<lambda>_. (0, 0)) 2 s))"
    by (rule conjunct2 [OF process_refines_steps])
  then show ?thesis
    using by_stepsE [where g = "\<lparr>sys_tm = two_tasks, sys_frames = [], sys_cancel = None\<rparr>"] by fastforce
qed

end
