(* ===== verification/Event_Bus.thy ===== *)
theory Event_Bus
  imports Id_Source
begin

text \<open>
  The typed event bus of \<^verbatim>\<open>event_bus.hpp\<close>. Types are keyed by \<open>type_id\<close> (\<^verbatim>\<open>std::type_index\<close>), event
  payloads are values \<open>'v\<close>, and user callables are handles \<open>'f\<close> whose effect on the state is the
  parameter \<open>run\<close> of the dispatching functions (\<open>hrun\<close> for the exception handler). The bus
  state is an extensible record, so callbacks may change anything, the bus included. Shared
  ownership is modelled by strong counts: \<open>w_strong g\<close> is the number of \<^verbatim>\<open>shared_ptr\<close> owners of
  guard object \<open>g\<close>. The steady clock is a sequence of readings; \<open>w_reads\<close> counts those taken. The
  awaiter objects the bus polls are reached through the operations of
  the \<^verbatim>\<open>IAwaiterEx\<close> interface, a record of functions.
\<close>

section \<open>Data\<close>

text \<open>
  The callback of a record is the lambda that \<^verbatim>\<open>subscribe\<close> wraps around the caller's
  \<^verbatim>\<open>std::function\<close>: \<open>Some None\<close> is the lambda around an empty function, \<open>None\<close> a record without
  one.
\<close>

type_synonym type_id = nat
type_synonym SubscriptionId = u64

datatype owner_key = User_owner nat | Endpoint_owner nat | Awaiter_owner nat

record World =
  w_strong :: "nat \<Rightarrow> nat"
  w_clock :: "nat \<Rightarrow> time"
  w_reads :: nat

record 'f CallbackRecord =
  cb_id :: SubscriptionId
  cb_owner :: owner_key
  cb_guard :: "nat option"
  cb_callback :: "'f option option"

record 'v QueuedEvent =
  qe_type :: type_id
  qe_payload :: 'v

record ('v, 'f, 'h) BUS = World +
  bus_callbacks :: "type_id \<rightharpoonup> 'f CallbackRecord list"
  bus_queue :: "'v QueuedEvent list"
  bus_awaiters :: "nat list"
  bus_handler :: "'h option"
  bus_next_subscription :: u64
  bus_request_ids :: u64
  bus_notifier :: "nat option"
  bus_notified :: "nat list"

definition EventBus_init :: "(nat \<Rightarrow> time) \<Rightarrow> ('v, 'f, 'h) BUS" where
  "EventBus_init clock =
     \<lparr> w_strong = (\<lambda>_. 0), w_clock = clock, w_reads = 0, bus_callbacks = Map.empty, bus_queue = [], bus_awaiters = [],
       bus_handler = None, bus_next_subscription = 1, bus_request_ids = 1, bus_notifier = None,
       bus_notified = [] \<rparr>"

text \<open>The virtual functions of an awaiter, with the \<^verbatim>\<open>weak_ptr::lock\<close> and the release around them.\<close>

record 's IAwaiterEx =
  ia_lock :: "nat \<Rightarrow> 's \<Rightarrow> 's option"
  ia_release :: "nat \<Rightarrow> 's \<Rightarrow> 's"
  ia_is_active :: "nat \<Rightarrow> 's \<Rightarrow> bool"
  ia_poll_timeout :: "nat \<Rightarrow> 's \<Rightarrow> 's"

type_synonym ('f, 'v, 's) event_runner = "'f \<Rightarrow> 'v \<Rightarrow> 's \<Rightarrow> 's \<times> exn option"
type_synonym ('h, 's) exn_runner = "'h \<Rightarrow> exn \<Rightarrow> 's \<Rightarrow> 's \<times> exn option"

text \<open>One reading of the steady clock.\<close>

definition clock_now :: "'z World_scheme \<Rightarrow> time \<times> 'z World_scheme" where
  "clock_now s = (w_clock s (w_reads s), s\<lparr>w_reads := Suc (w_reads s)\<rparr>)"

text \<open>
  Locking a weak reference and dropping the lock again. Object 0 is the null pointer, which an empty
  \<^verbatim>\<open>weak_ptr\<close> refers to. The destructor of a guard object is not modelled; the awaiters'
  is, in their own theory.
\<close>

definition null_object :: nat where
  "null_object = 0"

definition lock_object :: "nat \<Rightarrow> 'z World_scheme \<Rightarrow> 'z World_scheme option" where
  "lock_object g s =
     (if g = null_object \<or> w_strong s g = 0 then None
      else Some (s\<lparr>w_strong := (w_strong s)(g := Suc (w_strong s g))\<rparr>))"

definition unlock_object :: "nat \<Rightarrow> 'z World_scheme \<Rightarrow> 'z World_scheme" where
  "unlock_object g s = s\<lparr>w_strong := (w_strong s)(g := w_strong s g - 1)\<rparr>"

section \<open>Configuration\<close>

definition bus_set_notifier :: "nat option \<Rightarrow> ('v, 'f, 'h, 'z) BUS_scheme \<Rightarrow> ('v, 'f, 'h, 'z) BUS_scheme" where
  "bus_set_notifier n s = s\<lparr>bus_notifier := n\<rparr>"

definition bus_reset_notifier :: "('v, 'f, 'h, 'z) BUS_scheme \<Rightarrow> ('v, 'f, 'h, 'z) BUS_scheme" where
  "bus_reset_notifier s = s\<lparr>bus_notifier := None\<rparr>"

definition bus_set_exception_handler ::
  "'h option \<Rightarrow> ('v, 'f, 'h, 'z) BUS_scheme \<Rightarrow> ('v, 'f, 'h, 'z) BUS_scheme"
where
  "bus_set_exception_handler h s = s\<lparr>bus_handler := h\<rparr>"

definition next_request_id ::
  "('v, 'f, 'h, 'z) BUS_scheme \<Rightarrow> RequestId \<times> ('v, 'f, 'h, 'z) BUS_scheme"
where
  "next_request_id s =
     (let (r, m) = RequestIdGenerator_next (bus_request_ids s) in (r, s\<lparr>bus_request_ids := m\<rparr>))"

definition bus_notify_work_available ::
  "('v, 'f, 'h, 'z) BUS_scheme \<Rightarrow> ('v, 'f, 'h, 'z) BUS_scheme"
where
  "bus_notify_work_available s =
     (case bus_notifier s of None \<Rightarrow> s | Some n \<Rightarrow> s\<lparr>bus_notified := bus_notified s @ [n]\<rparr>)"

section \<open>Subscriptions\<close>

definition next_subscription_id ::
  "('v, 'f, 'h, 'z) BUS_scheme \<Rightarrow> SubscriptionId \<times> ('v, 'f, 'h, 'z) BUS_scheme"
where
  "next_subscription_id s =
     (let (i, m) = fetch_add (bus_next_subscription s) in (i, s\<lparr>bus_next_subscription := m\<rparr>))"

definition records_of :: "type_id \<Rightarrow> ('v, 'f, 'h, 'z) BUS_scheme \<Rightarrow> 'f CallbackRecord list" where
  "records_of t s = (case bus_callbacks s t of None \<Rightarrow> [] | Some rs \<Rightarrow> rs)"

definition push_record ::
  "type_id \<Rightarrow> 'f CallbackRecord \<Rightarrow> ('v, 'f, 'h, 'z) BUS_scheme \<Rightarrow> ('v, 'f, 'h, 'z) BUS_scheme"
where
  "push_record t r s = s\<lparr>bus_callbacks := (bus_callbacks s)(t \<mapsto> records_of t s @ [r])\<rparr>"

text \<open>\<open>guard\<close> is \<open>None\<close> for the unguarded overload.\<close>

definition subscribe ::
  "type_id \<Rightarrow> owner_key \<Rightarrow> nat option \<Rightarrow> 'f option \<Rightarrow> ('v, 'f, 'h, 'z) BUS_scheme
     \<Rightarrow> SubscriptionId \<times> ('v, 'f, 'h, 'z) BUS_scheme"
where
  "subscribe t owner guard callback s =
     (let (i, s) = next_subscription_id s;
          r = \<lparr> cb_id = i, cb_owner = owner, cb_guard = guard, cb_callback = Some callback \<rparr>
      in (i, push_record t r s))"

text \<open>
  Erasing the records that satisfy a predicate from one type's vector; an emptied vector leaves
  the map.
\<close>

definition erase_records ::
  "('f CallbackRecord \<Rightarrow> bool) \<Rightarrow> 'f CallbackRecord list \<Rightarrow> 'f CallbackRecord list option"
where
  "erase_records P rs =
     (let rs = filter (\<lambda>r. \<not> P r) rs in if rs = [] then None else Some rs)"

definition unsubscribe :: "SubscriptionId \<Rightarrow> ('v, 'f, 'h, 'z) BUS_scheme \<Rightarrow> ('v, 'f, 'h, 'z) BUS_scheme" where
  "unsubscribe i s =
     s\<lparr>bus_callbacks := (\<lambda>t. Option.bind (bus_callbacks s t) (erase_records (\<lambda>r. cb_id r = i)))\<rparr>"

definition unsubscribe_all_type ::
  "type_id \<Rightarrow> owner_key \<Rightarrow> ('v, 'f, 'h, 'z) BUS_scheme \<Rightarrow> ('v, 'f, 'h, 'z) BUS_scheme"
where
  "unsubscribe_all_type t owner s =
     (case bus_callbacks s t of
        None \<Rightarrow> s
      | Some rs \<Rightarrow>
          s\<lparr>bus_callbacks := (bus_callbacks s)(t := erase_records (\<lambda>r. cb_owner r = owner) rs)\<rparr>)"

definition unsubscribe_all :: "owner_key \<Rightarrow> ('v, 'f, 'h, 'z) BUS_scheme \<Rightarrow> ('v, 'f, 'h, 'z) BUS_scheme" where
  "unsubscribe_all owner s =
     s\<lparr>bus_callbacks := (\<lambda>t. Option.bind (bus_callbacks s t) (erase_records (\<lambda>r. cb_owner r = owner)))\<rparr>"

section \<open>Dispatch\<close>

text \<open>
  \<open>bus_report_exception\<close> returns whether a handler took the exception, or what the handler threw.
\<close>

definition bus_report_exception ::
  "('h, ('v, 'f, 'h, 'z) BUS_scheme) exn_runner \<Rightarrow> exn \<Rightarrow> ('v, 'f, 'h, 'z) BUS_scheme
     \<Rightarrow> (exn + bool) \<times> ('v, 'f, 'h, 'z) BUS_scheme"
where
  "bus_report_exception hrun x s =
     (case bus_handler s of
        None \<Rightarrow> (Inr False, s)
      | Some h \<Rightarrow> (case hrun h x s of
                      (s', None) \<Rightarrow> (Inr True, s')
                    | (s', Some y) \<Rightarrow> (Inl y, s')))"

definition report_exception_noexcept ::
  "('h, ('v, 'f, 'h, 'z) BUS_scheme) exn_runner \<Rightarrow> exn \<Rightarrow> ('v, 'f, 'h, 'z) BUS_scheme \<Rightarrow> ('v, 'f, 'h, 'z) BUS_scheme"
where
  "report_exception_noexcept hrun x s = snd (bus_report_exception hrun x s)"

text \<open>The callback call of one record, with its catch clause: the exception that leaves it.\<close>

definition call_record ::
  "('f, 'v, ('v, 'f, 'h, 'z) BUS_scheme) event_runner \<Rightarrow> ('h, ('v, 'f, 'h, 'z) BUS_scheme) exn_runner \<Rightarrow>
   'v \<Rightarrow> 'f CallbackRecord \<Rightarrow> ('v, 'f, 'h, 'z) BUS_scheme \<Rightarrow> exn option \<times> ('v, 'f, 'h, 'z) BUS_scheme"
where
  "call_record run hrun v r s =
     (case cb_callback r of
        None \<Rightarrow> (None, s)
      | Some c \<Rightarrow>
          (case (case c of None \<Rightarrow> (s, Some Bad_function_call) | Some f \<Rightarrow> run f v s) of
             (s, None) \<Rightarrow> (None, s)
           | (s, Some x) \<Rightarrow>
               (case bus_report_exception hrun x s of
                  (Inr True, s) \<Rightarrow> (None, s)
                | (Inr False, s) \<Rightarrow> (Some x, s)
                | (Inl y, s) \<Rightarrow> (Some y, s))))"

text \<open>The guard check before a callback, and the release of the lock after it.\<close>

definition enter_guard :: "'f CallbackRecord \<Rightarrow> 'z World_scheme \<Rightarrow> 'z World_scheme option" where
  "enter_guard r s = (case cb_guard r of None \<Rightarrow> Some s | Some g \<Rightarrow> lock_object g s)"

definition leave_guard :: "'f CallbackRecord \<Rightarrow> 'z World_scheme \<Rightarrow> 'z World_scheme" where
  "leave_guard r s = (case cb_guard r of None \<Rightarrow> s | Some g \<Rightarrow> unlock_object g s)"

text \<open>
  The loop over the copied records. The first component lists the ids whose callback part was
  reached, in order (an observation); the second is the exception that leaves the dispatch.
\<close>

fun dispatch_loop ::
  "('f, 'v, ('v, 'f, 'h, 'z) BUS_scheme) event_runner \<Rightarrow> ('h, ('v, 'f, 'h, 'z) BUS_scheme) exn_runner \<Rightarrow>
   'v \<Rightarrow> 'f CallbackRecord list \<Rightarrow> ('v, 'f, 'h, 'z) BUS_scheme
     \<Rightarrow> SubscriptionId list \<times> exn option \<times> ('v, 'f, 'h, 'z) BUS_scheme"
where
  "dispatch_loop run hrun v [] s = ([], None, s)"
| "dispatch_loop run hrun v (r # rs) s =
     (case enter_guard r s of
        None \<Rightarrow> dispatch_loop run hrun v rs s
      | Some s1 \<Rightarrow>
          (case call_record run hrun v r s1 of
             (Some x, s2) \<Rightarrow> ([cb_id r], Some x, leave_guard r s2)
           | (None, s2) \<Rightarrow>
               (case dispatch_loop run hrun v rs (leave_guard r s2) of
                  (started, x, s3) \<Rightarrow> (cb_id r # started, x, s3))))"

definition dispatch ::
  "('f, 'v, ('v, 'f, 'h, 'z) BUS_scheme) event_runner \<Rightarrow> ('h, ('v, 'f, 'h, 'z) BUS_scheme) exn_runner \<Rightarrow>
   type_id \<Rightarrow> 'v \<Rightarrow> ('v, 'f, 'h, 'z) BUS_scheme
     \<Rightarrow> SubscriptionId list \<times> exn option \<times> ('v, 'f, 'h, 'z) BUS_scheme"
where
  "dispatch run hrun t v s = dispatch_loop run hrun v (records_of t s) s"

section \<open>Awaiters\<close>

text \<open>Null pointers are ignored.\<close>

definition register_awaiter ::
  "nat option \<Rightarrow> ('v, 'f, 'h, 'z) BUS_scheme \<Rightarrow> ('v, 'f, 'h, 'z) BUS_scheme"
where
  "register_awaiter a s =
     (case a of None \<Rightarrow> s | Some a \<Rightarrow> s\<lparr>bus_awaiters := bus_awaiters s @ [a]\<rparr>)"

text \<open>The \<^verbatim>\<open>remove_if\<close> pass, and the pass that locks the survivors.\<close>

fun prune_awaiters :: "'s IAwaiterEx \<Rightarrow> nat list \<Rightarrow> 's \<Rightarrow> nat list \<times> 's" where
  "prune_awaiters ops [] s = ([], s)"
| "prune_awaiters ops (a # as) s =
     (case ia_lock ops a s of
        None \<Rightarrow> prune_awaiters ops as s
      | Some s1 \<Rightarrow>
          (case prune_awaiters ops as (ia_release ops a s1) of
             (kept, s2) \<Rightarrow> (if ia_is_active ops a s1 then a # kept else kept, s2)))"

fun lock_awaiters :: "'s IAwaiterEx \<Rightarrow> nat list \<Rightarrow> 's \<Rightarrow> nat list \<times> 's" where
  "lock_awaiters ops [] s = ([], s)"
| "lock_awaiters ops (a # as) s =
     (case ia_lock ops a s of
        None \<Rightarrow> lock_awaiters ops as s
      | Some s1 \<Rightarrow> (case lock_awaiters ops as s1 of (live, s2) \<Rightarrow> (a # live, s2)))"

definition poll_awaiters ::
  "('v, 'f, 'h, 'z) BUS_scheme IAwaiterEx \<Rightarrow> ('v, 'f, 'h, 'z) BUS_scheme \<Rightarrow> ('v, 'f, 'h, 'z) BUS_scheme"
where
  "poll_awaiters ops s =
     (case prune_awaiters ops (bus_awaiters s) s of
        (kept, s) \<Rightarrow>
          (case lock_awaiters ops kept (s\<lparr>bus_awaiters := kept\<rparr>) of
             (live, s) \<Rightarrow> fold (ia_release ops) live (fold (ia_poll_timeout ops) live s)))"

section \<open>Emitting, posting and processing\<close>

definition emit ::
  "('f, 'v, ('v, 'f, 'h, 'z) BUS_scheme) event_runner \<Rightarrow> ('h, ('v, 'f, 'h, 'z) BUS_scheme) exn_runner \<Rightarrow>
   ('v, 'f, 'h, 'z) BUS_scheme IAwaiterEx \<Rightarrow> type_id \<Rightarrow> 'v \<Rightarrow> ('v, 'f, 'h, 'z) BUS_scheme
     \<Rightarrow> exn option \<times> ('v, 'f, 'h, 'z) BUS_scheme"
where
  "emit run hrun ops t v s =
     (case dispatch run hrun t v s of
        (_, Some x, s) \<Rightarrow> (Some x, s)
      | (_, None, s) \<Rightarrow> (None, poll_awaiters ops s))"

definition bus_enqueue :: "type_id \<Rightarrow> 'v \<Rightarrow> ('v, 'f, 'h, 'z) BUS_scheme \<Rightarrow> ('v, 'f, 'h, 'z) BUS_scheme" where
  "bus_enqueue t v s =
     bus_notify_work_available
       (s\<lparr>bus_queue := bus_queue s @ [\<lparr> qe_type = t, qe_payload = v \<rparr>]\<rparr>)"

definition bus_post :: "type_id \<Rightarrow> 'v \<Rightarrow> ('v, 'f, 'h, 'z) BUS_scheme \<Rightarrow> ('v, 'f, 'h, 'z) BUS_scheme" where
  "bus_post t v s = bus_enqueue t v s"

definition restore_unprocessed_events ::
  "'v QueuedEvent list \<Rightarrow> ('v, 'f, 'h, 'z) BUS_scheme \<Rightarrow> ('v, 'f, 'h, 'z) BUS_scheme"
where
  "restore_unprocessed_events remaining s =
     (if remaining = [] then s
      else if bus_queue s = [] then s\<lparr>bus_queue := remaining\<rparr>
      else s\<lparr>bus_queue := remaining @ bus_queue s\<rparr>)"

text \<open>The loop over the captured queue: the number dispatched or the exception.\<close>

fun bus_process_loop ::
  "('f, 'v, ('v, 'f, 'h, 'z) BUS_scheme) event_runner \<Rightarrow> ('h, ('v, 'f, 'h, 'z) BUS_scheme) exn_runner \<Rightarrow>
   'v QueuedEvent list \<Rightarrow> nat \<Rightarrow> ('v, 'f, 'h, 'z) BUS_scheme \<Rightarrow> (exn \<times> nat + nat) \<times> ('v, 'f, 'h, 'z) BUS_scheme"
where
  "bus_process_loop run hrun [] processed s = (Inr processed, s)"
| "bus_process_loop run hrun (e # rest) processed s =
     (case dispatch run hrun (qe_type e) (qe_payload e) s of
        (_, Some x, s) \<Rightarrow> (Inl (x, processed), restore_unprocessed_events rest s)
      | (_, None, s) \<Rightarrow> bus_process_loop run hrun rest (Suc processed) s)"

definition bus_process ::
  "('f, 'v, ('v, 'f, 'h, 'z) BUS_scheme) event_runner \<Rightarrow> ('h, ('v, 'f, 'h, 'z) BUS_scheme) exn_runner \<Rightarrow>
   ('v, 'f, 'h, 'z) BUS_scheme IAwaiterEx \<Rightarrow> ('v, 'f, 'h, 'z) BUS_scheme
     \<Rightarrow> (exn \<times> nat + nat) \<times> ('v, 'f, 'h, 'z) BUS_scheme"
where
  "bus_process run hrun ops s =
     (case bus_process_loop run hrun (bus_queue s) 0 (s\<lparr>bus_queue := []\<rparr>) of
        (Inl x, s) \<Rightarrow> (Inl x, s)
      | (Inr n, s) \<Rightarrow> (Inr n, poll_awaiters ops s))"

definition bus_pending_count :: "('v, 'f, 'h, 'z) BUS_scheme \<Rightarrow> nat" where
  "bus_pending_count s = length (bus_queue s)"

definition bus_has_pending :: "('v, 'f, 'h, 'z) BUS_scheme \<Rightarrow> bool" where
  "bus_has_pending s \<longleftrightarrow> bus_pending_count s \<noteq> 0"

definition bus_clear_pending :: "('v, 'f, 'h, 'z) BUS_scheme \<Rightarrow> ('v, 'f, 'h, 'z) BUS_scheme" where
  "bus_clear_pending s = s\<lparr>bus_queue := []\<rparr>"

definition bus_clear :: "('v, 'f, 'h, 'z) BUS_scheme \<Rightarrow> ('v, 'f, 'h, 'z) BUS_scheme" where
  "bus_clear s = bus_clear_pending s"

end
