(* ===== verification/Bus_Theorems.thy ===== *)
theory Bus_Theorems
  imports Event_Bus "HOL-Library.Sublist"
begin

text \<open>
  The correctness of the event bus: the invariant of the subscription tables, what subscribing and
  unsubscribing do to them, whom a dispatch reaches and in which order, and what \<^verbatim>\<open>process()\<close> does with
  the queue, exceptions included. User code is arbitrary unless a hypothesis says otherwise.
\<close>

section \<open>The invariant of the tables\<close>

text \<open>
  No vector is empty, every id is non-zero and below the next one, and no id occurs twice, neither
  within a type nor in two of them.
\<close>

definition table_ok :: "u64 \<Rightarrow> (type_id \<rightharpoonup> 'f CallbackRecord list) \<Rightarrow> bool" where
  "table_ok n m \<longleftrightarrow>
     (\<forall>t rs. m t = Some rs \<longrightarrow> rs \<noteq> [] \<and> distinct (map cb_id rs) \<and>
        (\<forall>r \<in> set rs. cb_id r \<noteq> 0 \<and> cb_id r < n)) \<and>
     (\<forall>t t' rs rs'. m t = Some rs \<and> m t' = Some rs' \<and> t \<noteq> t' \<longrightarrow>
        cb_id ` set rs \<inter> cb_id ` set rs' = {})"

definition bus_inv :: "('v, 'f, 'h, 'z) BUS_scheme \<Rightarrow> bool" where
  "bus_inv s \<longleftrightarrow> bus_next_subscription s \<noteq> 0 \<and> table_ok (bus_next_subscription s) (bus_callbacks s)"

lemma table_okD:
  assumes "table_ok n m" "m t = Some rs"
  shows "rs \<noteq> []" "distinct (map cb_id rs)" "\<And>r. r \<in> set rs \<Longrightarrow> cb_id r \<noteq> 0"
    "\<And>r. r \<in> set rs \<Longrightarrow> cb_id r < n"
    "m t' = Some rs' \<Longrightarrow> t \<noteq> t' \<Longrightarrow> cb_id ` set rs \<inter> cb_id ` set rs' = {}"
  using assms unfolding table_ok_def by blast+

lemma bus_inv_init: "bus_inv (EventBus_init clock)"
  by (simp add: bus_inv_def table_ok_def EventBus_init_def)

lemma erase_records_Some:
  "erase_records P rs = Some rs' \<longleftrightarrow> rs' = filter (\<lambda>r. \<not> P r) rs \<and> rs' \<noteq> []"
  by (auto simp: erase_records_def Let_def)

lemma table_ok_erase:
  assumes "table_ok n m" and "\<And>t. m' t = m t \<or> m' t = Option.bind (m t) (erase_records P)"
  shows "table_ok n m'"
proof -
  have sub: "\<exists>rs0. m t = Some rs0 \<and> (rs = rs0 \<or> rs = filter (\<lambda>r. \<not> P r) rs0 \<and> rs \<noteq> [])"
    if "m' t = Some rs" for t rs
    using assms(2) [of t] that
    by (cases "m t") (auto simp: erase_records_def Let_def split: if_splits)
  have part: "rs \<noteq> [] \<and> distinct (map cb_id rs) \<and> (\<forall>r \<in> set rs. cb_id r \<noteq> 0 \<and> cb_id r < n)"
    if m': "m' t = Some rs" for t rs
  proof -
    obtain rs0 where rs0: "m t = Some rs0" "rs = rs0 \<or> rs = filter (\<lambda>r. \<not> P r) rs0 \<and> rs \<noteq> []"
      using sub [OF m'] by blast
    note ok = table_okD [OF assms(1) rs0(1)]
    have "distinct (map cb_id (filter (\<lambda>r. \<not> P r) rs0))" using ok(2) by (rule distinct_map_filter)
    then show ?thesis using rs0(2) ok(1-4) by auto
  qed
  have "cb_id ` set rs \<inter> cb_id ` set rs' = {}"
    if m': "m' t = Some rs" "m' t' = Some rs'" "t \<noteq> t'" for t t' rs rs'
  proof -
    obtain rs0 where 1: "m t = Some rs0" "set rs \<subseteq> set rs0" using sub [OF m'(1)] by fastforce
    obtain rs0' where 2: "m t' = Some rs0'" "set rs' \<subseteq> set rs0'" using sub [OF m'(2)] by fastforce
    have "cb_id ` set rs0 \<inter> cb_id ` set rs0' = {}" by (rule table_okD(5) [OF assms(1) 1(1) 2(1) m'(3)])
    then show ?thesis using 1(2) 2(2) by blast
  qed
  with part show ?thesis unfolding table_ok_def by blast
qed

lemma bus_inv_unsubscribe: "bus_inv s \<Longrightarrow> bus_inv (unsubscribe i s)"
  by (auto simp: bus_inv_def unsubscribe_def intro: table_ok_erase)

lemma bus_inv_unsubscribe_all: "bus_inv s \<Longrightarrow> bus_inv (unsubscribe_all owner s)"
  by (auto simp: bus_inv_def unsubscribe_all_def intro: table_ok_erase)

lemma bus_inv_unsubscribe_all_type: "bus_inv s \<Longrightarrow> bus_inv (unsubscribe_all_type t owner s)"
  by (cases "bus_callbacks s t")
    (auto simp: bus_inv_def unsubscribe_all_type_def
      intro!: table_ok_erase [where P = "\<lambda>r. cb_owner r = owner" and m = "bus_callbacks s"])

text \<open>Below the wrap of the id counter a subscription is new to every vector.\<close>

definition sub_room :: "('v, 'f, 'h, 'z) BUS_scheme \<Rightarrow> bool" where
  "sub_room s \<longleftrightarrow> bus_next_subscription s + 1 \<noteq> 0"

lemma subscribe_eq:
  "subscribe t owner guard cb s = (bus_next_subscription s,
     push_record t \<lparr> cb_id = bus_next_subscription s, cb_owner = owner, cb_guard = guard, cb_callback = Some cb \<rparr>
       (s\<lparr>bus_next_subscription := bus_next_subscription s + 1\<rparr>))"
  by (simp add: subscribe_def next_subscription_id_def fetch_add_def)

lemma records_of_upd [simp]:
  "records_of t (s\<lparr>bus_next_subscription := n\<rparr>) = records_of t s"
  by (simp add: records_of_def)

lemma in_records: "r \<in> set (records_of t s) \<Longrightarrow> \<exists>rs. bus_callbacks s t = Some rs \<and> r \<in> set rs"
  by (cases "bus_callbacks s t") (auto simp: records_of_def)

lemma fresh_id:
  assumes "bus_inv s" "r \<in> set (records_of t s)"
  shows "cb_id r \<noteq> bus_next_subscription s" "cb_id r < bus_next_subscription s" "cb_id r \<noteq> 0"
proof -
  obtain rs where rs: "bus_callbacks s t = Some rs" "r \<in> set rs" using in_records [OF assms(2)] by blast
  note ok = table_okD [OF assms(1) [unfolded bus_inv_def, THEN conjunct2] rs(1)]
  show less: "cb_id r < bus_next_subscription s" and "cb_id r \<noteq> 0" using ok(3,4) rs(2) by auto
  show "cb_id r \<noteq> bus_next_subscription s" using less by (metis order.strict_iff_order)
qed

lemma records_distinct: "bus_inv s \<Longrightarrow> distinct (map cb_id (records_of t s))"
  by (cases "bus_callbacks s t") (auto simp: bus_inv_def records_of_def dest: table_okD(2))

lemma records_apart:
  assumes "bus_inv s" "t \<noteq> t'"
  shows "cb_id ` set (records_of t s) \<inter> cb_id ` set (records_of t' s) = {}"
proof (cases "bus_callbacks s t")
  case (Some rs)
  show ?thesis
  proof (cases "bus_callbacks s t'")
    case (Some rs')
    then show ?thesis
      using assms table_okD(5) [of "bus_next_subscription s" "bus_callbacks s" t rs t' rs']
        \<open>bus_callbacks s t = Some rs\<close>
      by (simp add: bus_inv_def records_of_def)
  qed (simp add: records_of_def)
qed (simp add: records_of_def)

lemma insert_apart:
  assumes "A \<subseteq> (if P then insert n X else X)" "B \<subseteq> (if Q then insert n Y else Y)"
    "\<not> (P \<and> Q)" "n \<notin> X" "n \<notin> Y" "X \<inter> Y = {}"
  shows "A \<inter> B = {}"
  using assms by (cases P; cases Q) auto

lemma bus_inv_subscribe:
  assumes inv: "bus_inv s" and room: "sub_room s"
  shows "bus_inv (snd (subscribe t owner guard cb s))"
proof -
  let ?n = "bus_next_subscription s"
  let ?r = "\<lparr> cb_id = ?n, cb_owner = owner, cb_guard = guard, cb_callback = Some cb \<rparr>"
  let ?m = "(bus_callbacks s)(t \<mapsto> records_of t s @ [?r])"
  have less: "x < ?n + 1" if "x < ?n" for x
    using word_less_add_one [of ?n x] room that by (simp add: sub_room_def)
  have self: "?n < ?n + 1" using word_less_self_add_one [of ?n] room by (simp add: sub_room_def)
  have part: "rs \<noteq> [] \<and> distinct (map cb_id rs) \<and> (\<forall>r \<in> set rs. cb_id r \<noteq> 0 \<and> cb_id r < ?n + 1)"
    if "?m u = Some rs" for u rs
  proof (cases "u = t")
    case True
    then have rs: "rs = records_of t s @ [?r]" using that by simp
    have "cb_id ?r \<notin> cb_id ` set (records_of t s)" using fresh_id(1) [OF inv] by fastforce
    then have "distinct (map cb_id rs)" using records_distinct [OF inv, of t] by (simp add: rs)
    moreover have "cb_id r \<noteq> 0 \<and> cb_id r < ?n + 1" if "r \<in> set rs" for r
      using that fresh_id(2,3) [OF inv, of r t] less self inv by (auto simp: rs bus_inv_def)
    ultimately show ?thesis by (simp add: rs)
  next
    case False
    then have "bus_callbacks s u = Some rs" using that by simp
    note ok = table_okD [OF inv [unfolded bus_inv_def, THEN conjunct2] this]
    then show ?thesis using less by blast
  qed
  have apart: "cb_id ` set rs \<inter> cb_id ` set rs' = {}"
    if "?m u = Some rs" "?m u' = Some rs'" "u \<noteq> u'" for u u' rs rs'
  proof -
    have sub: "cb_id ` set xs \<subseteq> (if v = t then insert ?n (cb_id ` set (records_of v s)) else cb_id ` set (records_of v s))"
      if "?m v = Some xs" for v xs
    proof (cases "v = t")
      case True
      then have "xs = records_of t s @ [?r]" using that by simp
      then show ?thesis using True by auto
    next
      case False
      then have "bus_callbacks s v = Some xs" using that by simp
      then show ?thesis using False by (simp add: records_of_def)
    qed
    have "?n \<notin> cb_id ` set (records_of v s)" for v
      using fresh_id(1) [OF inv, of _ v] by (metis imageE)
    moreover have "\<not> (u = t \<and> u' = t)" using that(3) by simp
    ultimately show ?thesis
      by (intro insert_apart [OF sub [OF that(1)] sub [OF that(2)] _ _ _ records_apart [OF inv that(3)]])
  qed
  have "table_ok (?n + 1) ?m" unfolding table_ok_def using part apart by blast
  then show ?thesis using room by (simp add: bus_inv_def subscribe_eq push_record_def sub_room_def)
qed

lemma subscribe_unsubscribed:
  assumes inv: "bus_inv s" and room: "sub_room s"
    and sub: "subscribe t owner guard cb s = (i, s')"
  shows "bus_callbacks (unsubscribe i s') = bus_callbacks s \<and> bus_inv s' \<and>
    i \<notin> (\<Union>t. cb_id ` set (records_of t s)) \<and>
    records_of t s' = records_of t s @
      [\<lparr> cb_id = i, cb_owner = owner, cb_guard = guard, cb_callback = Some cb \<rparr>] \<and>
    (\<forall>t'. t' \<noteq> t \<longrightarrow> records_of t' s' = records_of t' s)"
proof -
  let ?n = "bus_next_subscription s"
  have i: "i = ?n" and s': "s' = push_record t \<lparr> cb_id = ?n, cb_owner = owner, cb_guard = guard, cb_callback = Some cb \<rparr>
       (s\<lparr>bus_next_subscription := ?n + 1\<rparr>)"
    using sub subscribe_eq [of t owner guard cb s] by auto
  have kept: "filter (\<lambda>r. cb_id r \<noteq> ?n) (records_of u s) = records_of u s" for u
    by (rule filter_True) (use fresh_id(1) [OF inv] in blast)
  have restored: "Option.bind (bus_callbacks s' u) (erase_records (\<lambda>r. cb_id r = ?n)) = bus_callbacks s u" for u
  proof (cases "bus_callbacks s u")
    case None
    then show ?thesis
      by (cases "u = t") (simp_all add: s' push_record_def records_of_def erase_records_def Let_def)
  next
    case (Some rs)
    then have "rs \<noteq> []" "filter (\<lambda>r. cb_id r \<noteq> ?n) rs = rs"
      using inv kept [of u] by (auto simp: bus_inv_def table_ok_def records_of_def)
    then show ?thesis using Some
      by (cases "u = t") (simp_all add: s' push_record_def records_of_def erase_records_def Let_def)
  qed
  from restored have "bus_callbacks (unsubscribe i s') = bus_callbacks s"
    by (simp add: unsubscribe_def i fun_eq_iff)
  moreover have "i \<notin> (\<Union>t. cb_id ` set (records_of t s))" using fresh_id(1) [OF inv] i by fastforce
  moreover have "bus_inv s'" using bus_inv_subscribe [OF inv room, of t owner guard cb] sub by simp
  ultimately show ?thesis by (simp add: i s' push_record_def records_of_def)
qed

text \<open>
  C33: subscribing gives a new id and appends one record to the vector of its type; unsubscribing
  that id again restores the subscription tables exactly, whatever the order of the other
  subscriptions.
\<close>

theorem subscribe_unsubscribe:
  assumes inv: "bus_inv s" and room: "sub_room s"
    and sub: "subscribe t owner guard cb s = (i, s')"
  shows "bus_callbacks (unsubscribe i s') = bus_callbacks s \<and> bus_inv s' \<and>
    i \<notin> (\<Union>t. cb_id ` set (records_of t s)) \<and>
    records_of t s' = records_of t s @
      [\<lparr> cb_id = i, cb_owner = owner, cb_guard = guard, cb_callback = Some cb \<rparr>] \<and>
    (\<forall>t'. t' \<noteq> t \<longrightarrow> records_of t' s' = records_of t' s)"
  using subscribe_unsubscribed [OF assms] .

theorem subscribe_unsubscribe_witness:
  "bus_callbacks (unsubscribe 1 (snd (subscribe 3 (User_owner 0) None (Some (7::nat))
     (EventBus_init (\<lambda>_. 0) :: (nat, nat, nat) BUS)))) = Map.empty"
proof -
  have "sub_room (EventBus_init (\<lambda>_. 0) :: (nat, nat, nat) BUS)"
    by (simp add: sub_room_def EventBus_init_def)
  moreover have "subscribe 3 (User_owner 0) None (Some (7::nat)) (EventBus_init (\<lambda>_. 0) :: (nat, nat, nat) BUS) =
      (1, snd (subscribe 3 (User_owner 0) None (Some (7::nat)) (EventBus_init (\<lambda>_. 0))))"
    by (simp add: subscribe_eq EventBus_init_def)
  ultimately show ?thesis
    using subscribe_unsubscribe [OF bus_inv_init] by (fastforce simp: EventBus_init_def)
qed

section \<open>Whom a dispatch reaches\<close>

lemma dispatch_loop_cases:
  assumes "dispatch_loop run hrun v (r # rs) s = (started, x, s')"
  obtains (skip) "enter_guard r s = None" "dispatch_loop run hrun v rs s = (started, x, s')"
    | (throw) s1 y s2 where "enter_guard r s = Some s1" "call_record run hrun v r s1 = (Some y, s2)"
        "started = [cb_id r]" "x = Some y" "s' = leave_guard r s2"
    | (go) s1 s2 st where "enter_guard r s = Some s1" "call_record run hrun v r s1 = (None, s2)"
        "dispatch_loop run hrun v rs (leave_guard r s2) = (st, x, s')" "started = cb_id r # st"
  using assms by (auto split: option.splits prod.splits)

lemma enter_guard_unguarded [simp]: "cb_guard r = None \<Longrightarrow> enter_guard r s = Some s"
  by (simp add: enter_guard_def)

lemma dispatch_loop_subseq:
  "dispatch_loop run hrun v rs s = (started, x, s') \<Longrightarrow> subseq started (map cb_id rs)"
proof (induction rs arbitrary: s started)
  case (Cons r rs)
  from Cons.prems show ?case by (cases rule: dispatch_loop_cases) (auto dest: Cons.IH)
qed simp

lemma dispatch_loop_all:
  "dispatch_loop run hrun v rs s = (started, None, s') \<Longrightarrow>
     subseq (map cb_id (filter (\<lambda>r. cb_guard r = None) rs)) started"
proof (induction rs arbitrary: s started)
  case (Cons r rs)
  from Cons.prems show ?case by (cases rule: dispatch_loop_cases) (auto dest: Cons.IH)
qed simp

text \<open>
  C25: a dispatch starts callbacks in subscription order, each record of the type at most once;
  when no exception leaves it, every unguarded record that was subscribed at its start is
  started, whatever the callbacks do to the subscriptions meanwhile.
\<close>

theorem dispatch_order:
  assumes "dispatch run hrun t v s = (started, x, s')"
  shows "subseq started (map cb_id (records_of t s)) \<and>
    (x = None \<longrightarrow> subseq (map cb_id (filter (\<lambda>r. cb_guard r = None) (records_of t s))) started)"
  using dispatch_loop_subseq [OF assms [unfolded dispatch_def]] assms
  by (auto simp: dispatch_def intro: dispatch_loop_all)

text \<open>User code cannot bring an expired object back to life.\<close>

definition expired_stays ::
  "nat \<Rightarrow> ('f, 'v, 'z World_scheme) event_runner \<Rightarrow> ('h, 'z World_scheme) exn_runner \<Rightarrow> bool"
where
  "expired_stays g run hrun \<longleftrightarrow>
     (\<forall>s. w_strong s g = 0 \<longrightarrow>
        (\<forall>f v. w_strong (fst (run f v s)) g = 0) \<and> (\<forall>h x. w_strong (fst (hrun h x s)) g = 0))"

lemma expired_staysD:
  assumes "expired_stays g run hrun" "w_strong s g = 0"
  shows "run f v s = (s', x) \<Longrightarrow> w_strong s' g = 0" "hrun h y s = (s', x) \<Longrightarrow> w_strong s' g = 0"
  using assms unfolding expired_stays_def by (metis fst_conv)+

lemma call_record_expired:
  assumes "expired_stays g run hrun" "call_record run hrun v r s = (y, s')" "w_strong s g = 0"
  shows "w_strong s' g = 0"
  using assms(2,3)
  by (auto simp: call_record_def bus_report_exception_def
      split: option.splits prod.splits sum.splits bool.splits dest: expired_staysD [OF assms(1)])

lemma dispatch_loop_expired:
  assumes "expired_stays g run hrun" "dispatch_loop run hrun v rs s = (started, x, s')" "w_strong s g = 0"
  shows "set started \<subseteq> cb_id ` {r \<in> set rs. cb_guard r \<noteq> Some g} \<and> w_strong s' g = 0"
  using assms
proof (induction rs arbitrary: s started)
  case (Cons r rs)
  have leave: "w_strong (leave_guard r s2) g = 0" if "w_strong s2 g = 0" for s2
    using that by (auto simp: leave_guard_def unlock_object_def split: option.splits)
  have enter: "cb_guard r \<noteq> Some g \<and> w_strong s1 g = 0" if "enter_guard r s = Some s1" for s1
    using that Cons.prems(3)
    by (auto simp: enter_guard_def lock_object_def split: option.splits if_splits)
  note call = call_record_expired [OF Cons.prems(1)]
  from Cons.prems(2) show ?case
  proof (cases rule: dispatch_loop_cases)
    case skip
    then show ?thesis using Cons.IH [OF Cons.prems(1) _ Cons.prems(3)] by auto
  next
    case (throw s1 y s2)
    have "w_strong s2 g = 0" using call [OF throw(2)] enter [OF throw(1)] by simp
    then have "w_strong s' g = 0" using leave throw(5) by simp
    then show ?thesis using throw(3) enter [OF throw(1)] by auto
  next
    case (go s1 s2 st)
    have "set st \<subseteq> cb_id ` {r \<in> set rs. cb_guard r \<noteq> Some g} \<and> w_strong s' g = 0"
      using Cons.IH [OF Cons.prems(1) go(3) leave] call [OF go(2)] enter [OF go(1)] by simp
    then show ?thesis using go(4) enter [OF go(1)] by auto
  qed
qed simp

text \<open>
  A callback whose guard object has expired before a dispatch is never started by it, not even
  from the copy of the records the dispatch iterates over, provided user code does not bring
  expired objects back to life.
\<close>

lemma dispatch_skips_expired:
  assumes "expired_stays g run hrun" "dispatch run hrun t v s = (started, x, s')" "w_strong s g = 0"
  shows "set started \<subseteq> cb_id ` {r \<in> set (records_of t s). cb_guard r \<noteq> Some g}"
  using dispatch_loop_expired [OF assms(1) assms(2) [unfolded dispatch_def] assms(3)] by blast

text \<open>Callback and handler can make \<open>x\<close> leave the call of a record.\<close>

definition record_throws ::
  "('f, 'v, ('v, 'f, 'h, 'z) BUS_scheme) event_runner \<Rightarrow> ('h, ('v, 'f, 'h, 'z) BUS_scheme) exn_runner \<Rightarrow>
   'v \<Rightarrow> 'f CallbackRecord \<Rightarrow> exn \<Rightarrow> bool"
where
  "record_throws run hrun v r x \<longleftrightarrow>
     (\<exists>c s1 s2 e. cb_callback r = Some c \<and>
        (case c of None \<Rightarrow> (s1, Some Bad_function_call) | Some f \<Rightarrow> run f v s1) = (s2, Some e) \<and>
        (bus_handler s2 = None \<and> x = e \<or> (\<exists>h. bus_handler s2 = Some h \<and> snd (hrun h e s2) = Some x)))"

lemma call_record_throws: "call_record run hrun v r s = (Some x, s') \<Longrightarrow> record_throws run hrun v r x"
  unfolding record_throws_def
  by (auto simp: call_record_def bus_report_exception_def
      split: option.splits prod.splits sum.splits bool.splits) (metis snd_conv)+

lemma dispatch_loop_throws:
  "dispatch_loop run hrun v rs s = (started, Some x, s') \<Longrightarrow>
     \<exists>r \<in> set rs. record_throws run hrun v r x \<and> started \<noteq> [] \<and> last started = cb_id r"
proof (induction rs arbitrary: s started)
  case (Cons r rs)
  from Cons.prems show ?case
    by (cases rule: dispatch_loop_cases) (auto dest: Cons.IH call_record_throws)
qed simp

text \<open>
  An exception leaves a dispatch only from the record started last, either the one its callback
  threw while no exception handler was installed or the one the handler threw; so with a
  handler installed that does not throw, every callback runs and the dispatch returns normally.
\<close>

theorem dispatch_exception_origin:
  assumes "dispatch run hrun t v s = (started, Some x, s')"
  shows "\<exists>r \<in> set (records_of t s). record_throws run hrun v r x \<and> started \<noteq> [] \<and> last started = cb_id r"
  using assms unfolding dispatch_def by (rule dispatch_loop_throws)

section \<open>Processing the queue\<close>

text \<open>The reference: dispatch the events in order, ignoring exceptions.\<close>

fun dispatch_events ::
  "('f, 'v, ('v, 'f, 'h, 'z) BUS_scheme) event_runner \<Rightarrow> ('h, ('v, 'f, 'h, 'z) BUS_scheme) exn_runner \<Rightarrow>
   'v QueuedEvent list \<Rightarrow> ('v, 'f, 'h, 'z) BUS_scheme \<Rightarrow> ('v, 'f, 'h, 'z) BUS_scheme"
where
  "dispatch_events run hrun [] s = s"
| "dispatch_events run hrun (e # es) s =
     dispatch_events run hrun es (snd (snd (dispatch run hrun (qe_type e) (qe_payload e) s)))"

text \<open>The exception of the \<open>k\<close>-th event, when the earlier ones have been dispatched.\<close>

definition event_exn ::
  "('f, 'v, ('v, 'f, 'h, 'z) BUS_scheme) event_runner \<Rightarrow> ('h, ('v, 'f, 'h, 'z) BUS_scheme) exn_runner \<Rightarrow>
   'v QueuedEvent list \<Rightarrow> nat \<Rightarrow> ('v, 'f, 'h, 'z) BUS_scheme \<Rightarrow> exn option"
where
  "event_exn run hrun q k s =
     fst (snd (dispatch run hrun (qe_type (q ! k)) (qe_payload (q ! k)) (dispatch_events run hrun (take k q) s)))"

lemma event_exn_Cons [simp]:
  "event_exn run hrun (e # q) 0 s = fst (snd (dispatch run hrun (qe_type e) (qe_payload e) s))"
  "event_exn run hrun (e # q) (Suc k) s =
     event_exn run hrun q k (snd (snd (dispatch run hrun (qe_type e) (qe_payload e) s)))"
  by (simp_all add: event_exn_def)

lemma restore_eq: "restore_unprocessed_events rest s = s\<lparr>bus_queue := rest @ bus_queue s\<rparr>"
  by (simp add: restore_unprocessed_events_def)

lemma bus_process_loop_ok:
  "bus_process_loop run hrun q m s = (Inr n, s') \<Longrightarrow>
     n = m + length q \<and> s' = dispatch_events run hrun q s \<and> (\<forall>j < length q. event_exn run hrun q j s = None)"
proof (induction q arbitrary: m s)
  case (Cons e q)
  obtain st x s1 where d: "dispatch run hrun (qe_type e) (qe_payload e) s = (st, x, s1)" by (metis prod_cases3)
  with Cons.prems have x: "x = None" by (cases x) auto
  with Cons.prems d have "bus_process_loop run hrun q (Suc m) s1 = (Inr n, s')" by simp
  from Cons.IH [OF this] show ?case using d x by (auto simp: less_Suc_eq_0_disj)
qed simp

lemma bus_process_loop_throws:
  "bus_process_loop run hrun q m s = (Inl (x, n), s') \<Longrightarrow>
     \<exists>k < length q. n = m + k \<and> event_exn run hrun q k s = Some x \<and>
       (\<forall>j < k. event_exn run hrun q j s = None) \<and>
       s' = (let s1 = dispatch_events run hrun (take (Suc k) q) s
             in s1\<lparr>bus_queue := drop (Suc k) q @ bus_queue s1\<rparr>)"
proof (induction q arbitrary: m s)
  case (Cons e q)
  obtain st y s1 where d: "dispatch run hrun (qe_type e) (qe_payload e) s = (st, y, s1)" by (metis prod_cases3)
  show ?case
  proof (cases y)
    case None
    with Cons.prems d have "bus_process_loop run hrun q (Suc m) s1 = (Inl (x, n), s')" by simp
    from Cons.IH [OF this] obtain k where k: "k < length q" "n = Suc m + k"
      "event_exn run hrun q k s1 = Some x" "\<forall>j < k. event_exn run hrun q j s1 = None"
      "s' = (let s1 = dispatch_events run hrun (take (Suc k) q) s1
             in s1\<lparr>bus_queue := drop (Suc k) q @ bus_queue s1\<rparr>)" by blast
    show ?thesis
      by (rule exI [of _ "Suc k"]) (use k d None in \<open>auto simp: less_Suc_eq_0_disj\<close>)
  next
    case (Some z)
    show ?thesis
      by (rule exI [of _ 0]) (use Cons.prems d Some in \<open>auto simp: restore_eq Let_def\<close>)
  qed
qed simp

text \<open>
  C20: \<^verbatim>\<open>process()\<close> in full. When it returns \<open>n\<close>, it dispatched exactly the events queued at entry, in
  posting order, none of them threw, and the awaiters were polled once afterwards. When it throws
  after \<open>k\<close> events, those \<open>k\<close> were dispatched without an exception, event \<open>k\<close> threw and is
  consumed, and the events behind it stand before everything posted meanwhile; no event is
  lost or duplicated.
\<close>

theorem bus_process_spec:
  fixes s :: "('v, 'f, 'h, 'z) BUS_scheme"
  defines "q \<equiv> bus_queue s" and "s0 \<equiv> s\<lparr>bus_queue := []\<rparr>"
  shows "case bus_process run hrun ops s of
      (Inr n, s') \<Rightarrow> n = length q \<and> s' = poll_awaiters ops (dispatch_events run hrun q s0) \<and>
        (\<forall>j < length q. event_exn run hrun q j s0 = None)
    | (Inl (x, k), s') \<Rightarrow> k < length q \<and> event_exn run hrun q k s0 = Some x \<and>
        (\<forall>j < k. event_exn run hrun q j s0 = None) \<and>
        (let s1 = dispatch_events run hrun (take (Suc k) q) s0
         in s' = s1\<lparr>bus_queue := drop (Suc k) q @ bus_queue s1\<rparr>)"
proof (cases "bus_process_loop run hrun q 0 s0")
  case (Pair r s1)
  show ?thesis
  proof (cases r)
    case (Inr n)
    with bus_process_loop_ok [of run hrun q 0 s0 n s1] Pair show ?thesis
      by (simp add: bus_process_def q_def s0_def)
  next
    case (Inl xk)
    obtain x k where xk: "xk = (x, k)" by fastforce
    with Inl bus_process_loop_throws [of run hrun q 0 s0 x k s1] Pair show ?thesis
      by (auto simp: bus_process_def q_def s0_def Let_def)
  qed
qed

section \<open>Polling the awaiters\<close>

text \<open>
  What the bus relies on of the awaiter objects: locking succeeds on the live ones and only adds a
  hold, and a hold released at once changes nothing.
\<close>

locale polled_awaiters =
  fixes ops :: "('v, 'f, 'h, 'z) BUS_scheme IAwaiterEx"
    and alive :: "nat \<Rightarrow> ('v, 'f, 'h, 'z) BUS_scheme \<Rightarrow> bool"
    and hold :: "nat \<Rightarrow> ('v, 'f, 'h, 'z) BUS_scheme \<Rightarrow> ('v, 'f, 'h, 'z) BUS_scheme"
  assumes lock: "ia_lock ops a s = (if alive a s then Some (hold a s) else None)"
    and release_hold: "alive a s \<Longrightarrow> ia_release ops a (hold a s) = s"
    and active_hold: "ia_is_active ops a (hold b s) = ia_is_active ops a s"
    and alive_hold: "alive a s \<Longrightarrow> alive a (hold b s)"
    and alive_awaiters: "alive a (s\<lparr>bus_awaiters := as\<rparr>) = alive a s"
begin

lemma prune_eq:
  "prune_awaiters ops as s = (filter (\<lambda>a. alive a s \<and> ia_is_active ops a s) as, s)"
  by (induction as) (auto simp: lock release_hold active_hold)

lemma lock_eq: "\<forall>a \<in> set as. alive a s \<Longrightarrow> lock_awaiters ops as s = (as, fold hold as s)"
  by (induction as arbitrary: s) (auto simp: lock alive_hold)

lemma poll_eq:
  "poll_awaiters ops s =
     (let live = filter (\<lambda>a. alive a s \<and> ia_is_active ops a s) (bus_awaiters s)
      in fold (ia_release ops) live (fold (ia_poll_timeout ops) live
           (fold hold live (s\<lparr>bus_awaiters := live\<rparr>))))"
  by (simp add: poll_awaiters_def prune_eq lock_eq alive_awaiters Let_def)

end

section \<open>A concrete bus\<close>

text \<open>
  Three subscriptions to type 3: callback 1, callback 2 under the guard object 5, which is expired,
  and callback 0. Callback 0 throws, the others return.
\<close>

definition demo_run :: "nat \<Rightarrow> nat \<Rightarrow> (nat, nat, nat) BUS \<Rightarrow> (nat, nat, nat) BUS \<times> exn option" where
  "demo_run f v s = (s, if f = 0 then Some (User_exn v) else None)"

definition demo_hrun :: "nat \<Rightarrow> exn \<Rightarrow> (nat, nat, nat) BUS \<Rightarrow> (nat, nat, nat) BUS \<times> exn option" where
  "demo_hrun h x s = (s, None)"

definition demo_ops :: "(nat, nat, nat) BUS IAwaiterEx" where
  "demo_ops = \<lparr> ia_lock = (\<lambda>a s. None), ia_release = (\<lambda>a s. s), ia_is_active = (\<lambda>a s. False),
     ia_poll_timeout = (\<lambda>a s. s) \<rparr>"

definition demo_bus :: "(nat, nat, nat) BUS" where
  "demo_bus =
     bus_post 3 11 (bus_post 4 10
       (snd (subscribe 3 (User_owner 0) None (Some 0)
         (snd (subscribe 3 (User_owner 0) (Some 5) (Some 2)
           (snd (subscribe 3 (User_owner 0) None (Some 1) (EventBus_init (\<lambda>_. 0)))))))))"

lemmas demo_bus_eval = demo_bus_def demo_run_def demo_hrun_def demo_ops_def bus_post_def bus_enqueue_def
  bus_notify_work_available_def subscribe_eq push_record_def records_of_def EventBus_init_def
  dispatch_def enter_guard_def leave_guard_def lock_object_def call_record_def bus_report_exception_def

lemma demo_dispatch: "dispatch demo_run demo_hrun 3 7 demo_bus = ([1, 3], Some (User_exn 7), demo_bus)"
  by (simp add: demo_bus_eval)

theorem dispatch_order_witness:
  "subseq [1, 3 :: u64] (map cb_id (records_of 3 demo_bus))"
  using dispatch_order [OF demo_dispatch] by simp

theorem dispatch_exception_origin_witness:
  "\<exists>r \<in> set (records_of 3 demo_bus). cb_id r = 3 \<and> record_throws demo_run demo_hrun 7 r (User_exn 7)"
  using dispatch_exception_origin [OF demo_dispatch] by auto

theorem bus_process_spec_witness:
  "fst (bus_process demo_run demo_hrun demo_ops demo_bus) = Inl (User_exn 11, 1)"
  using bus_process_spec [of demo_bus demo_run demo_hrun demo_ops]
  by (simp add: demo_bus_eval bus_process_def restore_unprocessed_events_def)

end
