(* ===== verification/Event_Types.thy ===== *)
theory Event_Types
  imports Event_Bus
begin

text \<open>
  The optional event metadata (\<^verbatim>\<open>event.hpp\<close>), the generic listener (\<^verbatim>\<open>event_listener.hpp\<close>) and the
  \<^verbatim>\<open>Reply\<close> shortcut (\<^verbatim>\<open>request.hpp\<close>). An \<^verbatim>\<open>Event\<close> object is its dynamic type, its name and the data of
  the derived class; \<^verbatim>\<open>this\<close> cast to the right derived class is the object itself.
\<close>

record 'v Event =
  ev_type :: type_id
  ev_name :: string
  ev_data :: 'v

text \<open>What the macro \<^verbatim>\<open>EVENT_HUB_EVENT\<close> makes of a class with type index \<open>t\<close>, name \<open>n\<close> and data \<open>v\<close>.\<close>

definition event_hub_event :: "type_id \<Rightarrow> string \<Rightarrow> 'v \<Rightarrow> 'v Event" where
  "event_hub_event t n v = \<lparr> ev_type = t, ev_name = n, ev_data = v \<rparr>"

definition event_clone :: "'v Event \<Rightarrow> 'v Event" where
  "event_clone e = event_hub_event (ev_type e) (ev_name e) (ev_data e)"

definition event_is :: "type_id \<Rightarrow> 'v Event \<Rightarrow> bool" where
  "event_is t e \<longleftrightarrow> ev_type e = t"

definition event_as :: "type_id \<Rightarrow> 'v Event \<Rightarrow> 'v Event option" where
  "event_as t e = (if event_is t e then Some e else None)"

definition event_as_ref :: "type_id \<Rightarrow> 'v Event \<Rightarrow> exn + 'v Event" where
  "event_as_ref t e = (if \<not> event_is t e then Inl Bad_cast else Inr e)"

text \<open>The default listener ignores the event.\<close>

definition on_event_default :: "'v Event \<Rightarrow> 's \<Rightarrow> 's" where
  "on_event_default e s = s"

text \<open>A reply: a shared pointer to a callback wrapper that may itself be empty.\<close>

record 'f Reply =
  reply_callback :: "'f option option"

definition Reply_empty :: "'f Reply" where
  "Reply_empty = \<lparr> reply_callback = None \<rparr>"

definition Reply_from :: "'f option \<Rightarrow> 'f Reply" where
  "Reply_from f = \<lparr> reply_callback = Some f \<rparr>"

definition Reply_bool :: "'f Reply \<Rightarrow> bool" where
  "Reply_bool r = (case reply_callback r of None \<Rightarrow> False | Some f \<Rightarrow> f \<noteq> None)"

definition Reply_reset :: "'f Reply \<Rightarrow> 'f Reply" where
  "Reply_reset r = r\<lparr>reply_callback := None\<rparr>"

definition Reply_call :: "('f \<Rightarrow> 'r \<Rightarrow> 's \<Rightarrow> 's \<times> exn option) \<Rightarrow> 'f Reply \<Rightarrow> 'r \<Rightarrow> 's \<Rightarrow> 's \<times> exn option" where
  "Reply_call run r result s =
     (case reply_callback r of Some (Some f) \<Rightarrow> run f result s | _ \<Rightarrow> (s, None))"

lemma Reply_call_empty: "\<not> Reply_bool r \<Longrightarrow> Reply_call run r result s = (s, None)"
  by (auto simp: Reply_bool_def Reply_call_def split: option.splits)

text \<open>
  The checked casts of an event agree: \<open>as_ref\<close> throws \<^verbatim>\<open>std::bad_cast\<close> exactly when \<open>as\<close> gives null,
  otherwise both give the event itself, and a clone answers every cast as the original does.
\<close>

lemma event_casts:
  "(event_as_ref t e = Inl Bad_cast \<longleftrightarrow> event_as t e = None) \<and>
   (event_as t e = Some e' \<longleftrightarrow> event_as_ref t e = Inr e') \<and>
   (event_as_ref t e = Inr e' \<longleftrightarrow> t = ev_type e \<and> e' = e) \<and>
   event_as t (event_clone e) = event_as t e"
  by (auto simp: event_as_def event_as_ref_def event_is_def event_clone_def event_hub_event_def)

end
