(* ===== verification/Cancel_Token.thy ===== *)
theory Cancel_Token
  imports Hub_Prelude
begin

text \<open>
  Cancellation tokens (\<^verbatim>\<open>cancellation.hpp\<close>). The shared \<^verbatim>\<open>State\<close> objects live in a store, the list of
  their flags in the order of allocation; a token or a source is a shared pointer to one of
  them, or null. States are never freed here: nothing observes a freed one.
\<close>

type_synonym cancel_store = "bool list"

record CancellationToken =
  ct_state :: "nat option"

record CancellationSource =
  cs_state :: "nat option"

definition make_state :: "cancel_store \<Rightarrow> nat \<times> cancel_store" where
  "make_state st = (length st, st @ [False])"

definition CancellationSource_init :: "cancel_store \<Rightarrow> CancellationSource \<times> cancel_store" where
  "CancellationSource_init st = (let (i, st) = make_state st in (\<lparr> cs_state = Some i \<rparr>, st))"

definition source_token :: "CancellationSource \<Rightarrow> CancellationToken" where
  "source_token c = \<lparr> ct_state = cs_state c \<rparr>"

definition source_cancel :: "CancellationSource \<Rightarrow> cancel_store \<Rightarrow> cancel_store" where
  "source_cancel c st = (case cs_state c of None \<Rightarrow> st | Some i \<Rightarrow> st[i := True])"

definition source_reset :: "CancellationSource \<Rightarrow> cancel_store \<Rightarrow> CancellationSource \<times> cancel_store" where
  "source_reset c st = (let (i, st) = make_state st in (c\<lparr>cs_state := Some i\<rparr>, st))"

definition is_cancelled :: "CancellationToken \<Rightarrow> cancel_store \<Rightarrow> bool" where
  "is_cancelled t st = (case ct_state t of None \<Rightarrow> False | Some i \<Rightarrow> st ! i)"

definition token_bool :: "CancellationToken \<Rightarrow> bool" where
  "token_bool t \<longleftrightarrow> ct_state t \<noteq> None"

text \<open>A token points into the store, or nowhere.\<close>

definition token_ok :: "CancellationToken \<Rightarrow> cancel_store \<Rightarrow> bool" where
  "token_ok t st \<longleftrightarrow> (case ct_state t of None \<Rightarrow> True | Some i \<Rightarrow> i < length st)"

lemmas cancellation_defs = make_state_def CancellationSource_init_def source_token_def source_cancel_def
  source_reset_def is_cancelled_def token_bool_def token_ok_def

lemma is_cancelled_bool: "is_cancelled t st \<Longrightarrow> token_bool t"
  by (auto simp: cancellation_defs split: option.splits)

lemma source_cancel_monotone: "token_ok t st \<Longrightarrow> is_cancelled t st \<Longrightarrow> is_cancelled t (source_cancel c st)"
  by (auto simp: cancellation_defs nth_update split: option.splits)

text \<open>
  Cancelling a source cancels exactly the tokens that share its state, for good; resetting it
  first detaches it, so older tokens keep their state and the tokens taken afterwards start
  uncancelled and are cancelled by the next cancel alone.
\<close>

lemma cancellation_contract:
  assumes "token_ok t st" "source_reset c st = (c', st')"
  shows "(is_cancelled t (source_cancel c st) \<longleftrightarrow>
      is_cancelled t st \<or> token_bool t \<and> ct_state t = ct_state (source_token c)) \<and>
    is_cancelled t (source_cancel c' st') = is_cancelled t st \<and>
    \<not> is_cancelled (source_token c') st' \<and> is_cancelled (source_token c') (source_cancel c' st')"
  using assms by (auto simp: cancellation_defs nth_append nth_update split: option.splits)

end
