(* ===== verification/Awaiter.thy ===== *)
theory Awaiter
  imports Event_Bus Cancel_Token
begin

text \<open>
  Event awaiters (\<^verbatim>\<open>event_awaiter.hpp\<close>, \<^verbatim>\<open>awaiter_interfaces.hpp\<close>) on top of the bus, and the callables
  the library itself builds. Awaiters are heap objects addressed by the ids of the strong counts;
  when the last owner of one releases it, its destructor runs. User callables are
  handles \<open>'u\<close> given meaning by the record \<open>user_code\<close>; a template instantiation
  \<^verbatim>\<open>EventAwaiter<T>\<close> is an awaiter subscribed to the type id of \<open>T\<close>.
\<close>

section \<open>Callables\<close>

text \<open>
  A callback: a user function, or the lambda of \<^verbatim>\<open>request_future\<close> completing promise \<open>p\<close>.
\<close>

datatype 'u Fn = User_fn 'u | Future_result nat

text \<open>
  What a subscription record calls: a callback, a callback behind a user guard, a listener, a
  listener behind a user guard, or the lambda of an awaiter.
\<close>

datatype 'u Callable =
    Call_fn "'u Fn"
  | Guarded_fn nat "'u Fn option"
  | Listener_fn 'u
  | Guarded_listener nat 'u
  | Awaiter_fn nat

datatype 'u Pred = User_pred 'u | Always | Has_request_id RequestId

text \<open>The time-out action: a user function, or the lambda of \<^verbatim>\<open>request_future\<close>.\<close>

datatype 'u Thunk = User_thunk 'u | Future_timeout nat "'u Thunk option"

text \<open>\<open>ao_timeout\<close> is a duration in ticks; zero means none.\<close>

record 'u AwaitOptions =
  ao_timeout :: time
  ao_token :: CancellationToken
  ao_on_timeout :: "'u Thunk option"

definition AwaitOptions_init :: "'u AwaitOptions" where
  "AwaitOptions_init = \<lparr> ao_timeout = 0, ao_token = \<lparr> ct_state = None \<rparr>, ao_on_timeout = None \<rparr>"

definition set_timeout_ms :: "int \<Rightarrow> 'u AwaitOptions \<Rightarrow> 'u AwaitOptions" where
  "set_timeout_ms ms options = options\<lparr>ao_timeout := milliseconds ms\<rparr>"

definition timeout_ms :: "int \<Rightarrow> 'u AwaitOptions" where
  "timeout_ms ms = set_timeout_ms ms AwaitOptions_init"

text \<open>The listener overloads of the bus.\<close>

definition subscribe_listener ::
  "type_id \<Rightarrow> owner_key \<Rightarrow> nat option \<Rightarrow> 'u \<Rightarrow> ('v, 'u Callable, 'h, 'z) BUS_scheme
     \<Rightarrow> SubscriptionId \<times> ('v, 'u Callable, 'h, 'z) BUS_scheme"
where
  "subscribe_listener t owner guard l s = subscribe t owner guard (Some (Listener_fn l)) s"

section \<open>State\<close>

record 'u EventAwaiter =
  aw_subscription_id :: SubscriptionId
  aw_predicate :: "'u Pred option"
  aw_callback :: "'u Fn option"
  aw_options :: "'u AwaitOptions"
  aw_single_shot :: bool
  aw_guard :: "nat option"
  aw_deadline :: "time option"
  aw_cancelled :: bool
  aw_retain_self :: bool

text \<open>The shared state of a \<^verbatim>\<open>request_future\<close>: the flag, the id, and what the promise holds.\<close>

datatype 'v future_result = Value 'v | Failed exn

record 'v Future =
  fut_completed :: bool
  fut_request_id :: RequestId
  fut_result :: "'v future_result option"

record ('v, 'u, 'h) AW = "('v, 'u Callable, 'h) BUS" +
  aw_store :: "nat \<rightharpoonup> 'u EventAwaiter"
  aw_next_object :: nat
  aw_tokens :: cancel_store
  aw_futures :: "'v Future list"

record ('v, 'u, 'h, 's) user_code =
  uc_call :: "'u \<Rightarrow> 'v \<Rightarrow> 's \<Rightarrow> 's \<times> exn option"
  uc_listener :: "'u \<Rightarrow> 'v \<Rightarrow> 's \<Rightarrow> 's \<times> exn option"
  uc_pred :: "'u \<Rightarrow> 'v \<Rightarrow> 's \<Rightarrow> (exn + bool) \<times> 's"
  uc_thunk :: "'u \<Rightarrow> 's \<Rightarrow> 's \<times> exn option"
  uc_handler :: "'h \<Rightarrow> exn \<Rightarrow> 's \<Rightarrow> 's \<times> exn option"
  uc_get_id :: "'v \<Rightarrow> RequestId"
  uc_set_id :: "RequestId \<Rightarrow> 'v \<Rightarrow> 'v"

definition aw_get :: "nat \<Rightarrow> ('v, 'u, 'h, 'z) AW_scheme \<Rightarrow> 'u EventAwaiter option" where
  "aw_get a s = aw_store s a"

definition aw_put :: "nat \<Rightarrow> 'u EventAwaiter \<Rightarrow> ('v, 'u, 'h, 'z) AW_scheme \<Rightarrow> ('v, 'u, 'h, 'z) AW_scheme" where
  "aw_put a w s = s\<lparr>aw_store := (aw_store s)(a \<mapsto> w)\<rparr>"

section \<open>Cancelling\<close>

definition aw_is_active :: "nat \<Rightarrow> ('v, 'u, 'h, 'z) AW_scheme \<Rightarrow> bool" where
  "aw_is_active a s = (case aw_store s a of None \<Rightarrow> False | Some w \<Rightarrow> \<not> aw_cancelled w)"

text \<open>
  \<open>aw_cancel\<close>. Dropping the retained self-reference may destroy the awaiter, whose destructor then
  finds it cancelled.
\<close>

definition aw_cancel :: "nat \<Rightarrow> ('v, 'u, 'h, 'z) AW_scheme \<Rightarrow> ('v, 'u, 'h, 'z) AW_scheme" where
  "aw_cancel a s =
     (case aw_store s a of
        None \<Rightarrow> s
      | Some w \<Rightarrow>
          if aw_cancelled w then s
          else let s = aw_put a (w\<lparr>aw_cancelled := True, aw_subscription_id := 0, aw_retain_self := False\<rparr>) s;
                   s = (if aw_subscription_id w \<noteq> 0 then unsubscribe (aw_subscription_id w) s else s)
               in if aw_retain_self w then unlock_object a s else s)"

text \<open>Dropping a shared pointer to an awaiter; the last one runs the destructor.\<close>

definition aw_release :: "nat \<Rightarrow> ('v, 'u, 'h, 'z) AW_scheme \<Rightarrow> ('v, 'u, 'h, 'z) AW_scheme" where
  "aw_release a s =
     (let s = unlock_object a s in if w_strong s a = 0 then aw_cancel a s else s)"

definition token_cancelled :: "'u EventAwaiter \<Rightarrow> ('v, 'u, 'h, 'z) AW_scheme \<Rightarrow> bool" where
  "token_cancelled w s \<longleftrightarrow>
     token_bool (ao_token (aw_options w)) \<and> is_cancelled (ao_token (aw_options w)) (aw_tokens s)"

section \<open>Running callables\<close>

text \<open>The compare-exchange on \<open>completed\<close> and the promise.\<close>

definition complete_future :: "nat \<Rightarrow> ('v Future \<Rightarrow> 'v future_result) \<Rightarrow> ('v, 'u, 'h, 'z) AW_scheme \<Rightarrow> ('v, 'u, 'h, 'z) AW_scheme" where
  "complete_future p r s =
     (let f = aw_futures s ! p
      in if fut_completed f then s
         else s\<lparr>aw_futures := (aw_futures s)[p := f\<lparr>fut_completed := True, fut_result := Some (r f)\<rparr>]\<rparr>)"

definition call_fn ::
  "('v, 'u, 'h, ('v, 'u, 'h, 'z) AW_scheme) user_code \<Rightarrow> 'u Fn \<Rightarrow> 'v \<Rightarrow> ('v, 'u, 'h, 'z) AW_scheme
     \<Rightarrow> ('v, 'u, 'h, 'z) AW_scheme \<times> exn option"
where
  "call_fn uc f v s =
     (case f of
        User_fn u \<Rightarrow> uc_call uc u v s
      | Future_result p \<Rightarrow> (complete_future p (\<lambda>_. Value v) s, None))"

definition call_pred ::
  "('v, 'u, 'h, ('v, 'u, 'h, 'z) AW_scheme) user_code \<Rightarrow> 'u Pred \<Rightarrow> 'v \<Rightarrow> ('v, 'u, 'h, 'z) AW_scheme
     \<Rightarrow> (exn + bool) \<times> ('v, 'u, 'h, 'z) AW_scheme"
where
  "call_pred uc p v s =
     (case p of
        User_pred u \<Rightarrow> uc_pred uc u v s
      | Always \<Rightarrow> (Inr True, s)
      | Has_request_id i \<Rightarrow> (Inr (uc_get_id uc v = i), s))"

fun call_thunk ::
  "('v, 'u, 'h, ('v, 'u, 'h, 'z) AW_scheme) user_code \<Rightarrow> 'u Thunk \<Rightarrow> ('v, 'u, 'h, 'z) AW_scheme
     \<Rightarrow> ('v, 'u, 'h, 'z) AW_scheme \<times> exn option"
where
  "call_thunk uc (User_thunk u) s = uc_thunk uc u s"
| "call_thunk uc (Future_timeout p user) s =
     (let s = complete_future p (\<lambda>f. Failed (Request_timeout (fut_request_id f))) s
      in case user of None \<Rightarrow> (s, None) | Some c \<Rightarrow> call_thunk uc c s)"

section \<open>Events and time-outs\<close>

text \<open>The part of \<^verbatim>\<open>handle_event\<close> under the local strong reference.\<close>

definition aw_match ::
  "('v, 'u, 'h, ('v, 'u, 'h, 'z) AW_scheme) user_code \<Rightarrow> nat \<Rightarrow> 'u EventAwaiter \<Rightarrow> 'v \<Rightarrow> ('v, 'u, 'h, 'z) AW_scheme
     \<Rightarrow> ('v, 'u, 'h, 'z) AW_scheme \<times> exn option"
where
  "aw_match uc a w v s =
     (case (case aw_predicate w of None \<Rightarrow> (Inr True, s) | Some p \<Rightarrow> call_pred uc p v s) of
        (Inl x, s) \<Rightarrow> (s, Some x)
      | (Inr False, s) \<Rightarrow> (s, None)
      | (Inr True, s) \<Rightarrow>
          (let s = (if aw_single_shot w then aw_cancel a s else s)
           in case aw_callback w of None \<Rightarrow> (s, None) | Some f \<Rightarrow> call_fn uc f v s))"

definition hold_awaiter :: "nat \<Rightarrow> ('v, 'u, 'h, 'z) AW_scheme \<Rightarrow> ('v, 'u, 'h, 'z) AW_scheme" where
  "hold_awaiter a s = s\<lparr>w_strong := (w_strong s)(a := Suc (w_strong s a))\<rparr>"

definition handle_event ::
  "('v, 'u, 'h, ('v, 'u, 'h, 'z) AW_scheme) user_code \<Rightarrow> nat \<Rightarrow> 'v \<Rightarrow> ('v, 'u, 'h, 'z) AW_scheme
     \<Rightarrow> ('v, 'u, 'h, 'z) AW_scheme \<times> exn option"
where
  "handle_event uc a v s =
     (case aw_store s a of
        None \<Rightarrow> (s, None)
      | Some w \<Rightarrow>
          if aw_cancelled w then (s, None)
          else if token_cancelled w s then (aw_cancel a s, None)
          else case aw_match uc a w v (hold_awaiter a s) of (s, x) \<Rightarrow> (aw_release a s, x))"

text \<open>The callables of the subscription records, the runner of the bus.\<close>

definition run_callable ::
  "('v, 'u, 'h, ('v, 'u, 'h, 'z) AW_scheme) user_code \<Rightarrow> 'u Callable \<Rightarrow> 'v \<Rightarrow> ('v, 'u, 'h, 'z) AW_scheme
     \<Rightarrow> ('v, 'u, 'h, 'z) AW_scheme \<times> exn option"
where
  "run_callable uc c v s =
     (case c of
        Call_fn f \<Rightarrow> call_fn uc f v s
      | Listener_fn l \<Rightarrow> uc_listener uc l v s
      | Guarded_fn g f \<Rightarrow>
          (case lock_object g s of
             None \<Rightarrow> (s, None)
           | Some s \<Rightarrow>
               (case (case f of None \<Rightarrow> (s, Some Bad_function_call) | Some f \<Rightarrow> call_fn uc f v s) of
                  (s, x) \<Rightarrow> (unlock_object g s, x)))
      | Guarded_listener g l \<Rightarrow>
          (case lock_object g s of
             None \<Rightarrow> (s, None)
           | Some s \<Rightarrow> (case uc_listener uc l v s of (s, x) \<Rightarrow> (unlock_object g s, x)))
      | Awaiter_fn a \<Rightarrow>
          (case lock_object a s of
             None \<Rightarrow> (s, None)
           | Some s \<Rightarrow> (case handle_event uc a v s of (s, x) \<Rightarrow> (aw_release a s, x))))"

text \<open>The time-out branch: the action is moved out before the awaiter is cancelled.\<close>

definition aw_expire ::
  "('v, 'u, 'h, ('v, 'u, 'h, 'z) AW_scheme) user_code \<Rightarrow> nat \<Rightarrow> 'u EventAwaiter \<Rightarrow> ('v, 'u, 'h, 'z) AW_scheme
     \<Rightarrow> ('v, 'u, 'h, 'z) AW_scheme"
where
  "aw_expire uc a w s =
     (let s = aw_put a (w\<lparr>aw_options := (aw_options w)\<lparr>ao_on_timeout := None\<rparr>\<rparr>) s;
          s = aw_cancel a s
      in case ao_on_timeout (aw_options w) of
           None \<Rightarrow> s
         | Some c \<Rightarrow>
             (case call_thunk uc c s of
                (s, None) \<Rightarrow> s
              | (s, Some x) \<Rightarrow> report_exception_noexcept (uc_handler uc) x s))"

definition poll_timeout ::
  "('v, 'u, 'h, ('v, 'u, 'h, 'z) AW_scheme) user_code \<Rightarrow> nat \<Rightarrow> ('v, 'u, 'h, 'z) AW_scheme
     \<Rightarrow> ('v, 'u, 'h, 'z) AW_scheme"
where
  "poll_timeout uc a s =
     (case aw_store s a of
        None \<Rightarrow> s
      | Some w \<Rightarrow>
          if aw_cancelled w then s
          else if token_cancelled w s then aw_release a (aw_cancel a (hold_awaiter a s))
          else case aw_deadline w of
                 None \<Rightarrow> s
               | Some d \<Rightarrow>
                   (let (now, s) = clock_now s
                    in if d \<le> now then aw_release a (aw_expire uc a w (hold_awaiter a s)) else s))"

definition awaiter_ops ::
  "('v, 'u, 'h, ('v, 'u, 'h, 'z) AW_scheme) user_code \<Rightarrow> ('v, 'u, 'h, 'z) AW_scheme IAwaiterEx"
where
  "awaiter_ops uc = \<lparr> ia_lock = lock_object, ia_release = aw_release, ia_is_active = aw_is_active,
     ia_poll_timeout = poll_timeout uc \<rparr>"

section \<open>Creation\<close>

definition make_object :: "('v, 'u, 'h, 'z) AW_scheme \<Rightarrow> nat \<times> ('v, 'u, 'h, 'z) AW_scheme" where
  "make_object s =
     (let a = aw_next_object s
      in (a, s\<lparr>aw_next_object := Suc a, w_strong := (w_strong s)(a := 1)\<rparr>))"

text \<open>The constructor; \<open>guard\<close> is \<open>None\<close> without a subscription guard.\<close>

definition EventAwaiter_init ::
  "'u Pred option \<Rightarrow> 'u Fn option \<Rightarrow> 'u AwaitOptions \<Rightarrow> bool \<Rightarrow> nat option \<Rightarrow> ('v, 'u, 'h, 'z) AW_scheme
     \<Rightarrow> nat \<times> ('v, 'u, 'h, 'z) AW_scheme"
where
  "EventAwaiter_init pred cb options single guard s =
     (let (a, s) = make_object s;
          (deadline, s) = (if 0 < ao_timeout options
                           then let (now, s) = clock_now s in (Some (now + ao_timeout options), s)
                           else (None, s))
      in (a, aw_put a \<lparr> aw_subscription_id = 0, aw_predicate = pred, aw_callback = cb, aw_options = options,
                aw_single_shot = single, aw_guard = guard, aw_deadline = deadline, aw_cancelled = False,
                aw_retain_self = False \<rparr> s))"

definition subscribe_internal :: "type_id \<Rightarrow> nat \<Rightarrow> ('v, 'u, 'h, 'z) AW_scheme \<Rightarrow> ('v, 'u, 'h, 'z) AW_scheme" where
  "subscribe_internal t a s =
     (case aw_store s a of
        None \<Rightarrow> s
      | Some w \<Rightarrow>
          (let s = (if aw_single_shot w then hold_awaiter a s else s);
               (i, s) = subscribe t (Awaiter_owner a) (aw_guard w) (Some (Awaiter_fn a)) s
           in aw_put a (w\<lparr>aw_retain_self := aw_single_shot w, aw_subscription_id := i\<rparr>) s))"

text \<open>\<open>create\<close> returns the handle, a strong reference of the caller.\<close>

definition aw_create ::
  "type_id \<Rightarrow> 'u Pred option \<Rightarrow> 'u Fn option \<Rightarrow> 'u AwaitOptions \<Rightarrow> bool \<Rightarrow> nat option \<Rightarrow> ('v, 'u, 'h, 'z) AW_scheme
     \<Rightarrow> nat \<times> ('v, 'u, 'h, 'z) AW_scheme"
where
  "aw_create t pred cb options single guard s =
     (let (a, s) = EventAwaiter_init pred cb options single guard s
      in (a, register_awaiter (Some a) (subscribe_internal t a s)))"

end
