(* ===== verification/Awaiter_Theorems.thy ===== *)
theory Awaiter_Theorems
  imports Awaiter Bus_Theorems
begin

text \<open>
  The correctness of the awaiters: what cancelling and releasing one does to the subscription
  tables, when a callback and a time-out run, and the awaiters as the bus polls them.
\<close>

section \<open>Fields an operation leaves alone\<close>

lemmas aw_basic_defs = aw_put_def hold_awaiter_def unlock_object_def lock_object_def clock_now_def
  make_object_def

lemma aw_cancel_frame [hub_frame]:
  "bus_queue (aw_cancel a s) = bus_queue s" "bus_awaiters (aw_cancel a s) = bus_awaiters s"
  "bus_handler (aw_cancel a s) = bus_handler s" "aw_tokens (aw_cancel a s) = aw_tokens s"
  "aw_futures (aw_cancel a s) = aw_futures s" "bus_next_subscription (aw_cancel a s) = bus_next_subscription s"
  "bus_request_ids (aw_cancel a s) = bus_request_ids s" "aw_next_object (aw_cancel a s) = aw_next_object s"
  "w_reads (aw_cancel a s) = w_reads s" "w_clock (aw_cancel a s) = w_clock s"
  by (simp_all add: aw_cancel_def aw_basic_defs unsubscribe_def Let_def split: option.split)

lemma aw_release_frame [hub_frame]:
  "bus_queue (aw_release a s) = bus_queue s" "bus_awaiters (aw_release a s) = bus_awaiters s"
  "bus_handler (aw_release a s) = bus_handler s" "aw_tokens (aw_release a s) = aw_tokens s"
  "aw_futures (aw_release a s) = aw_futures s" "bus_next_subscription (aw_release a s) = bus_next_subscription s"
  "bus_request_ids (aw_release a s) = bus_request_ids s"
  by (simp_all add: aw_release_def hub_frame unlock_object_def Let_def)

lemma aw_store_frame [simp]:
  "aw_store (hold_awaiter a s) = aw_store s" "aw_store (unlock_object a s) = aw_store s"
  "aw_store (unsubscribe i s) = aw_store s" "aw_store (aw_put a w s) = (aw_store s)(a \<mapsto> w)"
  by (simp_all add: aw_basic_defs unsubscribe_def)

section \<open>Cancelling\<close>

definition aw_is_cancelled :: "nat \<Rightarrow> ('v, 'u, 'h, 'z) AW_scheme \<Rightarrow> bool" where
  "aw_is_cancelled a s \<longleftrightarrow> (\<exists>w. aw_store s a = Some w \<and> aw_cancelled w)"

lemma aw_cancel_cancelled: "aw_is_cancelled a s \<Longrightarrow> aw_cancel a s = s"
  by (auto simp: aw_is_cancelled_def aw_cancel_def)

lemma aw_store_cancel:
  "aw_store (aw_cancel a s) =
     (case aw_store s a of
        None \<Rightarrow> aw_store s
      | Some w \<Rightarrow> if aw_cancelled w then aw_store s
                  else (aw_store s)(a \<mapsto> w\<lparr>aw_cancelled := True, aw_subscription_id := 0, aw_retain_self := False\<rparr>))"
  by (simp add: aw_cancel_def Let_def split: option.split)

lemma aw_is_cancelled_cancel: "aw_store s a \<noteq> None \<Longrightarrow> aw_is_cancelled a (aw_cancel a s)"
  by (auto simp: aw_is_cancelled_def aw_store_cancel)

lemma aw_is_cancelled_stable [simp]:
  "aw_is_cancelled a s \<Longrightarrow> aw_is_cancelled a (aw_cancel b s)"
  "aw_is_cancelled a (hold_awaiter b s) = aw_is_cancelled a s"
  "aw_is_cancelled a (unlock_object b s) = aw_is_cancelled a s"
  by (auto simp: aw_is_cancelled_def aw_store_cancel split: option.split)

lemma aw_is_cancelled_release [simp]: "aw_is_cancelled a s \<Longrightarrow> aw_is_cancelled a (aw_release b s)"
  by (simp add: aw_release_def Let_def)

lemma cancelled_inert:
  assumes "aw_is_cancelled a s"
  shows "handle_event uc a v s = (s, None)" "poll_timeout uc a s = s" "aw_cancel a s = s" "\<not> aw_is_active a s"
  using assms by (auto simp: aw_is_cancelled_def handle_event_def poll_timeout_def aw_cancel_def aw_is_active_def)

section \<open>Creating\<close>

text \<open>The awaiter object that \<open>create\<close> leaves behind, and the state around it.\<close>

definition created_deadline :: "'u AwaitOptions \<Rightarrow> ('v, 'u, 'h, 'z) AW_scheme \<Rightarrow> time option" where
  "created_deadline options s =
     (if 0 < ao_timeout options then Some (w_clock s (w_reads s) + ao_timeout options) else None)"

lemma aw_create_eq:
  assumes "aw_create t pred cb options single guard s = (a, s')"
  shows "a = aw_next_object s"
    "aw_store s' = (aw_store s)(a \<mapsto>
        \<lparr> aw_subscription_id = bus_next_subscription s, aw_predicate = pred, aw_callback = cb, aw_options = options,
          aw_single_shot = single, aw_guard = guard, aw_deadline = created_deadline options s,
          aw_cancelled = False, aw_retain_self = single \<rparr>)"
    "w_strong s' a = (if single then 2 else 1)"
    "bus_awaiters s' = bus_awaiters s @ [a]"
    "bus_callbacks s' = (bus_callbacks s)(t \<mapsto> records_of t s @
        [\<lparr> cb_id = bus_next_subscription s, cb_owner = Awaiter_owner a, cb_guard = guard, cb_callback = Some (Some (Awaiter_fn a)) \<rparr>])"
    "bus_next_subscription s' = bus_next_subscription s + 1"
  using assms
  by (auto simp: aw_create_def EventAwaiter_init_def subscribe_internal_def register_awaiter_def created_deadline_def
      subscribe_eq push_record_def aw_basic_defs records_of_def Let_def split: if_splits)

lemma aw_cancel_created:
  assumes c: "aw_create t pred cb options single guard s = (a, s')" and inv: "bus_inv s" and room: "sub_room s"
  shows "bus_callbacks (aw_cancel a s') = bus_callbacks s" "w_strong (aw_cancel a s') a = 1"
    "aw_is_cancelled a (aw_cancel a s')"
proof -
  note e = aw_create_eq [OF c]
  let ?n = "bus_next_subscription s"
  have nz: "?n \<noteq> 0" using inv by (simp add: bus_inv_def)
  have st: "aw_store s' a = Some \<lparr> aw_subscription_id = ?n, aw_predicate = pred, aw_callback = cb,
      aw_options = options, aw_single_shot = single, aw_guard = guard,
      aw_deadline = created_deadline options s, aw_cancelled = False, aw_retain_self = single \<rparr>" using e(2) by simp
  obtain i s2 where sub: "subscribe t (Awaiter_owner a) guard (Some (Awaiter_fn a)) s = (i, s2)" by fastforce
  then have i: "i = ?n" "bus_callbacks s2 = bus_callbacks s'"
    using e(5) by (auto simp: subscribe_eq push_record_def)
  have "bus_callbacks (unsubscribe ?n s') = bus_callbacks (unsubscribe i s2)" using i by (simp add: unsubscribe_def)
  also have "\<dots> = bus_callbacks s" using subscribe_unsubscribed [OF inv room sub] by simp
  finally show "bus_callbacks (aw_cancel a s') = bus_callbacks s"
    using st nz by (simp add: aw_cancel_def aw_basic_defs unsubscribe_def Let_def)
  show "w_strong (aw_cancel a s') a = 1"
    using st nz e(3) by (simp add: aw_cancel_def aw_basic_defs unsubscribe_def Let_def)
  show "aw_is_cancelled a (aw_cancel a s')" using st by (intro aw_is_cancelled_cancel) simp
qed

text \<open>
  Cancelling a new awaiter undoes its creation on the bus: the subscription tables are as before, the
  caller's handle is the only owner left, and from then on no event, no poll and no second
  cancel has any effect on it.
\<close>

theorem await_create_cancel:
  assumes "aw_create t pred cb options single guard s = (a, s')" "bus_inv s" "sub_room s"
  shows "bus_callbacks (aw_cancel a s') = bus_callbacks s \<and> w_strong (aw_cancel a s') a = 1 \<and>
    aw_is_active a s' \<and> \<not> aw_is_active a (aw_cancel a s') \<and>
    handle_event uc a v (aw_cancel a s') = (aw_cancel a s', None) \<and>
    poll_timeout uc a (aw_cancel a s') = aw_cancel a s' \<and> aw_cancel a (aw_cancel a s') = aw_cancel a s'"
proof -
  have "aw_is_active a s'" using aw_create_eq(2) [OF assms(1)] by (auto simp: aw_is_active_def)
  then show ?thesis
    using aw_cancel_created [OF assms] by (simp add: cancelled_inert)
qed

text \<open>
  Dropping the returned handle ends an \<open>await_each\<close>: its subscription is gone. A single-shot
  awaiter owns itself instead: it stays active and subscribed until it fires, times out or is
  cancelled.
\<close>

lemma await_handle_lifetime:
  assumes "aw_create t pred cb options single guard s = (a, s')" "bus_inv s" "sub_room s"
  shows "if single then aw_is_active a (aw_release a s') \<and> bus_callbacks (aw_release a s') = bus_callbacks s'
    else \<not> aw_is_active a (aw_release a s') \<and> bus_callbacks (aw_release a s') = bus_callbacks s"
proof (cases single)
  case True
  then have "aw_release a s' = unlock_object a s'"
    using aw_create_eq(3) [OF assms(1)] by (simp add: aw_release_def unlock_object_def Let_def)
  moreover have "aw_is_active a s'" using aw_create_eq(2) [OF assms(1)] by (auto simp: aw_is_active_def)
  ultimately show ?thesis using True by (simp add: aw_is_active_def unlock_object_def)
next
  case False
  have "aw_release a s' = aw_cancel a (unlock_object a s')"
    using aw_create_eq(3) [OF assms(1)] False by (simp add: aw_release_def unlock_object_def Let_def)
  moreover have "bus_callbacks (aw_cancel a (unlock_object a s')) = bus_callbacks (aw_cancel a s')"
    using aw_create_eq(2) [OF assms(1)] False by (auto simp: aw_cancel_def aw_basic_defs unsubscribe_def Let_def)
  moreover have "aw_is_cancelled a (aw_cancel a (unlock_object a s'))"
    using aw_create_eq(2) [OF assms(1)] by (intro aw_is_cancelled_cancel) auto
  ultimately show ?thesis
    using aw_cancel_created(1) [OF assms] cancelled_inert(4) False by simp
qed

section \<open>Events\<close>

lemma handle_event_match:
  assumes "aw_store s a = Some w" "\<not> aw_cancelled w" "\<not> token_cancelled w s"
    and "aw_predicate w = None \<or> (\<exists>p. aw_predicate w = Some p \<and> call_pred uc p v (hold_awaiter a s) = (Inr True, hold_awaiter a s))"
  shows "handle_event uc a v s =
    (let s1 = (if aw_single_shot w then aw_cancel a (hold_awaiter a s) else hold_awaiter a s);
         (s2, x) = (case aw_callback w of None \<Rightarrow> (s1, None) | Some f \<Rightarrow> call_fn uc f v s1)
     in (aw_release a s2, x))"
  using assms by (auto simp: handle_event_def aw_match_def Let_def split: option.splits)


text \<open>The API has no way to revive a cancelled awaiter; user code has this property.\<close>

definition keeps_cancelled :: "nat \<Rightarrow> ('v, 'u, 'h, ('v, 'u, 'h, 'z) AW_scheme) user_code \<Rightarrow> bool" where
  "keeps_cancelled a uc \<longleftrightarrow>
     (\<forall>s. aw_is_cancelled a s \<longrightarrow>
        (\<forall>u v. aw_is_cancelled a (fst (uc_call uc u v s))) \<and> (\<forall>u. aw_is_cancelled a (fst (uc_thunk uc u s))) \<and>
        (\<forall>h x. aw_is_cancelled a (fst (uc_handler uc h x s))))"

lemma complete_future_store [simp]: "aw_store (complete_future p r s) = aw_store s"
  by (simp add: complete_future_def Let_def)

lemma aw_is_cancelled_future [simp]: "aw_is_cancelled a (complete_future p r s) = aw_is_cancelled a s"
  by (simp add: aw_is_cancelled_def)

lemma keeps_cancelled_call:
  "keeps_cancelled a uc \<Longrightarrow> aw_is_cancelled a s \<Longrightarrow> aw_is_cancelled a (fst (call_fn uc f v s))"
  by (cases f) (simp_all add: call_fn_def keeps_cancelled_def)

lemma keeps_cancelled_thunk:
  "keeps_cancelled a uc \<Longrightarrow> aw_is_cancelled a s \<Longrightarrow> aw_is_cancelled a (fst (call_thunk uc c s))"
  by (induction uc c s rule: call_thunk.induct) (simp_all add: keeps_cancelled_def Let_def split: option.split)

lemma keeps_cancelled_report:
  assumes "keeps_cancelled a uc" "aw_is_cancelled a s"
  shows "aw_is_cancelled a (report_exception_noexcept (uc_handler uc) x s)"
proof (cases "bus_handler s")
  case (Some h)
  have "aw_is_cancelled a (fst (uc_handler uc h x s))" using assms by (simp add: keeps_cancelled_def)
  then show ?thesis
    using Some by (auto simp: report_exception_noexcept_def bus_report_exception_def split: prod.split option.split)
qed (simp add: report_exception_noexcept_def bus_report_exception_def assms)

lemma keeps_cancelled_expire:
  assumes "keeps_cancelled a uc" "aw_store s a \<noteq> None"
  shows "aw_is_cancelled a (aw_expire uc a w s)"
proof -
  define s1 where "s1 = aw_cancel a (aw_put a (w\<lparr>aw_options := (aw_options w)\<lparr>ao_on_timeout := None\<rparr>\<rparr>) s)"
  have 1: "aw_is_cancelled a s1" unfolding s1_def by (rule aw_is_cancelled_cancel) simp
  show ?thesis
  proof (cases "ao_on_timeout (aw_options w)")
    case (Some c)
    obtain s2 x where c: "call_thunk uc c s1 = (s2, x)" by fastforce
    then have "aw_is_cancelled a s2" using keeps_cancelled_thunk [OF assms(1) 1, of c] by simp
    then show ?thesis
      using Some c keeps_cancelled_report [OF assms(1)]
      by (cases x) (simp_all add: aw_expire_def Let_def s1_def [symmetric])
  qed (use 1 in \<open>simp add: aw_expire_def s1_def\<close>)
qed

lemma records_unsubscribed: "r \<in> set (records_of t (unsubscribe i s)) \<Longrightarrow> cb_id r \<noteq> i"
  by (cases "bus_callbacks s t") (auto simp: records_of_def unsubscribe_def erase_records_def Let_def split: if_splits)

lemma records_of_frame [simp]:
  "records_of t (unlock_object a s) = records_of t s" "records_of t (aw_put a w s) = records_of t s"
  "records_of t (hold_awaiter a s) = records_of t s"
  by (simp_all add: records_of_def aw_basic_defs)

lemma records_cancelled:
  assumes "aw_store s a = Some w" "\<not> aw_cancelled w" "aw_subscription_id w \<noteq> 0" "r \<in> set (records_of t (aw_cancel a s))"
  shows "cb_id r \<noteq> aw_subscription_id w"
  using assms records_unsubscribed by (auto simp: aw_cancel_def Let_def split: if_splits)


section \<open>Time-outs\<close>

lemma aw_create_deadline:
  assumes "aw_create t pred cb options single guard s = (a, s')" "0 < ao_timeout options"
  shows "\<exists>w. aw_store s' a = Some w \<and> aw_deadline w = Some (w_clock s (w_reads s) + ao_timeout options) \<and>
    \<not> aw_cancelled w \<and> aw_options w = options"
  using aw_create_eq(2) [OF assms(1)] assms(2) by (simp add: created_deadline_def)

text \<open>
  C34: the time-out of an awaiter is cooperative and exact. A poll whose clock reading is before the
  reading at creation plus the time-out only reads the clock; from the deadline on the poll cancels
  the awaiter, and afterwards no event, poll or time-out reaches it again.
\<close>

theorem await_timeout:
  assumes c: "aw_create t pred cb options single guard s = (a, s')" and pos: "0 < ao_timeout options"
    and tok: "\<not> is_cancelled (ao_token options) (aw_tokens s')" and uc: "keeps_cancelled a uc"
  shows "if w_clock s' (w_reads s') < w_clock s (w_reads s) + ao_timeout options
    then poll_timeout uc a s' = s'\<lparr>w_reads := Suc (w_reads s')\<rparr>
    else let s2 = poll_timeout uc a s' in
      aw_is_cancelled a s2 \<and> poll_timeout uc a s2 = s2 \<and> (\<forall>v. handle_event uc a v s2 = (s2, None))"
proof -
  obtain w where w: "aw_store s' a = Some w" "aw_deadline w = Some (w_clock s (w_reads s) + ao_timeout options)"
    "\<not> aw_cancelled w" "aw_options w = options" using aw_create_deadline [OF c pos] by blast
  have p: "poll_timeout uc a s' =
      (let (now, s1) = clock_now s' in
       if w_clock s (w_reads s) + ao_timeout options \<le> now
       then aw_release a (aw_expire uc a w (hold_awaiter a s1)) else s1)"
    using w tok by (simp add: poll_timeout_def token_cancelled_def)
  show ?thesis
  proof (cases "w_clock s' (w_reads s') < w_clock s (w_reads s) + ao_timeout options")
    case True
    then show ?thesis by (simp add: p clock_now_def)
  next
    case False
    let ?s1 = "hold_awaiter a (s'\<lparr>w_reads := Suc (w_reads s')\<rparr>)"
    have "aw_is_cancelled a (aw_release a (aw_expire uc a w ?s1))"
      by (intro aw_is_cancelled_release keeps_cancelled_expire [OF uc]) (simp add: w)
    then have "aw_is_cancelled a (poll_timeout uc a s')" using False by (simp add: p clock_now_def)
    then show ?thesis using False by (simp add: Let_def cancelled_inert)
  qed
qed

section \<open>The awaiters the bus polls\<close>

definition aw_alive :: "nat \<Rightarrow> ('v, 'u, 'h, 'z) AW_scheme \<Rightarrow> bool" where
  "aw_alive a s \<longleftrightarrow> a \<noteq> null_object \<and> w_strong s a \<noteq> 0"

lemma aw_release_hold: "w_strong s a \<noteq> 0 \<Longrightarrow> aw_release a (hold_awaiter a s) = s"
  by (simp add: aw_release_def aw_basic_defs Let_def)

interpretation pa: polled_awaiters "awaiter_ops uc" aw_alive hold_awaiter for uc
proof
  show "ia_lock (awaiter_ops uc) a s = (if aw_alive a s then Some (hold_awaiter a s) else None)" for a s
    by (simp add: awaiter_ops_def aw_alive_def lock_object_def hold_awaiter_def)
  show "aw_alive a s \<Longrightarrow> ia_release (awaiter_ops uc) a (hold_awaiter a s) = s" for a s
    by (simp add: awaiter_ops_def aw_alive_def aw_release_hold)
qed (auto simp: awaiter_ops_def aw_is_active_def aw_alive_def hold_awaiter_def)

text \<open>
  One poll of the bus forgets exactly the registered awaiters that are destroyed or cancelled, keeps the
  others in registration order, and polls each of those once, in that order, all of them held alive
  until the last poll is over.
\<close>

theorem poll_awaiters_reference:
  "poll_awaiters (awaiter_ops uc) s =
     (let live = filter (\<lambda>a. aw_alive a s \<and> aw_is_active a s) (bus_awaiters s)
      in fold aw_release live (fold (poll_timeout uc) live (fold hold_awaiter live (s\<lparr>bus_awaiters := live\<rparr>))))"
  using pa.poll_eq [of uc s] by (simp add: awaiter_ops_def)

end
