(* ===== verification/Endpoint.thy ===== *)
theory Endpoint
  imports Awaiter
begin

text \<open>
  Endpoints and nodes (\<^verbatim>\<open>event_endpoint.hpp\<close>, \<^verbatim>\<open>event_node.hpp\<close>). An endpoint is the value stored at its
  address \<open>e\<close>, which is also its owner key on the bus. \<open>ep_guard\<close> is the guard object it
  owns, \<open>None\<close> once reset; \<open>ep_awaiters\<close> lists the awaiters it shares ownership of. User
  guards of the subscriptions are object ids.
\<close>

section \<open>State\<close>

record EventEndpoint =
  ep_guard :: "nat option"
  ep_closed :: bool
  ep_awaiters :: "nat list"

record ('v, 'u, 'h) EPS = "('v, 'u, 'h) AW" +
  eps_store :: "nat \<Rightarrow> EventEndpoint"

definition ep_update ::
  "nat \<Rightarrow> (EventEndpoint \<Rightarrow> EventEndpoint) \<Rightarrow> ('v, 'u, 'h, 'z) EPS_scheme \<Rightarrow> ('v, 'u, 'h, 'z) EPS_scheme"
where
  "ep_update e f s = s\<lparr>eps_store := (eps_store s)(e := f (eps_store s e))\<rparr>"

definition EventEndpoint_init :: "nat \<Rightarrow> ('v, 'u, 'h, 'z) EPS_scheme \<Rightarrow> ('v, 'u, 'h, 'z) EPS_scheme" where
  "EventEndpoint_init e s =
     (let (g, s) = make_object s
      in ep_update e (\<lambda>_. \<lparr> ep_guard = Some g, ep_closed = False, ep_awaiters = [] \<rparr>) s)"

text \<open>The weak guard pointer; empty after the guard was reset.\<close>

definition ep_weak_guard :: "nat \<Rightarrow> ('v, 'u, 'h, 'z) EPS_scheme \<Rightarrow> nat" where
  "ep_weak_guard e s = (case ep_guard (eps_store s e) of None \<Rightarrow> null_object | Some g \<Rightarrow> g)"

definition ep_is_closed :: "nat \<Rightarrow> ('v, 'u, 'h, 'z) EPS_scheme \<Rightarrow> bool" where
  "ep_is_closed e s = ep_closed (eps_store s e)"

section \<open>Closing\<close>

text \<open>The awaiters are swapped out, cancelled in order and then released.\<close>

definition cancel_awaiters :: "nat \<Rightarrow> ('v, 'u, 'h, 'z) EPS_scheme \<Rightarrow> ('v, 'u, 'h, 'z) EPS_scheme" where
  "cancel_awaiters e s =
     (let awaiters = ep_awaiters (eps_store s e);
          s = ep_update e (\<lambda>ep. ep\<lparr>ep_awaiters := []\<rparr>) s
      in fold aw_release awaiters (fold aw_cancel awaiters s))"

definition ep_unsubscribe_all :: "nat \<Rightarrow> ('v, 'u, 'h, 'z) EPS_scheme \<Rightarrow> ('v, 'u, 'h, 'z) EPS_scheme" where
  "ep_unsubscribe_all e s = unsubscribe_all (Endpoint_owner e) s"

definition reset_guard :: "nat \<Rightarrow> ('v, 'u, 'h, 'z) EPS_scheme \<Rightarrow> ('v, 'u, 'h, 'z) EPS_scheme" where
  "reset_guard e s =
     (case ep_guard (eps_store s e) of
        None \<Rightarrow> s
      | Some g \<Rightarrow> unlock_object g (ep_update e (\<lambda>ep. ep\<lparr>ep_guard := None\<rparr>) s))"

definition ep_close :: "nat \<Rightarrow> ('v, 'u, 'h, 'z) EPS_scheme \<Rightarrow> ('v, 'u, 'h, 'z) EPS_scheme" where
  "ep_close e s =
     (let s = (if \<not> ep_closed (eps_store s e)
               then reset_guard e (ep_update e (\<lambda>ep. ep\<lparr>ep_closed := True\<rparr>) s) else s)
      in ep_unsubscribe_all e (cancel_awaiters e s))"

text \<open>The destructor closes; the members that remain are empty then.\<close>

definition ep_destroy :: "nat \<Rightarrow> ('v, 'u, 'h, 'z) EPS_scheme \<Rightarrow> ('v, 'u, 'h, 'z) EPS_scheme" where
  "ep_destroy e s = ep_close e s"

section \<open>Subscribing, emitting and posting\<close>

definition ep_subscribe ::
  "type_id \<Rightarrow> nat \<Rightarrow> 'u Fn option \<Rightarrow> ('v, 'u, 'h, 'z) EPS_scheme \<Rightarrow> SubscriptionId \<times> ('v, 'u, 'h, 'z) EPS_scheme"
where
  "ep_subscribe t e f s =
     subscribe t (Endpoint_owner e) (Some (ep_weak_guard e s)) (map_option Call_fn f) s"

definition ep_subscribe_guarded ::
  "type_id \<Rightarrow> nat \<Rightarrow> nat \<Rightarrow> 'u Fn option \<Rightarrow> ('v, 'u, 'h, 'z) EPS_scheme
     \<Rightarrow> SubscriptionId \<times> ('v, 'u, 'h, 'z) EPS_scheme"
where
  "ep_subscribe_guarded t e user_guard f s =
     subscribe t (Endpoint_owner e) (Some (ep_weak_guard e s)) (Some (Guarded_fn user_guard f)) s"

definition ep_subscribe_listener ::
  "type_id \<Rightarrow> nat \<Rightarrow> 'u \<Rightarrow> ('v, 'u, 'h, 'z) EPS_scheme \<Rightarrow> SubscriptionId \<times> ('v, 'u, 'h, 'z) EPS_scheme"
where
  "ep_subscribe_listener t e l s =
     subscribe_listener t (Endpoint_owner e) (Some (ep_weak_guard e s)) l s"

definition ep_subscribe_guarded_listener ::
  "type_id \<Rightarrow> nat \<Rightarrow> nat \<Rightarrow> 'u \<Rightarrow> ('v, 'u, 'h, 'z) EPS_scheme \<Rightarrow> SubscriptionId \<times> ('v, 'u, 'h, 'z) EPS_scheme"
where
  "ep_subscribe_guarded_listener t e user_guard l s =
     subscribe t (Endpoint_owner e) (Some (ep_weak_guard e s)) (Some (Guarded_listener user_guard l)) s"

definition ep_unsubscribe_type :: "type_id \<Rightarrow> nat \<Rightarrow> ('v, 'u, 'h, 'z) EPS_scheme \<Rightarrow> ('v, 'u, 'h, 'z) EPS_scheme" where
  "ep_unsubscribe_type t e s = unsubscribe_all_type t (Endpoint_owner e) s"

definition ep_unsubscribe :: "SubscriptionId \<Rightarrow> ('v, 'u, 'h, 'z) EPS_scheme \<Rightarrow> ('v, 'u, 'h, 'z) EPS_scheme" where
  "ep_unsubscribe i s = unsubscribe i s"

definition ep_emit ::
  "('v, 'u, 'h, ('v, 'u, 'h, 'z) EPS_scheme) user_code \<Rightarrow> type_id \<Rightarrow> 'v \<Rightarrow> ('v, 'u, 'h, 'z) EPS_scheme
     \<Rightarrow> exn option \<times> ('v, 'u, 'h, 'z) EPS_scheme"
where
  "ep_emit uc t v s = emit (run_callable uc) (uc_handler uc) (awaiter_ops uc) t v s"

definition ep_post :: "type_id \<Rightarrow> 'v \<Rightarrow> ('v, 'u, 'h, 'z) EPS_scheme \<Rightarrow> ('v, 'u, 'h, 'z) EPS_scheme" where
  "ep_post t v s = bus_post t v s"

section \<open>Awaiting\<close>

text \<open>Only inactive awaiters leave the endpoint's list; the list's reference to them is dropped.\<close>

definition ep_prune_awaiters :: "nat \<Rightarrow> ('v, 'u, 'h, 'z) EPS_scheme \<Rightarrow> ('v, 'u, 'h, 'z) EPS_scheme" where
  "ep_prune_awaiters e s =
     (let awaiters = ep_awaiters (eps_store s e);
          s' = ep_update e (\<lambda>ep. ep\<lparr>ep_awaiters := filter (\<lambda>a. aw_is_active a s) awaiters\<rparr>) s
      in fold aw_release (filter (\<lambda>a. \<not> aw_is_active a s) awaiters) s')"

text \<open>\<open>make_awaiter\<close> returns a handle; the endpoint's list holds a second reference.\<close>

definition make_awaiter ::
  "type_id \<Rightarrow> nat \<Rightarrow> 'u Pred option \<Rightarrow> 'u Fn option \<Rightarrow> 'u AwaitOptions \<Rightarrow> bool \<Rightarrow> ('v, 'u, 'h, 'z) EPS_scheme
     \<Rightarrow> nat \<times> ('v, 'u, 'h, 'z) EPS_scheme"
where
  "make_awaiter t e pred cb options single s =
     (let s = ep_prune_awaiters e s;
          (a, s) = aw_create t pred cb options single (Some (ep_weak_guard e s)) s
      in (a, ep_update e (\<lambda>ep. ep\<lparr>ep_awaiters := ep_awaiters ep @ [a]\<rparr>) (hold_awaiter a s)))"

definition await_once ::
  "type_id \<Rightarrow> nat \<Rightarrow> 'u Pred option \<Rightarrow> 'u Fn option \<Rightarrow> 'u AwaitOptions \<Rightarrow> ('v, 'u, 'h, 'z) EPS_scheme
     \<Rightarrow> nat \<times> ('v, 'u, 'h, 'z) EPS_scheme"
where
  "await_once t e pred cb options s = make_awaiter t e pred cb options True s"

definition await_next ::
  "type_id \<Rightarrow> nat \<Rightarrow> 'u Fn option \<Rightarrow> 'u AwaitOptions \<Rightarrow> ('v, 'u, 'h, 'z) EPS_scheme
     \<Rightarrow> nat \<times> ('v, 'u, 'h, 'z) EPS_scheme"
where
  "await_next t e cb options s = await_once t e (Some Always) cb options s"

definition await_each ::
  "type_id \<Rightarrow> nat \<Rightarrow> 'u Pred option \<Rightarrow> 'u Fn option \<Rightarrow> 'u AwaitOptions \<Rightarrow> ('v, 'u, 'h, 'z) EPS_scheme
     \<Rightarrow> nat \<times> ('v, 'u, 'h, 'z) EPS_scheme"
where
  "await_each t e pred cb options s = make_awaiter t e pred cb options False s"

definition await_every ::
  "type_id \<Rightarrow> nat \<Rightarrow> 'u Fn option \<Rightarrow> 'u AwaitOptions \<Rightarrow> ('v, 'u, 'h, 'z) EPS_scheme
     \<Rightarrow> nat \<times> ('v, 'u, 'h, 'z) EPS_scheme"
where
  "await_every t e cb options s = await_each t e (Some Always) cb options s"

section \<open>Requests\<close>

definition ep_next_request_id :: "('v, 'u, 'h, 'z) EPS_scheme \<Rightarrow> RequestId \<times> ('v, 'u, 'h, 'z) EPS_scheme" where
  "ep_next_request_id s = next_request_id s"

text \<open>The default \<^verbatim>\<open>RequestTraits\<close> and their specialisations are \<open>uc_get_id\<close> and \<open>uc_set_id\<close>.\<close>

definition request ::
  "('v, 'u, 'h, ('v, 'u, 'h, 'z) EPS_scheme) user_code \<Rightarrow> type_id \<Rightarrow> type_id \<Rightarrow> nat \<Rightarrow> 'v \<Rightarrow> 'u Fn option \<Rightarrow>
   'u AwaitOptions \<Rightarrow> ('v, 'u, 'h, 'z) EPS_scheme \<Rightarrow> RequestId \<times> ('v, 'u, 'h, 'z) EPS_scheme"
where
  "request uc treq tres e v cb options s =
     (let (i, s) = ep_next_request_id s;
          v = uc_set_id uc i v;
          (a, s) = await_once tres e (Some (Has_request_id i)) cb options s;
          s = aw_release a s
      in (i, ep_post treq v s))"

text \<open>\<open>request_future\<close> returns the index of the shared state of its future.\<close>

definition request_future ::
  "('v, 'u, 'h, ('v, 'u, 'h, 'z) EPS_scheme) user_code \<Rightarrow> type_id \<Rightarrow> type_id \<Rightarrow> nat \<Rightarrow> 'v \<Rightarrow>
   'u AwaitOptions \<Rightarrow> ('v, 'u, 'h, 'z) EPS_scheme \<Rightarrow> nat \<times> ('v, 'u, 'h, 'z) EPS_scheme"
where
  "request_future uc treq tres e v options s =
     (let p = length (aw_futures s);
          s = s\<lparr>aw_futures := aw_futures s @
                [\<lparr> fut_completed = False, fut_request_id = invalid_request_id, fut_result = None \<rparr>]\<rparr>;
          options = options\<lparr>ao_on_timeout := Some (Future_timeout p (ao_on_timeout options))\<rparr>;
          (i, s) = request uc treq tres e v (Some (Future_result p)) options s
      in (p, s\<lparr>aw_futures := (aw_futures s)[p := (aw_futures s ! p)\<lparr>fut_request_id := i\<rparr>]\<rparr>))"

section \<open>Nodes\<close>

text \<open>A node is a listener, whose virtual \<open>on_event\<close> is the handle \<open>node_listener\<close>, with an endpoint.\<close>

record 'u EventNode =
  node_listener :: 'u
  node_endpoint :: nat

definition EventNode_init :: "'u EventNode \<Rightarrow> ('v, 'u, 'h, 'z) EPS_scheme \<Rightarrow> ('v, 'u, 'h, 'z) EPS_scheme" where
  "EventNode_init n s = EventEndpoint_init (node_endpoint n) s"

definition node_close :: "'u EventNode \<Rightarrow> ('v, 'u, 'h, 'z) EPS_scheme \<Rightarrow> ('v, 'u, 'h, 'z) EPS_scheme" where
  "node_close n s = ep_close (node_endpoint n) s"

text \<open>The node's destructor, and the endpoint member's after it.\<close>

definition node_destroy :: "'u EventNode \<Rightarrow> ('v, 'u, 'h, 'z) EPS_scheme \<Rightarrow> ('v, 'u, 'h, 'z) EPS_scheme" where
  "node_destroy n s = ep_destroy (node_endpoint n) (node_close n s)"

definition node_is_closed :: "'u EventNode \<Rightarrow> ('v, 'u, 'h, 'z) EPS_scheme \<Rightarrow> bool" where
  "node_is_closed n s = ep_is_closed (node_endpoint n) s"

definition node_listen ::
  "type_id \<Rightarrow> 'u EventNode \<Rightarrow> ('v, 'u, 'h, 'z) EPS_scheme \<Rightarrow> SubscriptionId \<times> ('v, 'u, 'h, 'z) EPS_scheme"
where
  "node_listen t n s = ep_subscribe_listener t (node_endpoint n) (node_listener n) s"

definition node_subscribe ::
  "type_id \<Rightarrow> 'u EventNode \<Rightarrow> 'u Fn option \<Rightarrow> ('v, 'u, 'h, 'z) EPS_scheme
     \<Rightarrow> SubscriptionId \<times> ('v, 'u, 'h, 'z) EPS_scheme"
where
  "node_subscribe t n f s = ep_subscribe t (node_endpoint n) f s"

definition node_subscribe_guarded ::
  "type_id \<Rightarrow> 'u EventNode \<Rightarrow> nat \<Rightarrow> 'u Fn option \<Rightarrow> ('v, 'u, 'h, 'z) EPS_scheme
     \<Rightarrow> SubscriptionId \<times> ('v, 'u, 'h, 'z) EPS_scheme"
where
  "node_subscribe_guarded t n user_guard f s = ep_subscribe_guarded t (node_endpoint n) user_guard f s"

definition node_unsubscribe :: "SubscriptionId \<Rightarrow> ('v, 'u, 'h, 'z) EPS_scheme \<Rightarrow> ('v, 'u, 'h, 'z) EPS_scheme" where
  "node_unsubscribe i s = ep_unsubscribe i s"

definition node_unsubscribe_type ::
  "type_id \<Rightarrow> 'u EventNode \<Rightarrow> ('v, 'u, 'h, 'z) EPS_scheme \<Rightarrow> ('v, 'u, 'h, 'z) EPS_scheme"
where
  "node_unsubscribe_type t n s = ep_unsubscribe_type t (node_endpoint n) s"

definition node_unsubscribe_all :: "'u EventNode \<Rightarrow> ('v, 'u, 'h, 'z) EPS_scheme \<Rightarrow> ('v, 'u, 'h, 'z) EPS_scheme" where
  "node_unsubscribe_all n s = ep_unsubscribe_all (node_endpoint n) s"

definition node_emit ::
  "('v, 'u, 'h, ('v, 'u, 'h, 'z) EPS_scheme) user_code \<Rightarrow> type_id \<Rightarrow> 'v \<Rightarrow> ('v, 'u, 'h, 'z) EPS_scheme
     \<Rightarrow> exn option \<times> ('v, 'u, 'h, 'z) EPS_scheme"
where
  "node_emit uc t v s = ep_emit uc t v s"

definition node_post :: "type_id \<Rightarrow> 'v \<Rightarrow> ('v, 'u, 'h, 'z) EPS_scheme \<Rightarrow> ('v, 'u, 'h, 'z) EPS_scheme" where
  "node_post t v s = ep_post t v s"

definition node_request ::
  "('v, 'u, 'h, ('v, 'u, 'h, 'z) EPS_scheme) user_code \<Rightarrow> type_id \<Rightarrow> type_id \<Rightarrow> 'u EventNode \<Rightarrow> 'v \<Rightarrow> 'u Fn option \<Rightarrow>
   'u AwaitOptions \<Rightarrow> ('v, 'u, 'h, 'z) EPS_scheme \<Rightarrow> RequestId \<times> ('v, 'u, 'h, 'z) EPS_scheme"
where
  "node_request uc treq tres n v cb options s = request uc treq tres (node_endpoint n) v cb options s"

definition node_request_future ::
  "('v, 'u, 'h, ('v, 'u, 'h, 'z) EPS_scheme) user_code \<Rightarrow> type_id \<Rightarrow> type_id \<Rightarrow> 'u EventNode \<Rightarrow> 'v \<Rightarrow>
   'u AwaitOptions \<Rightarrow> ('v, 'u, 'h, 'z) EPS_scheme \<Rightarrow> nat \<times> ('v, 'u, 'h, 'z) EPS_scheme"
where
  "node_request_future uc treq tres n v options s =
     request_future uc treq tres (node_endpoint n) v options s"

definition node_next_request_id :: "('v, 'u, 'h, 'z) EPS_scheme \<Rightarrow> RequestId \<times> ('v, 'u, 'h, 'z) EPS_scheme" where
  "node_next_request_id s = ep_next_request_id s"

end
