(* ===== verification/Endpoint_Theorems.thy ===== *)
theory Endpoint_Theorems
  imports Endpoint Awaiter_Theorems
begin

text \<open>
  The correctness of endpoints: closing one silences everything it registered, even inside a dispatch
  that is under way, and requests are matched with their results by id.
\<close>

section \<open>Fields an operation leaves alone\<close>

lemma eps_store_frame [hub_frame]:
  "eps_store (aw_cancel a s) = eps_store s" "eps_store (aw_release a s) = eps_store s"
  "eps_store (unsubscribe_all owner s) = eps_store s" "eps_store (unlock_object g s) = eps_store s"
  by (simp_all add: aw_release_def aw_cancel_def aw_basic_defs unsubscribe_def unsubscribe_all_def Let_def
      split: option.split)

lemma eps_store_fold [hub_frame]:
  "eps_store (fold aw_cancel as s) = eps_store s" "eps_store (fold aw_release as s) = eps_store s"
  by (induction as arbitrary: s) (simp_all add: hub_frame)

lemma ep_update_frame [hub_frame]:
  "eps_store (ep_update e f s) = (eps_store s)(e := f (eps_store s e))"
  "aw_store (ep_update e f s) = aw_store s" "w_strong (ep_update e f s) = w_strong s"
  "bus_callbacks (ep_update e f s) = bus_callbacks s" "aw_next_object (ep_update e f s) = aw_next_object s"
  "aw_futures (ep_update e f s) = aw_futures s" "bus_queue (ep_update e f s) = bus_queue s"
  "aw_tokens (ep_update e f s) = aw_tokens s" "w_clock (ep_update e f s) = w_clock s"
  "w_reads (ep_update e f s) = w_reads s" "bus_next_subscription (ep_update e f s) = bus_next_subscription s"
  "bus_request_ids (ep_update e f s) = bus_request_ids s"
  "records_of t (ep_update e f s) = records_of t s"
  by (simp_all add: ep_update_def records_of_def)

lemma aw_is_cancelled_frame [simp]:
  "aw_is_cancelled a (ep_update e f s) = aw_is_cancelled a s"
  "aw_is_cancelled a (unsubscribe_all owner s) = aw_is_cancelled a s"
  by (simp_all add: aw_is_cancelled_def hub_frame unsubscribe_all_def)

section \<open>Closing\<close>

lemma w_strong_cancel: "a \<noteq> g \<or> aw_store s a = None \<Longrightarrow> w_strong (aw_cancel a s) g = w_strong s g"
  by (auto simp: aw_cancel_def aw_basic_defs unsubscribe_def Let_def split: option.split)

lemma w_strong_release: "a \<noteq> g \<Longrightarrow> w_strong (aw_release a s) g = w_strong s g"
  by (simp add: aw_release_def w_strong_cancel unlock_object_def Let_def)

lemma w_strong_fold:
  assumes "g \<notin> set as"
  shows "w_strong (fold aw_cancel as s) g = w_strong s g" "w_strong (fold aw_release as s) g = w_strong s g"
  using assms by (induction as arbitrary: s) (auto simp: w_strong_cancel w_strong_release)

lemma aw_store_cancel_None: "(aw_store (aw_cancel b s) a = None) = (aw_store s a = None)"
  by (auto simp: aw_store_cancel split: option.split)

lemma cancelled_fold:
  "aw_is_cancelled a s \<Longrightarrow> aw_is_cancelled a (fold aw_cancel as s)"
  "aw_is_cancelled a s \<Longrightarrow> aw_is_cancelled a (fold aw_release as s)"
  by (induction as arbitrary: s) simp_all

lemma fold_cancel_cancelled:
  "a \<in> set as \<Longrightarrow> aw_store s a \<noteq> None \<Longrightarrow> aw_is_cancelled a (fold aw_cancel as s)"
proof (induction as arbitrary: s)
  case (Cons b as)
  show ?case
  proof (cases "a = b")
    case True
    then show ?thesis using Cons.prems(2) aw_is_cancelled_cancel cancelled_fold(1) by fastforce
  next
    case False
    have "aw_store (aw_cancel b s) a \<noteq> None" using Cons.prems(2) by (simp only: aw_store_cancel_None not_False_eq_True)
    then show ?thesis using Cons.IH Cons.prems(1) False by simp
  qed
qed simp

lemma unsubscribe_all_owner: "r \<in> set (records_of t (unsubscribe_all owner s)) \<Longrightarrow> cb_owner r \<noteq> owner"
  by (cases "bus_callbacks s t")
    (auto simp: records_of_def unsubscribe_all_def erase_records_def Let_def split: if_splits)

lemma unsubscribe_all_idem: "unsubscribe_all owner (unsubscribe_all owner s) = unsubscribe_all owner s"
proof -
  have "Option.bind (Option.bind m (erase_records P)) (erase_records P) = Option.bind m (erase_records P)"
    for m and P :: "'b CallbackRecord \<Rightarrow> bool"
    by (cases m) (simp_all add: erase_records_def Let_def)
  then show ?thesis by (simp add: unsubscribe_all_def)
qed

lemma ep_update_triv: "f (eps_store s e) = eps_store s e \<Longrightarrow> ep_update e f s = s"
  by (simp add: ep_update_def)

lemma cancel_awaiters_none:
  assumes "ep_awaiters (eps_store s e) = []"
  shows "cancel_awaiters e s = s"
proof -
  have "eps_store s e\<lparr>ep_awaiters := []\<rparr> = eps_store s e" using assms by (cases "eps_store s e") simp
  then have "ep_update e (\<lambda>ep. ep\<lparr>ep_awaiters := []\<rparr>) s = s" by (rule ep_update_triv)
  then show ?thesis using assms by (simp add: cancel_awaiters_def)
qed

text \<open>
  A live endpoint owns its guard object, and its awaiters are awaiters. The other owners of the guard
  are the locks of callbacks under way; in \<open>ep_open\<close> there are none.
\<close>

definition ep_live :: "nat \<Rightarrow> nat \<Rightarrow> ('v, 'u, 'h, 'z) EPS_scheme \<Rightarrow> bool" where
  "ep_live e g s \<longleftrightarrow>
     \<not> ep_closed (eps_store s e) \<and> ep_guard (eps_store s e) = Some g \<and>
     aw_store s g = None \<and> (\<forall>a \<in> set (ep_awaiters (eps_store s e)). aw_store s a \<noteq> None)"

definition ep_open :: "nat \<Rightarrow> nat \<Rightarrow> ('v, 'u, 'h, 'z) EPS_scheme \<Rightarrow> bool" where
  "ep_open e g s \<longleftrightarrow> ep_live e g s \<and> w_strong s g = 1"

lemma ep_close_drops_owner:
  assumes "ep_live e g s"
  shows "w_strong (ep_close e s) g = w_strong s g - 1"
proof -
  have "g \<notin> set (ep_awaiters (eps_store s e))" using assms by (auto simp: ep_live_def)
  then show ?thesis
    using assms
    by (simp add: ep_live_def ep_close_def reset_guard_def cancel_awaiters_def ep_unsubscribe_all_def
        unsubscribe_all_def hub_frame w_strong_fold unlock_object_def Let_def)
qed

text \<open>
  Closing an endpoint expires its guard, cancels every awaiter created through it and leaves no
  subscription of it on the bus; closing it again changes nothing.
\<close>

theorem endpoint_close:
  assumes "ep_open e g s"
  shows "w_strong (ep_close e s) g = 0 \<and> ep_is_closed e (ep_close e s) \<and>
    (\<forall>t. Endpoint_owner e \<notin> cb_owner ` set (records_of t (ep_close e s))) \<and>
    (\<forall>a \<in> set (ep_awaiters (eps_store s e)). aw_is_cancelled a (ep_close e s)) \<and>
    ep_close e (ep_close e s) = ep_close e s"
proof -
  let ?s' = "ep_close e s"
  have c: "ep_closed (eps_store ?s' e)" "ep_awaiters (eps_store ?s' e) = []"
    using assms
    by (simp_all add: ep_open_def ep_live_def ep_close_def reset_guard_def cancel_awaiters_def ep_unsubscribe_all_def hub_frame Let_def)
  have un: "?s' = unsubscribe_all (Endpoint_owner e)
      (cancel_awaiters e (reset_guard e (ep_update e (\<lambda>ep. ep\<lparr>ep_closed := True\<rparr>) s)))"
    using assms by (simp add: ep_open_def ep_live_def ep_close_def ep_unsubscribe_all_def Let_def)
  have "ep_close e ?s' = unsubscribe_all (Endpoint_owner e) ?s'"
    using c by (simp add: ep_close_def [of e ?s'] cancel_awaiters_none ep_unsubscribe_all_def Let_def)
  also have "\<dots> = ?s'" unfolding un by (rule unsubscribe_all_idem)
  finally have idem: "ep_close e ?s' = ?s'" .
  have "aw_is_cancelled a ?s'" if "a \<in> set (ep_awaiters (eps_store s e))" for a
    using that assms
    by (simp add: un cancel_awaiters_def reset_guard_def ep_open_def ep_live_def hub_frame Let_def
        cancelled_fold(2) fold_cancel_cancelled)
  moreover have "Endpoint_owner e \<notin> cb_owner ` set (records_of t ?s')" for t
    unfolding un using unsubscribe_all_owner by fastforce
  moreover have "w_strong ?s' g = 0"
    using assms ep_close_drops_owner [of e g s] by (simp add: ep_open_def)
  ultimately show ?thesis using c(1) idem by (simp add: ep_is_closed_def)
qed


section \<open>The library's callables keep expired objects expired\<close>

definition user_expired_stays :: "nat \<Rightarrow> ('v, 'u, 'h, ('v, 'u, 'h, 'z) AW_scheme) user_code \<Rightarrow> bool" where
  "user_expired_stays g uc \<longleftrightarrow>
     (\<forall>s. w_strong s g = 0 \<longrightarrow>
        (\<forall>u v. w_strong (fst (uc_call uc u v s)) g = 0) \<and> (\<forall>u v. w_strong (fst (uc_listener uc u v s)) g = 0) \<and>
        (\<forall>u v. w_strong (snd (uc_pred uc u v s)) g = 0) \<and> (\<forall>h x. w_strong (fst (uc_handler uc h x s)) g = 0))"

lemma w_strong_unlock_zero: "w_strong s g = 0 \<Longrightarrow> w_strong (unlock_object a s) g = 0"
  by (auto simp: unlock_object_def)

lemma w_strong_cancel_zero: "w_strong s g = 0 \<Longrightarrow> w_strong (aw_cancel a s) g = 0"
  by (auto simp: aw_cancel_def aw_basic_defs unsubscribe_def Let_def split: option.split)

lemma w_strong_release_zero: "w_strong s g = 0 \<Longrightarrow> w_strong (aw_release a s) g = 0"
  by (simp add: aw_release_def w_strong_cancel_zero w_strong_unlock_zero Let_def)

lemma call_fn_expired: "user_expired_stays g uc \<Longrightarrow> w_strong s g = 0 \<Longrightarrow> w_strong (fst (call_fn uc f v s)) g = 0"
  by (cases f) (simp_all add: call_fn_def complete_future_def user_expired_stays_def Let_def)

lemma call_pred_expired: "user_expired_stays g uc \<Longrightarrow> w_strong s g = 0 \<Longrightarrow> w_strong (snd (call_pred uc p v s)) g = 0"
  by (cases p) (simp_all add: call_pred_def user_expired_stays_def)

lemma aw_match_expired:
  assumes "user_expired_stays g uc" "w_strong s g = 0"
  shows "w_strong (fst (aw_match uc a w v s)) g = 0"
proof -
  obtain m s1 where m: "(case aw_predicate w of None \<Rightarrow> (Inr True, s) | Some p \<Rightarrow> call_pred uc p v s) = (m, s1)"
    by fastforce
  then have 1: "w_strong s1 g = 0"
    using assms call_pred_expired [OF assms] by (cases "aw_predicate w") (auto, metis snd_conv)
  define s2 where "s2 = (if aw_single_shot w then aw_cancel a s1 else s1)"
  have 2: "w_strong s2 g = 0" using 1 by (simp add: s2_def w_strong_cancel_zero)
  show ?thesis
    using 1 2 call_fn_expired [OF assms(1) 2]
    by (cases "aw_single_shot w")
      (auto simp: aw_match_def m s2_def Let_def split: sum.split bool.split option.split)
qed

lemma handle_event_expired:
  assumes "user_expired_stays g uc" "w_strong s g = 0" "a \<noteq> g"
  shows "w_strong (fst (handle_event uc a v s)) g = 0"
proof -
  have "w_strong (hold_awaiter a s) g = 0" using assms(2,3) by (simp add: hold_awaiter_def)
  note aw_match_expired [OF assms(1) this]
  then show ?thesis
    using assms
    by (auto simp: handle_event_def w_strong_cancel_zero w_strong_release_zero split_def split: option.split)
qed

lemma lock_object_expired: "lock_object a s = Some s' \<Longrightarrow> w_strong s g = 0 \<Longrightarrow> a \<noteq> g \<and> w_strong s' g = 0"
  by (auto simp: lock_object_def split: if_splits)

lemma run_callable_expired:
  assumes "user_expired_stays g uc" "w_strong s g = 0"
  shows "w_strong (fst (run_callable uc c v s)) g = 0"
proof (cases c)
  case (Guarded_fn h f)
  show ?thesis
  proof (cases "lock_object h s")
    case (Some s1)
    have 1: "w_strong s1 g = 0" using lock_object_expired [OF Some assms(2)] by simp
    then show ?thesis
      using Guarded_fn Some call_fn_expired [OF assms(1) 1]
      by (auto simp: run_callable_def split_def w_strong_unlock_zero split: option.split)
  qed (simp add: Guarded_fn run_callable_def assms(2))
next
  case (Guarded_listener h l)
  show ?thesis
  proof (cases "lock_object h s")
    case (Some s1)
    have 1: "w_strong s1 g = 0" using lock_object_expired [OF Some assms(2)] by simp
    then show ?thesis
      using Guarded_listener Some assms(1)
      by (simp add: run_callable_def split_def w_strong_unlock_zero user_expired_stays_def)
  qed (simp add: Guarded_listener run_callable_def assms(2))
next
  case (Awaiter_fn a)
  show ?thesis
  proof (cases "lock_object a s")
    case (Some s1)
    have "a \<noteq> g" and 1: "w_strong s1 g = 0" using lock_object_expired [OF Some assms(2)] by simp_all
    then show ?thesis
      using Awaiter_fn Some handle_event_expired [OF assms(1) 1]
      by (simp add: run_callable_def split_def w_strong_release_zero)
  qed (simp add: Awaiter_fn run_callable_def assms(2))
qed (use assms call_fn_expired in \<open>auto simp: run_callable_def user_expired_stays_def\<close>)

lemma library_expired_stays:
  "user_expired_stays g uc \<Longrightarrow> expired_stays g (run_callable uc) (uc_handler uc)"
  using run_callable_expired by (auto simp: expired_stays_def user_expired_stays_def)

lemma leave_guards: "cb_guard r = Some g \<Longrightarrow> w_strong ((leave_guard r ^^ k) t) g = w_strong t g - k"
  by (induction k) (simp_all add: leave_guard_def unlock_object_def)

text \<open>
  C21: closing an endpoint silences it as soon as its callbacks under way have returned. Let \<open>k\<close>
  callbacks behind the endpoint's guard be under way when it is closed, in enclosing dispatches or on
  other threads, and let \<open>t\<close> be any later state in which they alone hold the guard. While \<open>k\<close> is not zero
  their locks keep the guard alive, and a copied record of the endpoint still passes the guard check
  at \<open>t\<close>. Once the \<open>k\<close> locks are released, and at once if \<open>k\<close> is zero, no callback of the endpoint starts
  any more, not even from the copy of the records that a dispatch under way took before the close:
  the loop skips every record with the endpoint's guard. User code is arbitrary as long as it does not
  revive the expired guard.
\<close>

theorem closed_endpoint_silent:
  assumes "ep_live e g s" "w_strong s g = Suc k" "g \<noteq> null_object" "user_expired_stays g uc"
    and "cb_guard r = Some g" "w_strong t g = w_strong (ep_close e s) g"
    and "dispatch_loop (run_callable uc) (uc_handler uc) v rs ((leave_guard r ^^ k) t) = (started, x, s')"
  shows "(enter_guard r t = None \<longleftrightarrow> k = 0) \<and>
    set started \<subseteq> cb_id ` {r \<in> set rs. cb_guard r \<noteq> Some g}"
proof -
  have t: "w_strong t g = k" using assms(2,6) ep_close_drops_owner [OF assms(1)] by simp
  then have "w_strong ((leave_guard r ^^ k) t) g = 0" by (simp add: leave_guards [OF assms(5)])
  from dispatch_loop_expired [OF library_expired_stays [OF assms(4)] assms(7) this]
  show ?thesis using t assms(3,5) by (auto simp: enter_guard_def lock_object_def)
qed

section \<open>Requests\<close>

lemma prune_frame [hub_frame]:
  "bus_queue (ep_prune_awaiters e s) = bus_queue s" "aw_next_object (ep_prune_awaiters e s) = aw_next_object s"
  "aw_futures (ep_prune_awaiters e s) = aw_futures s" "aw_tokens (ep_prune_awaiters e s) = aw_tokens s"
  "bus_next_subscription (ep_prune_awaiters e s) = bus_next_subscription s"
  "w_reads (ep_prune_awaiters e s) = w_reads s" "w_clock (ep_prune_awaiters e s) = w_clock s"
  "bus_request_ids (ep_prune_awaiters e s) = bus_request_ids s"
proof -
  have "bus_queue (fold aw_release as s) = bus_queue s \<and> aw_next_object (fold aw_release as s) = aw_next_object s \<and>
     aw_futures (fold aw_release as s) = aw_futures s \<and> aw_tokens (fold aw_release as s) = aw_tokens s \<and>
     bus_next_subscription (fold aw_release as s) = bus_next_subscription s \<and>
     w_reads (fold aw_release as s) = w_reads s \<and> w_clock (fold aw_release as s) = w_clock s \<and>
     bus_request_ids (fold aw_release as s) = bus_request_ids s"
    for as and s :: "('a, 'b, 'c, 'd) EPS_scheme"
    by (induction as arbitrary: s) (simp_all add: hub_frame aw_release_def unlock_object_def Let_def)
  then show
    "bus_queue (ep_prune_awaiters e s) = bus_queue s" "aw_next_object (ep_prune_awaiters e s) = aw_next_object s"
    "aw_futures (ep_prune_awaiters e s) = aw_futures s" "aw_tokens (ep_prune_awaiters e s) = aw_tokens s"
    "bus_next_subscription (ep_prune_awaiters e s) = bus_next_subscription s"
    "w_reads (ep_prune_awaiters e s) = w_reads s" "w_clock (ep_prune_awaiters e s) = w_clock s"
    "bus_request_ids (ep_prune_awaiters e s) = bus_request_ids s"
    by (simp_all add: ep_prune_awaiters_def hub_frame Let_def)
qed


lemma aw_create_frame [hub_frame]:
  "bus_queue (snd (aw_create t pred cb options single guard s)) = bus_queue s"
  "aw_futures (snd (aw_create t pred cb options single guard s)) = aw_futures s"
  "aw_tokens (snd (aw_create t pred cb options single guard s)) = aw_tokens s"
  "w_clock (snd (aw_create t pred cb options single guard s)) = w_clock s"
  "bus_request_ids (snd (aw_create t pred cb options single guard s)) = bus_request_ids s"
  by (simp_all add: aw_create_def EventAwaiter_init_def subscribe_internal_def register_awaiter_def
      subscribe_eq push_record_def aw_basic_defs Let_def)

lemma bus_post_frame [hub_frame]:
  "w_strong (bus_post t v s) = w_strong s" "aw_store (bus_post t v s) = aw_store s"
  "aw_futures (bus_post t v s) = aw_futures s" "aw_tokens (bus_post t v s) = aw_tokens s"
  "bus_queue (bus_post t v s) = bus_queue s @ [\<lparr> qe_type = t, qe_payload = v \<rparr>]"
  "records_of u (bus_post t v s) = records_of u s" "w_clock (bus_post t v s) = w_clock s"
  "w_reads (bus_post t v s) = w_reads s" "bus_request_ids (bus_post t v s) = bus_request_ids s"
  by (simp_all add: bus_post_def bus_enqueue_def bus_notify_work_available_def records_of_def split: option.split)

text \<open>What \<open>request\<close> leaves behind: a single-shot awaiter for the drawn id, and the queued event.\<close>

definition request_awaiter ::
  "RequestId \<Rightarrow> 'u Fn option \<Rightarrow> 'u AwaitOptions \<Rightarrow> nat \<Rightarrow> ('v, 'u, 'h, 'z) AW_scheme \<Rightarrow> 'u EventAwaiter"
where
  "request_awaiter i cb options g s =
     \<lparr> aw_subscription_id = bus_next_subscription s, aw_predicate = Some (Has_request_id i), aw_callback = cb,
       aw_options = options, aw_single_shot = True, aw_guard = Some g, aw_deadline = created_deadline options s,
       aw_cancelled = False, aw_retain_self = True \<rparr>"

text \<open>The next \<open>k\<close> ids that the bus hands out.\<close>

fun bus_draws :: "nat \<Rightarrow> ('v, 'f, 'h, 'z) BUS_scheme \<Rightarrow> RequestId list" where
  "bus_draws 0 s = []"
| "bus_draws (Suc k) s = (case next_request_id s of (i, s) \<Rightarrow> i # bus_draws k s)"

lemma bus_draws_eq: "bus_draws k s = draw_ids RequestIdGenerator_next k (bus_request_ids s)"
  by (induction k arbitrary: s) (simp_all add: next_request_id_def case_prod_beta Let_def)

lemma request_eq:
  assumes "request uc treq tres e v cb options s = (i, s')"
  shows "i = fst (RequestIdGenerator_next (bus_request_ids s))"
    "bus_request_ids s' = snd (RequestIdGenerator_next (bus_request_ids s))"
    "\<exists>g. aw_store s' (aw_next_object s) = Some (request_awaiter i cb options g s) \<and>
       records_of tres s' \<noteq> [] \<and>
       last (records_of tres s') = \<lparr> cb_id = bus_next_subscription s, cb_owner = Awaiter_owner (aw_next_object s),
          cb_guard = Some g, cb_callback = Some (Some (Awaiter_fn (aw_next_object s))) \<rparr>"
    "w_strong s' (aw_next_object s) = 2"
    "bus_queue s' = bus_queue s @ [\<lparr> qe_type = treq, qe_payload = uc_set_id uc i v \<rparr>]"
    "aw_futures s' = aw_futures s" "aw_tokens s' = aw_tokens s"
proof -
  obtain s0 where n: "next_request_id s = (i, s0)"
    using assms by (cases "next_request_id s") (auto simp: request_def ep_next_request_id_def Let_def split: prod.splits)
  then have i: "i = fst (RequestIdGenerator_next (bus_request_ids s))"
    and s0: "s0 = s\<lparr>bus_request_ids := snd (RequestIdGenerator_next (bus_request_ids s))\<rparr>"
    by (simp_all add: next_request_id_def split_def Let_def)
  define s1 where "s1 = ep_prune_awaiters e s0"
  define g where "g = ep_weak_guard e s1"
  obtain a s2 where c: "aw_create tres (Some (Has_request_id i)) cb options True (Some g) s1 = (a, s2)" by fastforce
  define s3 where "s3 = ep_update e (\<lambda>ep. ep\<lparr>ep_awaiters := ep_awaiters ep @ [a]\<rparr>) (hold_awaiter a s2)"
  have s': "s' = bus_post treq (uc_set_id uc i v) (aw_release a s3)"
    using assms n c
    by (simp add: request_def ep_next_request_id_def await_once_def make_awaiter_def ep_post_def Let_def
        s1_def [symmetric] g_def [symmetric] s3_def [symmetric])
  note e = aw_create_eq [OF c]
  have a: "a = aw_next_object s" and "created_deadline options s1 = created_deadline options s"
    "bus_next_subscription s1 = bus_next_subscription s"
    using e(1) by (simp_all add: s1_def s0 hub_frame created_deadline_def)
  moreover have "w_strong s3 a = 3" using e(3) by (simp add: s3_def hub_frame hold_awaiter_def)
  then have r: "aw_release a s3 = unlock_object a s3" by (simp add: aw_release_def unlock_object_def Let_def)
  ultimately have st: "aw_store (aw_release a s3) a = Some (request_awaiter i cb options g s)"
    using e(2) by (simp add: s3_def hub_frame request_awaiter_def)
  show "i = fst (RequestIdGenerator_next (bus_request_ids s))" by (rule i)
  show "w_strong s' (aw_next_object s) = 2"
    using r a \<open>w_strong s3 a = 3\<close> by (simp add: s' hub_frame unlock_object_def)
  have "records_of tres s' = records_of tres s3" by (simp add: s' r hub_frame)
  also have "\<dots> = records_of tres s2" by (simp add: s3_def hub_frame)
  finally have "records_of tres s' = records_of tres s1 @ [\<lparr> cb_id = bus_next_subscription s,
      cb_owner = Awaiter_owner a, cb_guard = Some g, cb_callback = Some (Some (Awaiter_fn a)) \<rparr>]"
    using e(5) \<open>bus_next_subscription s1 = _\<close> by (simp add: records_of_def)
  then show "\<exists>g. aw_store s' (aw_next_object s) = Some (request_awaiter i cb options g s) \<and>
       records_of tres s' \<noteq> [] \<and>
       last (records_of tres s') = \<lparr> cb_id = bus_next_subscription s, cb_owner = Awaiter_owner (aw_next_object s),
          cb_guard = Some g, cb_callback = Some (Some (Awaiter_fn (aw_next_object s))) \<rparr>"
    using st by (intro exI [of _ g]) (simp add: s' hub_frame a)
  have "s2 = snd (aw_create tres (Some (Has_request_id i)) cb options True (Some g) s1)" using c by simp
  then show "bus_queue s' = bus_queue s @ [\<lparr> qe_type = treq, qe_payload = uc_set_id uc i v \<rparr>]"
    "aw_futures s' = aw_futures s" "aw_tokens s' = aw_tokens s"
    "bus_request_ids s' = snd (RequestIdGenerator_next (bus_request_ids s))"
    by (simp_all add: s' s3_def s1_def s0 hub_frame hold_awaiter_def)
qed

text \<open>The id of a request is the one its generator draws, and none of the next \<open>2 ^ 64 - 2\<close>.\<close>

lemma request_fresh:
  assumes "request uc treq tres e v cb options s = (i, s')"
  shows "i \<noteq> invalid_request_id" "k < 2 ^ 64 - 1 \<Longrightarrow> i \<notin> set (bus_draws k s')"
  using request_ids.fst_gen_nonzero [of "bus_request_ids s"]
    request_ids.draw_ids_fresh [of k "bus_request_ids s"]
  by (simp_all add: request_eq(1,2) [OF assms] invalid_request_id_def bus_draws_eq)

lemma handle_request_awaiter:
  assumes "aw_store s' a = Some (request_awaiter i cb options g s)" "w_strong s' a \<noteq> 0"
    "\<not> is_cancelled (ao_token options) (aw_tokens s')"
  shows "handle_event uc a r s' =
     (if uc_get_id uc r = i
      then case cb of None \<Rightarrow> (aw_release a (aw_cancel a (hold_awaiter a s')), None)
           | Some f \<Rightarrow> (aw_release a (fst (call_fn uc f r (aw_cancel a (hold_awaiter a s')))),
                snd (call_fn uc f r (aw_cancel a (hold_awaiter a s'))))
      else (s', None))"
  using assms
  by (auto simp: handle_event_def aw_match_def call_pred_def request_awaiter_def token_cancelled_def
      aw_release_hold split_def split: option.split)

text \<open>
  C23: a request posts the event with a fresh id, which is not the invalid one and which none of the
  next \<open>2 ^ 64 - 2\<close> ids that the bus hands out repeats, and leaves an awaiter for that id subscribed behind
  the endpoint's guard, although its handle was dropped. A result with another
  id leaves the state as it is; the first result with the id cancels the awaiter and then runs
  the callback, once.
\<close>

theorem request_correlation:
  assumes req: "request uc treq tres e v cb options s = (i, s')"
    and tok: "\<not> is_cancelled (ao_token options) (aw_tokens s)" and uc: "keeps_cancelled a uc"
    and a: "a = aw_next_object s"
  shows "i \<noteq> invalid_request_id \<and> (\<forall>k < 2 ^ 64 - 1. i \<notin> set (bus_draws k s')) \<and>
    bus_queue s' = bus_queue s @ [\<lparr> qe_type = treq, qe_payload = uc_set_id uc i v \<rparr>] \<and>
    aw_is_active a s' \<and> cb_callback (last (records_of tres s')) = Some (Some (Awaiter_fn a)) \<and>
    (let (s2, x) = handle_event uc a r s'; s1 = aw_cancel a (hold_awaiter a s') in
     if uc_get_id uc r = i
     then aw_is_cancelled a s2 \<and> (s2, x) = (case cb of None \<Rightarrow> (aw_release a s1, None)
            | Some f \<Rightarrow> (aw_release a (fst (call_fn uc f r s1)), snd (call_fn uc f r s1)))
     else (s2, x) = (s', None))"
proof -
  note q = request_eq [OF req]
  obtain g where w: "aw_store s' a = Some (request_awaiter i cb options g s)"
    and l: "cb_callback (last (records_of tres s')) = Some (Some (Awaiter_fn a))" using q(3) a by auto
  have h: "w_strong s' a \<noteq> 0" "\<not> is_cancelled (ao_token options) (aw_tokens s')" using tok q(4,7) a by simp_all
  have c: "aw_is_cancelled a (aw_cancel a (hold_awaiter a s'))" using w by (intro aw_is_cancelled_cancel) simp
  have "aw_is_active a s'" using w by (simp add: aw_is_active_def request_awaiter_def)
  then show ?thesis
    using request_fresh [OF req] q(5) l c keeps_cancelled_call [OF uc c] handle_request_awaiter [OF w h, of uc r]
    by (auto simp: Let_def split: option.split if_splits)
qed

lemma aw_futures_frame [hub_frame]:
  "aw_futures (aw_put a w s) = aw_futures s" "aw_futures (hold_awaiter a s) = aw_futures s"
  by (simp_all add: aw_basic_defs)

lemma complete_future_first:
  assumes "p < length (aw_futures s)" "\<not> fut_completed (aw_futures s ! p)"
  shows "fut_result (aw_futures (complete_future p h s) ! p) = Some (h (aw_futures s ! p))"
  using assms by (simp add: hub_frame complete_future_def Let_def)

lemma completed_cancelled:
  "aw_store s a \<noteq> None \<Longrightarrow> aw_is_cancelled a (aw_release a (complete_future p h (aw_cancel a s)))"
  by (simp add: aw_is_cancelled_cancel)

text \<open>
  C24: the future of a request is completed at most once, by what comes first: a result with the
  request's id makes it hold that result, a poll past the deadline makes it hold the time-out error with
  that id, and either way the awaiter is cancelled, so that neither can complete it again; until
  then it holds nothing.
\<close>

theorem request_future_completed:
  assumes req: "request_future uc treq tres e v options s = (p, s')"
    and tok: "\<not> is_cancelled (ao_token options) (aw_tokens s)" and user: "ao_on_timeout options = None"
    and a: "a = aw_next_object s"
  shows "\<exists>i. i \<noteq> invalid_request_id \<and> fut_result (aw_futures s' ! p) = None \<and>
    bus_queue s' = bus_queue s @ [\<lparr> qe_type = treq, qe_payload = uc_set_id uc i v \<rparr>] \<and>
    (let s1 = fst (handle_event uc a r s') in
     if uc_get_id uc r = i
     then fut_result (aw_futures s1 ! p) = Some (Value r) \<and> aw_is_cancelled a s1 else s1 = s') \<and>
    (let s2 = poll_timeout uc a s' in
     if 0 < ao_timeout options \<and> w_clock s (w_reads s) + ao_timeout options \<le> w_clock s' (w_reads s')
     then fut_result (aw_futures s2 ! p) = Some (Failed (Request_timeout i)) \<and> aw_is_cancelled a s2
     else fut_result (aw_futures s2 ! p) = None \<and> aw_is_active a s2)"
proof -
  define s0 where "s0 = s\<lparr>aw_futures := aw_futures s @
      [\<lparr> fut_completed = False, fut_request_id = invalid_request_id, fut_result = None \<rparr>]\<rparr>"
  define opts where "opts = options\<lparr>ao_on_timeout := Some (Future_timeout p None)\<rparr>"
  have p: "p = length (aw_futures s)" using req by (auto simp: request_future_def Let_def split: prod.splits)
  obtain i s1 where q: "request uc treq tres e v (Some (Future_result p)) opts s0 = (i, s1)" by fastforce
  have s': "s' = s1\<lparr>aw_futures := (aw_futures s1)[p := (aw_futures s1 ! p)\<lparr>fut_request_id := i\<rparr>]\<rparr>"
    using req q user by (simp add: request_future_def Let_def s0_def opts_def p)
  note e = request_eq [OF q]
  have f: "aw_futures s' = aw_futures s @ [\<lparr> fut_completed = False, fut_request_id = i, fut_result = None \<rparr>]"
    using e(6) by (simp add: s' s0_def p)
  obtain g where w: "aw_store s' a = Some (request_awaiter i (Some (Future_result p)) opts g s0)"
    using e(3) a by (auto simp: s' s0_def)
  have h: "w_strong s' a \<noteq> 0" "\<not> is_cancelled (ao_token opts) (aw_tokens s')"
    using e(4,7) tok a by (simp_all add: s' s0_def opts_def)
  have event: "let s1 = fst (handle_event uc a r s') in
     if uc_get_id uc r = i
     then fut_result (aw_futures s1 ! p) = Some (Value r) \<and> aw_is_cancelled a s1 else s1 = s'"
    using handle_request_awaiter [OF w h, of uc r] f w
    by (simp add: completed_cancelled call_fn_def hub_frame complete_future_first p hold_awaiter_def Let_def)
  have poll: "let s2 = poll_timeout uc a s' in
     if 0 < ao_timeout options \<and> w_clock s (w_reads s) + ao_timeout options \<le> w_clock s' (w_reads s')
     then fut_result (aw_futures s2 ! p) = Some (Failed (Request_timeout i)) \<and> aw_is_cancelled a s2
     else fut_result (aw_futures s2 ! p) = None \<and> aw_is_active a s2"
    using w h f
    by (auto simp: completed_cancelled complete_future_first poll_timeout_def request_awaiter_def token_cancelled_def created_deadline_def clock_now_def
        aw_expire_def hub_frame p hold_awaiter_def Let_def s0_def opts_def aw_is_active_def)
  show ?thesis
    using request_fresh(1) [OF q] e(5) event poll f p by (intro exI [of _ i]) (simp add: s' s0_def)
qed

end
