(* ===== verification/Endpoint_Examples.thy ===== *)
theory Endpoint_Examples
  imports Endpoint_Theorems
begin

text \<open>
  A concrete bus with one endpoint at address 7, events that are numbers, a clock that advances by ten
  ticks with every reading, and user code without effects: the hypotheses of the theorems about
  awaiters and endpoints hold there.
\<close>

definition example_state :: "(nat, nat, nat) EPS" where
  "example_state = EventEndpoint_init 7
     \<lparr> w_strong = (\<lambda>_. 0), w_clock = (\<lambda>n. 10 * int n), w_reads = 0, bus_callbacks = Map.empty, bus_queue = [],
       bus_awaiters = [], bus_handler = None, bus_next_subscription = 1, bus_request_ids = 1, bus_notifier = None,
       bus_notified = [], aw_store = Map.empty, aw_next_object = 5, aw_tokens = [], aw_futures = [],
       eps_store = (\<lambda>_. \<lparr> ep_guard = None, ep_closed = True, ep_awaiters = [] \<rparr>) \<rparr>"

definition example_code :: "(nat, nat, nat, (nat, nat, nat) EPS) user_code" where
  "example_code = \<lparr> uc_call = (\<lambda>u v s. (s, None)), uc_listener = (\<lambda>u v s. (s, None)),
     uc_pred = (\<lambda>u v s. (Inr True, s)), uc_thunk = (\<lambda>u s. (s, None)), uc_handler = (\<lambda>h x s. (s, None)),
     uc_get_id = of_nat, uc_set_id = (\<lambda>i v. unat i) \<rparr>"

lemmas example_defs = example_state_def EventEndpoint_init_def
  make_object_def ep_update_def Let_def

lemma example_simps:
  "bus_inv example_state" "sub_room example_state" "bus_callbacks example_state = Map.empty"
  "bus_next_subscription example_state = 1" "aw_next_object example_state = 6" "ep_open 7 5 example_state"
  "bus_queue example_state = []" "aw_futures example_state = []" "w_reads example_state = 0"
  by (simp_all add: example_defs bus_inv_def table_ok_def sub_room_def ep_open_def ep_live_def)

lemma example_code_simps:
  "keeps_cancelled a example_code" "user_expired_stays g example_code"
  by (simp_all add: example_code_def keeps_cancelled_def user_expired_stays_def)


section \<open>Awaiters\<close>

definition example_created :: "bool \<Rightarrow> (nat, nat, nat) EPS" where
  "example_created single =
     snd (aw_create 3 (Some Always) (Some (User_fn 0)) (timeout_ms 1) single (Some 5) example_state)"

lemma example_create:
  "aw_create 3 (Some Always) (Some (User_fn 0)) (timeout_ms 1) single (Some 5) example_state =
     (6, example_created single)"
  by (simp add: example_created_def prod_eq_iff aw_create_eq(1) [OF surjective_pairing] example_simps)

theorem await_create_cancel_witness:
  "bus_callbacks (aw_cancel 6 (example_created True)) = Map.empty"
  using await_create_cancel [OF example_create example_simps(1,2)]
  by (simp add: example_simps)

lemma example_awaiter:
  "\<exists>w. aw_store (example_created True) 6 = Some w \<and> \<not> aw_cancelled w \<and> aw_single_shot w \<and>
     aw_subscription_id w = 1 \<and> aw_predicate w = Some Always \<and> aw_callback w = Some (User_fn 0) \<and>
     ct_state (ao_token (aw_options w)) = None"
  using aw_create_eq(2) [OF example_create]
  by (simp add: example_simps timeout_ms_def set_timeout_ms_def AwaitOptions_init_def)


theorem await_timeout_witness:
  "w_reads (poll_timeout example_code 6 (example_created True)) = 2"
proof -
  let ?s = "example_created True"
  have s: "w_reads ?s = 1" "w_clock ?s = (\<lambda>n. 10 * int n)" "w_clock example_state = (\<lambda>n. 10 * int n)"
    by (simp_all add: example_created_def aw_create_def EventAwaiter_init_def subscribe_internal_def register_awaiter_def
        subscribe_eq push_record_def aw_basic_defs example_defs timeout_ms_def set_timeout_ms_def AwaitOptions_init_def
        milliseconds_def)
  have o: "ao_timeout (timeout_ms 1 :: nat AwaitOptions) = 1000000"
    "ct_state (ao_token (timeout_ms 1 :: nat AwaitOptions)) = None"
    by (simp_all add: timeout_ms_def set_timeout_ms_def AwaitOptions_init_def milliseconds_def)
  have "poll_timeout example_code 6 ?s = ?s\<lparr>w_reads := Suc (w_reads ?s)\<rparr>"
    using await_timeout [OF example_create [of True] _ _ example_code_simps(1)] s o
    by (simp add: example_simps is_cancelled_def)
  then show ?thesis using s(1) by simp
qed

section \<open>Endpoints\<close>

theorem endpoint_close_witness: "w_strong (ep_close 7 example_state) 5 = 0"
  using endpoint_close [OF example_simps(6)] by simp

text \<open>
  The witness closes the endpoint inside one of its callbacks: the guard has a second owner, the lock
  of that callback, and the rest of the dispatch runs after the callback has returned.
\<close>

definition endpoint_record :: "SubscriptionId \<Rightarrow> nat Callable CallbackRecord" where
  "endpoint_record i = \<lparr> cb_id = i, cb_owner = Endpoint_owner 7, cb_guard = Some 5,
     cb_callback = Some (Some (Call_fn (User_fn 0))) \<rparr>"

definition inside_callback :: "(nat, nat, nat) EPS" where
  "inside_callback = example_state\<lparr>w_strong := (w_strong example_state)(5 := Suc 1)\<rparr>"

lemma inside_callback_simps:
  "ep_live 7 5 inside_callback" "w_strong inside_callback 5 = Suc 1"
  "enter_guard (endpoint_record 1) example_state = Some inside_callback"
  by (simp_all add: inside_callback_def example_defs ep_live_def enter_guard_def endpoint_record_def
      lock_object_def null_object_def)

theorem closed_endpoint_silent_witness:
  "fst (dispatch_loop (run_callable example_code) (uc_handler example_code) 5
     [endpoint_record 2, endpoint_record 3]
     (leave_guard (endpoint_record 1) (ep_close 7 inside_callback))) = []"
  (is "fst ?d = []")
proof -
  have f: "cb_guard (endpoint_record i) = Some 5" "(5 :: nat) \<noteq> null_object" for i
    by (simp_all add: endpoint_record_def null_object_def)
  have "dispatch_loop (run_callable example_code) (uc_handler example_code) 5
      [endpoint_record 2, endpoint_record 3]
      ((leave_guard (endpoint_record 1) ^^ 1) (ep_close 7 inside_callback)) =
      (fst ?d, fst (snd ?d), snd (snd ?d))"
    by (simp only: One_nat_def funpow.simps comp_def id_def prod.collapse)
  note silent = closed_endpoint_silent [OF inside_callback_simps(1,2) f(2) example_code_simps(2) f(1) refl this]
  have "{r \<in> set [endpoint_record 2, endpoint_record 3]. cb_guard r \<noteq> Some 5} = {}" using f(1) by auto
  from conjunct2 [OF silent, unfolded this] show ?thesis
    by (simp only: image_empty subset_empty set_empty)
qed

text \<open>
  What the locks of callbacks under way mean for a nested dispatch: inside a callback of the endpoint,
  a dispatch of two records whose first callback, of somebody else, closes the endpoint. The second
  record is the endpoint's own; its guard is still locked by the outer callback, so it starts although
  the endpoint is closed.
\<close>

definition closing_code :: "(nat, nat, nat, (nat, nat, nat) EPS) user_code" where
  "closing_code = example_code\<lparr>uc_call := (\<lambda>u v s. (if u = 1 then ep_close 7 s else s, None))\<rparr>"

definition closing_record :: "nat Callable CallbackRecord" where
  "closing_record = \<lparr> cb_id = 2, cb_owner = User_owner 0, cb_guard = None,
     cb_callback = Some (Some (Call_fn (User_fn 1))) \<rparr>"

lemma nested_dispatch_starts_closed:
  "ep_is_closed 7 (snd (call_record (run_callable closing_code) (uc_handler closing_code) 5
     closing_record inside_callback))"
  "fst (dispatch_loop (run_callable closing_code) (uc_handler closing_code) 5
     [closing_record, endpoint_record 3] inside_callback) = [2, 3]"
proof -
  let ?c = "ep_close 7 inside_callback"
  have first: "call_record (run_callable closing_code) (uc_handler closing_code) 5
      closing_record inside_callback = (None, ?c)"
    by (simp add: call_record_def closing_record_def run_callable_def call_fn_def closing_code_def)
  have closed: "ep_is_closed 7 ?c"
    using inside_callback_simps(1)
    by (simp add: ep_live_def ep_close_def ep_is_closed_def reset_guard_def cancel_awaiters_def
        ep_unsubscribe_all_def hub_frame Let_def)
  show "ep_is_closed 7 (snd (call_record (run_callable closing_code) (uc_handler closing_code) 5
     closing_record inside_callback))"
    by (simp add: first closed)
  have count: "w_strong ?c 5 = 1"
    using ep_close_drops_owner [OF inside_callback_simps(1)] inside_callback_simps(2) by simp
  then have "enter_guard (endpoint_record 3) ?c = Some (?c\<lparr>w_strong := (w_strong ?c)(5 := Suc 1)\<rparr>)"
    by (simp add: enter_guard_def endpoint_record_def lock_object_def null_object_def)
  moreover have "enter_guard closing_record s = Some s" "leave_guard closing_record s = s"
    for s :: "(nat, nat, nat) EPS"
    by (simp_all add: enter_guard_def leave_guard_def closing_record_def)
  moreover have "call_record (run_callable closing_code) (uc_handler closing_code) 5
      (endpoint_record 3) s = (None, s)" for s
    by (simp add: call_record_def endpoint_record_def run_callable_def call_fn_def closing_code_def)
  ultimately show "fst (dispatch_loop (run_callable closing_code) (uc_handler closing_code) 5
     [closing_record, endpoint_record 3] inside_callback) = [2, 3]"
    by (simp add: first) (simp add: closing_record_def endpoint_record_def)
qed

theorem request_correlation_witness:
  "bus_queue (snd (request example_code 4 3 7 0 (Some (User_fn 0)) AwaitOptions_init example_state)) =
     [\<lparr> qe_type = 4, qe_payload = unat (fst (request example_code 4 3 7 0 (Some (User_fn 0)) AwaitOptions_init example_state)) \<rparr>]"
  (is "bus_queue (snd ?r) = _")
proof -
  have "\<not> is_cancelled (ao_token (AwaitOptions_init :: nat AwaitOptions)) (aw_tokens example_state)"
    by (simp add: AwaitOptions_init_def is_cancelled_def)
  from request_correlation [OF surjective_pairing [of ?r] this example_code_simps(1) refl]
  have "bus_queue (snd ?r) = bus_queue example_state @ [\<lparr> qe_type = 4, qe_payload = uc_set_id example_code (fst ?r) 0 \<rparr>]"
    by simp
  then show ?thesis by (simp add: example_simps example_code_def)
qed

theorem request_future_completed_witness:
  "fut_result (aw_futures (snd (request_future example_code 4 3 7 0 AwaitOptions_init example_state)) !
     fst (request_future example_code 4 3 7 0 AwaitOptions_init example_state)) = None"
  (is "fut_result (aw_futures (snd ?r) ! fst ?r) = None")
proof -
  have "\<not> is_cancelled (ao_token (AwaitOptions_init :: nat AwaitOptions)) (aw_tokens example_state)"
    "ao_on_timeout (AwaitOptions_init :: nat AwaitOptions) = None"
    by (simp_all add: AwaitOptions_init_def is_cancelled_def)
  from request_future_completed [OF surjective_pairing [of ?r] this refl] show ?thesis by blast
qed

end
