(* ===== verification/Notifier.thy ===== *)
theory Notifier
  imports Hub_Prelude
begin

text \<open>
  \<^verbatim>\<open>SyncNotifier\<close> (\<^verbatim>\<open>notifier.hpp\<close>). Every operation holds the mutex, so an execution is a sequence of
  atomic operations of the producers and the waiting threads. A thread inside \<^verbatim>\<open>wait\<close> or
  \<^verbatim>\<open>wait_for\<close> is an entry of \<open>sn_waiting\<close> with the generation it waits to leave; a wake-up
  re-evaluates its predicate, as \<^verbatim>\<open>condition_variable::wait\<close> with a predicate does.
\<close>

record SyncNotifier =
  sn_generation :: u64
  sn_waiting :: "(nat \<times> u64) list"
  sn_returned :: "(nat \<times> bool) list"

definition SyncNotifier_init :: SyncNotifier where
  "SyncNotifier_init = \<lparr> sn_generation = 0, sn_waiting = [], sn_returned = [] \<rparr>"

definition generation :: "SyncNotifier \<Rightarrow> u64" where
  "generation n = sn_generation n"

text \<open>\<^verbatim>\<open>notify_all\<close>: each waiting thread checks its predicate again.\<close>

definition wake_all :: "SyncNotifier \<Rightarrow> SyncNotifier" where
  "wake_all n =
     n\<lparr>sn_waiting := filter (\<lambda>(t, old). sn_generation n = old) (sn_waiting n),
       sn_returned := sn_returned n @
         map (\<lambda>(t, old). (t, True)) (filter (\<lambda>(t, old). sn_generation n \<noteq> old) (sn_waiting n))\<rparr>"

definition notify :: "SyncNotifier \<Rightarrow> SyncNotifier" where
  "notify n = wake_all (n\<lparr>sn_generation := sn_generation n + 1\<rparr>)"

text \<open>Entering a wait: the predicate is checked before the thread blocks.\<close>

definition wait_on :: "nat \<Rightarrow> u64 \<Rightarrow> SyncNotifier \<Rightarrow> SyncNotifier" where
  "wait_on t old n =
     (if sn_generation n \<noteq> old then n\<lparr>sn_returned := sn_returned n @ [(t, True)]\<rparr>
      else n\<lparr>sn_waiting := sn_waiting n @ [(t, old)]\<rparr>)"

text \<open>The time-out of a \<^verbatim>\<open>wait_for\<close>: it returns the predicate's value.\<close>

definition wait_timeout :: "nat \<Rightarrow> SyncNotifier \<Rightarrow> SyncNotifier" where
  "wait_timeout t n =
     (case map_of (sn_waiting n) t of
        None \<Rightarrow> n
      | Some old \<Rightarrow>
          n\<lparr>sn_waiting := filter (\<lambda>(u, _). u \<noteq> t) (sn_waiting n),
            sn_returned := sn_returned n @ [(t, sn_generation n \<noteq> old)]\<rparr>)"

inductive notifier_step :: "SyncNotifier \<Rightarrow> SyncNotifier \<Rightarrow> bool" where
  step_notify: "notifier_step n (notify n)"
| step_wait: "t \<notin> fst ` set (sn_waiting n) \<Longrightarrow> notifier_step n (wait_on t old n)"
| step_timeout: "t \<in> fst ` set (sn_waiting n) \<Longrightarrow> notifier_step n (wait_timeout t n)"

inductive_cases notifier_stepE: "notifier_step n n'"

text \<open>A blocked thread waits for the current generation to pass.\<close>

definition notifier_inv :: "SyncNotifier \<Rightarrow> bool" where
  "notifier_inv n \<longleftrightarrow> (\<forall>(t, old) \<in> set (sn_waiting n). old = sn_generation n)"

lemma notifier_inv_step: "notifier_step n n' \<Longrightarrow> notifier_inv n \<Longrightarrow> notifier_inv n'"
  by (erule notifier_stepE)
    (auto simp: notifier_inv_def notify_def wake_all_def wait_on_def wait_timeout_def split: option.splits)

lemma notifier_inv_reachable: "notifier_step\<^sup>*\<^sup>* SyncNotifier_init n \<Longrightarrow> notifier_inv n"
proof (induction rule: rtranclp_induct)
  case base
  show ?case by (simp add: notifier_inv_def SyncNotifier_init_def)
qed (rule notifier_inv_step)

lemma sn_generation_notify_power: "sn_generation ((notify ^^ k) n) = sn_generation n + of_nat k"
  by (induction k) (simp_all add: notify_def wake_all_def)

lemma notify_releases:
  assumes "notifier_inv n"
  shows "sn_waiting (notify n) = []" "set (sn_waiting n) = {} \<or> (\<forall>(t, old) \<in> set (sn_waiting n). (t, True) \<in> set (sn_returned (notify n)))"
  using assms by (fastforce simp: notifier_inv_def notify_def wake_all_def filter_empty_conv image_iff)+

text \<open>
  C35: no wake-up is lost. A notification releases every thread blocked at that moment, and a thread
  that read the generation and then waits on it does not block once anything was notified in
  between, as long as fewer than $2^{64}$ notifications were.
\<close>

theorem no_lost_wakeup:
  assumes "notifier_step\<^sup>*\<^sup>* SyncNotifier_init n" "0 < k" "k < 2 ^ 64"
  shows "sn_waiting (notify n) = [] \<and>
    (\<forall>t. t \<in> fst ` set (sn_waiting n) \<longrightarrow> (t, True) \<in> set (sn_returned (notify n))) \<and>
    (let m = (notify ^^ k) n in
       sn_waiting (wait_on t (generation n) m) = sn_waiting m \<and>
       sn_returned (wait_on t (generation n) m) = sn_returned m @ [(t, True)])"
proof -
  note inv = notifier_inv_reachable [OF assms(1)]
  have "generation n \<noteq> sn_generation ((notify ^^ k) n)"
    using of_nat_word_nonzero [of k, where 'a = 64] assms(2,3) 
    by (simp add: sn_generation_notify_power generation_def)
  then show ?thesis
    using notify_releases [OF inv] by (auto simp: wait_on_def Let_def)
qed

theorem no_lost_wakeup_witness:
  "sn_returned (wait_on 7 0 ((notify ^^ 2) SyncNotifier_init)) = [(7, True)]"
proof -
  have "sn_returned ((notify ^^ 2) SyncNotifier_init) = []"
    by (simp add: numeral_2_eq_2 notify_def wake_all_def SyncNotifier_init_def)
  moreover have "generation SyncNotifier_init = 0" by (simp add: generation_def SyncNotifier_init_def)
  ultimately show ?thesis
    using no_lost_wakeup [of SyncNotifier_init 2 7] by (simp add: Let_def)
qed

end
