(* ===== verification/Hub_World.thy ===== *)
theory Hub_World
  imports Task_Process Endpoint Notifier
begin

text \<open>
  The world in which several components meet: event buses (each with its endpoints and awaiters),
  task managers and notifiers, addressed by numbers, and the clock. An operation of one
  object works on that object's record extended by the world; at every call of user code the record
  is written back, so the callback sees and changes the whole world, and the notifications the object
  issued reach the notifiers. Object ids and guards belong to a bus.
\<close>

record ('v, 'u, 'h, 'k) WORLD =
  wd_buses :: "nat \<Rightarrow> ('v, 'u, 'h) EPS"
  wd_tms :: "nat \<Rightarrow> 'k TM"
  wd_notifiers :: "nat \<Rightarrow> SyncNotifier"
  wd_clock :: "nat \<Rightarrow> time"
  wd_task_clock :: "nat \<Rightarrow> nat \<Rightarrow> time \<times> time"
  wd_reads :: nat

text \<open>User code on the world; \<open>'u\<close>, \<open>'h\<close> and \<open>'k\<close> are the handles of event, handler and task callables.\<close>

record ('v, 'u, 'h, 'k, 's) hub_code =
  hc_call :: "'u \<Rightarrow> 'v \<Rightarrow> 's \<Rightarrow> 's \<times> exn option"
  hc_listener :: "'u \<Rightarrow> 'v \<Rightarrow> 's \<Rightarrow> 's \<times> exn option"
  hc_pred :: "'u \<Rightarrow> 'v \<Rightarrow> 's \<Rightarrow> (exn + bool) \<times> 's"
  hc_thunk :: "'u \<Rightarrow> 's \<Rightarrow> 's \<times> exn option"
  hc_handler :: "'h \<Rightarrow> exn \<Rightarrow> 's \<Rightarrow> 's \<times> exn option"
  hc_get_id :: "'v \<Rightarrow> RequestId"
  hc_set_id :: "RequestId \<Rightarrow> 'v \<Rightarrow> 'v"
  hc_task :: "'k \<Rightarrow> TaskContext option \<Rightarrow> 's \<Rightarrow> 's \<times> exn option"
  hc_task_handler :: "'k \<Rightarrow> exn \<Rightarrow> 's \<Rightarrow> 's \<times> exn option"

section \<open>Focusing on one object\<close>

definition notify_id :: "nat \<Rightarrow> ('v, 'u, 'h, 'k, 'z) WORLD_scheme \<Rightarrow> ('v, 'u, 'h, 'k, 'z) WORLD_scheme" where
  "notify_id n w = w\<lparr>wd_notifiers := (wd_notifiers w)(n := notify (wd_notifiers w n))\<rparr>"

definition enter_bus ::
  "nat \<Rightarrow> ('v, 'u, 'h, 'k, 'z) WORLD_scheme \<Rightarrow> ('v, 'u, 'h, ('v, 'u, 'h, 'k, 'z) WORLD_scheme) EPS_scheme"
where
  "enter_bus b w = EPS.extend (wd_buses w b) w"

definition leave_bus ::
  "nat \<Rightarrow> ('v, 'u, 'h, ('v, 'u, 'h, 'k, 'z) WORLD_scheme) EPS_scheme \<Rightarrow> ('v, 'u, 'h, 'k, 'z) WORLD_scheme"
where
  "leave_bus b s =
     (let w = EPS.more s
      in fold notify_id (bus_notified s)
           (w\<lparr>wd_buses := (wd_buses w)(b := (EPS.truncate s)\<lparr>bus_notified := []\<rparr>)\<rparr>))"

definition enter_tm ::
  "nat \<Rightarrow> ('v, 'u, 'h, 'k, 'z) WORLD_scheme \<Rightarrow> ('k, ('v, 'u, 'h, 'k, 'z) WORLD_scheme) TM_scheme"
where
  "enter_tm t w = TM.extend (wd_tms w t) w"

definition leave_tm ::
  "nat \<Rightarrow> ('k, ('v, 'u, 'h, 'k, 'z) WORLD_scheme) TM_scheme \<Rightarrow> ('v, 'u, 'h, 'k, 'z) WORLD_scheme"
where
  "leave_tm t s =
     (let w = TM.more s
      in fold notify_id (tm_notified s)
           (w\<lparr>wd_tms := (wd_tms w)(t := (TM.truncate s)\<lparr>tm_notified := []\<rparr>)\<rparr>))"

text \<open>User code as the bus \<open>b\<close> and the task manager \<open>t\<close> call it.\<close>

definition bus_code ::
  "nat \<Rightarrow> ('v, 'u, 'h, 'k, ('v, 'u, 'h, 'k, 'z) WORLD_scheme) hub_code
     \<Rightarrow> ('v, 'u, 'h, ('v, 'u, 'h, ('v, 'u, 'h, 'k, 'z) WORLD_scheme) EPS_scheme) user_code"
where
  "bus_code b hc =
     \<lparr> uc_call = (\<lambda>u v s. map_prod (enter_bus b) id (hc_call hc u v (leave_bus b s))),
       uc_listener = (\<lambda>u v s. map_prod (enter_bus b) id (hc_listener hc u v (leave_bus b s))),
       uc_pred = (\<lambda>u v s. map_prod id (enter_bus b) (hc_pred hc u v (leave_bus b s))),
       uc_thunk = (\<lambda>u s. map_prod (enter_bus b) id (hc_thunk hc u (leave_bus b s))),
       uc_handler = (\<lambda>h x s. map_prod (enter_bus b) id (hc_handler hc h x (leave_bus b s))),
       uc_get_id = hc_get_id hc,
       uc_set_id = hc_set_id hc \<rparr>"

definition task_runner ::
  "nat \<Rightarrow> ('v, 'u, 'h, 'k, ('v, 'u, 'h, 'k, 'z) WORLD_scheme) hub_code
     \<Rightarrow> ('k, ('k, ('v, 'u, 'h, 'k, 'z) WORLD_scheme) TM_scheme) runner"
where
  "task_runner t hc = (\<lambda>k ctx s. map_prod (enter_tm t) id (hc_task hc k ctx (leave_tm t s)))"

definition task_handler_runner ::
  "nat \<Rightarrow> ('v, 'u, 'h, 'k, ('v, 'u, 'h, 'k, 'z) WORLD_scheme) hub_code
     \<Rightarrow> ('k, ('k, ('v, 'u, 'h, 'k, 'z) WORLD_scheme) TM_scheme) handler_runner"
where
  "task_handler_runner t hc = (\<lambda>k x s. map_prod (enter_tm t) id (hc_task_handler hc k x (leave_tm t s)))"

section \<open>The operations of buses and task managers in the world\<close>

definition on_bus ::
  "nat \<Rightarrow> (('v, 'u, 'h, ('v, 'u, 'h, 'k, 'z) WORLD_scheme) EPS_scheme \<Rightarrow>
     ('v, 'u, 'h, ('v, 'u, 'h, 'k, 'z) WORLD_scheme) EPS_scheme)
     \<Rightarrow> ('v, 'u, 'h, 'k, 'z) WORLD_scheme \<Rightarrow> ('v, 'u, 'h, 'k, 'z) WORLD_scheme"
where
  "on_bus b f w = leave_bus b (f (enter_bus b w))"

definition on_tm ::
  "nat \<Rightarrow> (('k, ('v, 'u, 'h, 'k, 'z) WORLD_scheme) TM_scheme \<Rightarrow> ('k, ('v, 'u, 'h, 'k, 'z) WORLD_scheme) TM_scheme)
     \<Rightarrow> ('v, 'u, 'h, 'k, 'z) WORLD_scheme \<Rightarrow> ('v, 'u, 'h, 'k, 'z) WORLD_scheme"
where
  "on_tm t f w = leave_tm t (f (enter_tm t w))"

definition read_clock :: "('v, 'u, 'h, 'k, 'z) WORLD_scheme \<Rightarrow> time \<times> ('v, 'u, 'h, 'k, 'z) WORLD_scheme" where
  "read_clock w = (wd_clock w (wd_reads w), w\<lparr>wd_reads := Suc (wd_reads w)\<rparr>)"

definition world_bus_process ::
  "('v, 'u, 'h, 'k, ('v, 'u, 'h, 'k, 'z) WORLD_scheme) hub_code \<Rightarrow> nat \<Rightarrow> ('v, 'u, 'h, 'k, 'z) WORLD_scheme
     \<Rightarrow> (exn + nat) \<times> ('v, 'u, 'h, 'k, 'z) WORLD_scheme"
where
  "world_bus_process hc b w =
     (let uc = bus_code b hc
      in case bus_process (run_callable uc) (uc_handler uc) (awaiter_ops uc) (enter_bus b w) of
           (r, s) \<Rightarrow> (map_sum fst id r, leave_bus b s))"

definition world_bus_has_pending :: "nat \<Rightarrow> ('v, 'u, 'h, 'k, 'z) WORLD_scheme \<Rightarrow> bool" where
  "world_bus_has_pending b w = bus_has_pending (wd_buses w b)"

definition world_tm_process ::
  "('v, 'u, 'h, 'k, ('v, 'u, 'h, 'k, 'z) WORLD_scheme) hub_code \<Rightarrow> nat \<Rightarrow> nat \<Rightarrow> ('v, 'u, 'h, 'k, 'z) WORLD_scheme
     \<Rightarrow> (exn + nat) \<times> ('v, 'u, 'h, 'k, 'z) WORLD_scheme"
where
  "world_tm_process hc max_tasks t w =
     (let (now, w) = read_clock w
      in case process (task_runner t hc) (task_handler_runner t hc) now (wd_task_clock w (wd_reads w)) max_tasks (enter_tm t w) of
           (r, s) \<Rightarrow> (r, leave_tm t s))"

definition world_tm_has_ready :: "nat \<Rightarrow> ('v, 'u, 'h, 'k, 'z) WORLD_scheme \<Rightarrow> bool" where
  "world_tm_has_ready t w = has_ready (wd_tms w t)"

definition world_tm_next_deadline ::
  "nat \<Rightarrow> ('v, 'u, 'h, 'k, 'z) WORLD_scheme \<Rightarrow> time option \<times> ('v, 'u, 'h, 'k, 'z) WORLD_scheme"
where
  "world_tm_next_deadline t w = (case next_deadline (enter_tm t w) of (d, s) \<Rightarrow> (d, leave_tm t s))"

text \<open>Processing a list of sources in order; the first exception ends it.\<close>

fun process_all :: "('a \<Rightarrow> 's \<Rightarrow> (exn + nat) \<times> 's) \<Rightarrow> 'a list \<Rightarrow> nat \<Rightarrow> 's \<Rightarrow> (exn + nat) \<times> 's" where
  "process_all p [] work_done s = (Inr work_done, s)"
| "process_all p (a # as) work_done s =
     (case p a s of
        (Inl x, s) \<Rightarrow> (Inl x, s)
      | (Inr n, s) \<Rightarrow> process_all p as (work_done + n) s)"

section \<open>Blocking loops\<close>

text \<open>
  The three blocking loops of the library (\<^verbatim>\<open>RunLoop::run_until\<close>, \<^verbatim>\<open>ModuleHub::run_loop\<close>,
  \<^verbatim>\<open>Module::run_worker_loop\<close>) have the same shape. One iteration ends in a verdict; \<open>Sleep\<close> carries
  the generation read at its beginning and the time to wait, if there is a limit.
\<close>

datatype verdict = Again | Leave | Fail exn | Sleep u64 "time option"

text \<open>
  A wait on notifier \<open>n\<close>. While the thread is blocked, other threads and the passing of time change
  the world by \<open>others\<close>; \<open>None\<close> means that nothing ever wakes it.
\<close>

definition blocking_wait ::
  "(('v, 'u, 'h, 'k, 'z) WORLD_scheme \<Rightarrow> ('v, 'u, 'h, 'k, 'z) WORLD_scheme) \<Rightarrow> nat \<Rightarrow> u64 \<Rightarrow> time option \<Rightarrow>
   ('v, 'u, 'h, 'k, 'z) WORLD_scheme \<Rightarrow> ('v, 'u, 'h, 'k, 'z) WORLD_scheme option"
where
  "blocking_wait others n old limit w =
     (if generation (wd_notifiers w n) \<noteq> old then Some w
      else let w = others w
           in if generation (wd_notifiers w n) \<noteq> old \<or> limit \<noteq> None then Some w else None)"

text \<open>\<open>None\<close>: the fuel is used up, or the loop blocks for ever.\<close>

fun drive ::
  "('s \<Rightarrow> verdict \<times> 's) \<Rightarrow> (u64 \<Rightarrow> time option \<Rightarrow> 's \<Rightarrow> 's option) \<Rightarrow> nat \<Rightarrow> 's \<Rightarrow> (exn option \<times> 's) option"
where
  "drive iterate wait 0 s = None"
| "drive iterate wait (Suc fuel) s =
     (case iterate s of
        (Leave, s) \<Rightarrow> Some (None, s)
      | (Fail x, s) \<Rightarrow> Some (Some x, s)
      | (Again, s) \<Rightarrow> drive iterate wait fuel s
      | (Sleep old limit, s) \<Rightarrow>
          (case wait old limit s of None \<Rightarrow> None | Some s \<Rightarrow> drive iterate wait fuel s))"

text \<open>A loop that leaves as soon as its stop condition holds at the beginning of an iteration.\<close>

locale stoppable_loop =
  fixes iterate :: "'s \<Rightarrow> verdict \<times> 's" and stopped :: "'s \<Rightarrow> bool"
  assumes leaves: "stopped s \<Longrightarrow> iterate s = (Leave, s)"
begin

lemma stopped_leaves: "stopped s \<Longrightarrow> drive iterate wait (Suc fuel) s = Some (None, s)"
  by (simp add: leaves)

lemma stop_during_iteration:
  assumes "iterate s = (v, s1)" "stopped s1" "v = Again \<or> v = Leave"
  shows "drive iterate wait (Suc (Suc fuel)) s = Some (None, s1)"
  using assms by (auto simp: leaves)

lemma stop_while_sleeping:
  assumes "iterate s = (Sleep old limit, s1)" "wait old limit s1 = Some s2" "stopped s2"
  shows "drive iterate wait (Suc (Suc fuel)) s = Some (None, s2)"
  using assms by (simp add: leaves)

end

end
