(* ===== verification/Run_Loop.thy ===== *)
theory Run_Loop
  imports Hub_World
begin

text \<open>
  \<^verbatim>\<open>RunLoop\<close> (\<^verbatim>\<open>run_loop.hpp\<close>). The loop's fields extend the world, so that callbacks can reach the
  loop as well; registered sources are the numbers of buses and task managers, \<open>rl_notifier\<close>
  that of the loop's notifier.
\<close>

record ('v, 'u, 'h, 'k) LOOP = "('v, 'u, 'h, 'k) WORLD" +
  rl_notifier :: nat
  rl_buses :: "nat list"
  rl_task_managers :: "nat list"
  rl_max_tasks :: u64
  rl_stop_requested :: bool

definition positive_limit :: "u64 \<Rightarrow> u64" where
  "positive_limit max_tasks = (if max_tasks = 0 then 1 else max_tasks)"

definition RunLoop_init :: "u64 \<Rightarrow> ('v, 'u, 'h, 'k, 'z) LOOP_scheme \<Rightarrow> ('v, 'u, 'h, 'k, 'z) LOOP_scheme" where
  "RunLoop_init max_tasks w =
     w\<lparr>rl_buses := [], rl_task_managers := [], rl_max_tasks := positive_limit max_tasks,
       rl_stop_requested := False\<rparr>"

definition set_max_tasks_per_manager :: "u64 \<Rightarrow> ('v, 'u, 'h, 'k, 'z) LOOP_scheme \<Rightarrow> ('v, 'u, 'h, 'k, 'z) LOOP_scheme" where
  "set_max_tasks_per_manager max_tasks w = w\<lparr>rl_max_tasks := positive_limit max_tasks\<rparr>"

definition max_tasks_per_manager :: "('v, 'u, 'h, 'k, 'z) LOOP_scheme \<Rightarrow> u64" where
  "max_tasks_per_manager w = rl_max_tasks w"

definition add_bus :: "nat \<Rightarrow> ('v, 'u, 'h, 'k, 'z) LOOP_scheme \<Rightarrow> ('v, 'u, 'h, 'k, 'z) LOOP_scheme" where
  "add_bus b w =
     (if b \<in> set (rl_buses w) then w
      else let w = on_bus b (bus_set_notifier (Some (rl_notifier w))) w
           in w\<lparr>rl_buses := rl_buses w @ [b]\<rparr>)"

definition add_task_manager :: "nat \<Rightarrow> ('v, 'u, 'h, 'k, 'z) LOOP_scheme \<Rightarrow> ('v, 'u, 'h, 'k, 'z) LOOP_scheme" where
  "add_task_manager t w =
     (if t \<in> set (rl_task_managers w) then w
      else let w = on_tm t (set_notifier (Some (rl_notifier w))) w
           in w\<lparr>rl_task_managers := rl_task_managers w @ [t]\<rparr>)"

definition loop_request_stop :: "('v, 'u, 'h, 'k, 'z) LOOP_scheme \<Rightarrow> ('v, 'u, 'h, 'k, 'z) LOOP_scheme" where
  "loop_request_stop w = notify_id (rl_notifier w) (w\<lparr>rl_stop_requested := True\<rparr>)"

definition loop_reset_stop :: "('v, 'u, 'h, 'k, 'z) LOOP_scheme \<Rightarrow> ('v, 'u, 'h, 'k, 'z) LOOP_scheme" where
  "loop_reset_stop w = w\<lparr>rl_stop_requested := False\<rparr>"

definition loop_stop_requested :: "('v, 'u, 'h, 'k, 'z) LOOP_scheme \<Rightarrow> bool" where
  "loop_stop_requested w = rl_stop_requested w"

definition loop_process_once ::
  "('v, 'u, 'h, 'k, ('v, 'u, 'h, 'k, 'z) LOOP_scheme) hub_code \<Rightarrow> ('v, 'u, 'h, 'k, 'z) LOOP_scheme
     \<Rightarrow> (exn + nat) \<times> ('v, 'u, 'h, 'k, 'z) LOOP_scheme"
where
  "loop_process_once hc w =
     (case process_all (world_bus_process hc) (rl_buses w) 0 w of
        (Inl x, w) \<Rightarrow> (Inl x, w)
      | (Inr work_done, w) \<Rightarrow>
          process_all (\<lambda>t w. world_tm_process hc (unat (rl_max_tasks w)) t w) (rl_task_managers w) work_done w)"

definition has_ready_or_pending_work :: "('v, 'u, 'h, 'k, 'z) LOOP_scheme \<Rightarrow> bool" where
  "has_ready_or_pending_work w \<longleftrightarrow>
     list_ex (\<lambda>b. world_bus_has_pending b w) (rl_buses w) \<or>
     list_ex (\<lambda>t. world_tm_has_ready t w) (rl_task_managers w)"

text \<open>The loop of \<^verbatim>\<open>next_task_wait\<close>; a ready task manager ends it.\<close>

fun next_wait_loop ::
  "time \<Rightarrow> nat list \<Rightarrow> time option \<Rightarrow> ('v, 'u, 'h, 'k, 'z) WORLD_scheme
     \<Rightarrow> time option \<times> ('v, 'u, 'h, 'k, 'z) WORLD_scheme"
where
  "next_wait_loop now [] best w = (best, w)"
| "next_wait_loop now (t # ts) best w =
     (if world_tm_has_ready t w then (Some 0, w)
      else case world_tm_next_deadline t w of
             (None, w) \<Rightarrow> next_wait_loop now ts best w
           | (Some deadline, w) \<Rightarrow>
               (let wait = (if deadline \<le> now then 0 else deadline - now);
                    best = (case best of None \<Rightarrow> Some wait
                            | Some d \<Rightarrow> if wait < d then Some wait else best)
                in next_wait_loop now ts best w))"

definition next_task_wait ::
  "('v, 'u, 'h, 'k, 'z) LOOP_scheme \<Rightarrow> time option \<times> ('v, 'u, 'h, 'k, 'z) LOOP_scheme"
where
  "next_task_wait w = (let (now, w) = read_clock w in next_wait_loop now (rl_task_managers w) None w)"

text \<open>One iteration of \<^verbatim>\<open>run_until\<close>; \<open>should_stop\<close> is the caller's predicate, called where the code does.\<close>

definition loop_iteration ::
  "('v, 'u, 'h, 'k, ('v, 'u, 'h, 'k, 'z) LOOP_scheme) hub_code \<Rightarrow>
   (('v, 'u, 'h, 'k, 'z) LOOP_scheme \<Rightarrow> (exn + bool) \<times> ('v, 'u, 'h, 'k, 'z) LOOP_scheme) \<Rightarrow>
   ('v, 'u, 'h, 'k, 'z) LOOP_scheme \<Rightarrow> verdict \<times> ('v, 'u, 'h, 'k, 'z) LOOP_scheme"
where
  "loop_iteration hc should_stop w =
     (if loop_stop_requested w then (Leave, w)
      else case should_stop w of
        (Inl x, w) \<Rightarrow> (Fail x, w)
      | (Inr True, w) \<Rightarrow> (Leave, w)
      | (Inr False, w) \<Rightarrow>
          (let old = generation (wd_notifiers w (rl_notifier w))
           in case loop_process_once hc w of
                (Inl x, w) \<Rightarrow> (Fail x, w)
              | (Inr work_done, w) \<Rightarrow>
                  if work_done \<noteq> 0 then (Again, w)
                  else if loop_stop_requested w then (Leave, w)
                  else case should_stop w of
                    (Inl x, w) \<Rightarrow> (Fail x, w)
                  | (Inr True, w) \<Rightarrow> (Leave, w)
                  | (Inr False, w) \<Rightarrow>
                      if has_ready_or_pending_work w then (Again, w)
                      else (case next_task_wait w of
                              (Some wait, w) \<Rightarrow> if wait \<le> 0 then (Again, w) else (Sleep old (Some wait), w)
                            | (None, w) \<Rightarrow> (Sleep old None, w))))"

definition run_until ::
  "('v, 'u, 'h, 'k, ('v, 'u, 'h, 'k, 'z) LOOP_scheme) hub_code \<Rightarrow>
   (('v, 'u, 'h, 'k, 'z) LOOP_scheme \<Rightarrow> ('v, 'u, 'h, 'k, 'z) LOOP_scheme) \<Rightarrow>
   (('v, 'u, 'h, 'k, 'z) LOOP_scheme \<Rightarrow> (exn + bool) \<times> ('v, 'u, 'h, 'k, 'z) LOOP_scheme) \<Rightarrow> nat \<Rightarrow>
   ('v, 'u, 'h, 'k, 'z) LOOP_scheme \<Rightarrow> (exn option \<times> ('v, 'u, 'h, 'k, 'z) LOOP_scheme) option"
where
  "run_until hc others should_stop fuel w =
     drive (loop_iteration hc should_stop) (\<lambda>old limit w. blocking_wait others (rl_notifier w) old limit w) fuel w"

definition run ::
  "('v, 'u, 'h, 'k, ('v, 'u, 'h, 'k, 'z) LOOP_scheme) hub_code \<Rightarrow>
   (('v, 'u, 'h, 'k, 'z) LOOP_scheme \<Rightarrow> ('v, 'u, 'h, 'k, 'z) LOOP_scheme) \<Rightarrow> nat \<Rightarrow>
   ('v, 'u, 'h, 'k, 'z) LOOP_scheme \<Rightarrow> (exn option \<times> ('v, 'u, 'h, 'k, 'z) LOOP_scheme) option"
where
  "run hc others fuel w = run_until hc others (\<lambda>w. (Inr False, w)) fuel w"

definition reset_sources :: "('v, 'u, 'h, 'k, 'z) LOOP_scheme \<Rightarrow> ('v, 'u, 'h, 'k, 'z) LOOP_scheme" where
  "reset_sources w =
     (let w = fold (\<lambda>b. on_bus b bus_reset_notifier) (rl_buses w) w;
          w = w\<lparr>rl_buses := []\<rparr>;
          w = fold (\<lambda>t. on_tm t reset_notifier) (rl_task_managers w) w
      in w\<lparr>rl_task_managers := []\<rparr>)"

text \<open>The destructor.\<close>

definition RunLoop_destroy :: "('v, 'u, 'h, 'k, 'z) LOOP_scheme \<Rightarrow> ('v, 'u, 'h, 'k, 'z) LOOP_scheme" where
  "RunLoop_destroy w = reset_sources w"

end
