(* ===== verification/Run_Loop_Theorems.thy ===== *)
theory Run_Loop_Theorems
  imports Run_Loop
begin

text \<open>
  The run loop never sleeps while there is work for it, a post wakes it, and a stop request ends it.
\<close>

section \<open>Looking at deadlines changes nothing that matters\<close>

lemma fold_notify_frame [hub_frame]:
  "wd_buses (fold notify_id ns w) = wd_buses w" "wd_tms (fold notify_id ns w) = wd_tms w"
  "wd_clock (fold notify_id ns w) = wd_clock w" "wd_reads (fold notify_id ns w) = wd_reads w"
  "wd_task_clock (fold notify_id ns w) = wd_task_clock w" "WORLD.more (fold notify_id ns w) = WORLD.more w"
  by (induction ns arbitrary: w) (simp_all add: notify_id_def)

lemma loop_fields_more:
  fixes w w' :: "('v, 'u, 'h, 'k, 'z) LOOP_scheme"
  assumes "WORLD.more w = WORLD.more w'"
  shows "rl_notifier w = rl_notifier w'" "rl_buses w = rl_buses w'" "rl_task_managers w = rl_task_managers w'"
    "rl_max_tasks w = rl_max_tasks w'" "rl_stop_requested w = rl_stop_requested w'"
  using assms by (cases w; cases w'; simp)+

lemma prune_heap_idem: "prune_heap c (prune_heap c h) = prune_heap c h"
proof (induction c h rule: prune_heap.induct)
  case (1 c h)
  then show ?case by (cases "h = []") (simp_all add: prune_heap.simps [of c h] prune_heap.simps [of c "[]"])
qed

definition tm_deadline :: "nat \<Rightarrow> ('v, 'u, 'h, 'k, 'z) WORLD_scheme \<Rightarrow> time option" where
  "tm_deadline t w = fst (next_deadline (wd_tms w t))"

lemma world_tm_next_deadline_fst: "fst (world_tm_next_deadline t w) = tm_deadline t w"
  by (simp add: world_tm_next_deadline_def tm_deadline_def next_deadline_def prune_delayed_top_locked_def
      enter_tm_def TM.defs Let_def split_def)

text \<open>What the two states around such a look have in common.\<close>

definition looked :: "('v, 'u, 'h, 'k, 'z) WORLD_scheme \<Rightarrow> ('v, 'u, 'h, 'k, 'z) WORLD_scheme \<Rightarrow> bool" where
  "looked w w' \<longleftrightarrow> wd_buses w' = wd_buses w \<and> wd_clock w' = wd_clock w \<and> wd_reads w' = wd_reads w \<and>
     WORLD.more w' = WORLD.more w \<and> (\<forall>t. has_ready (wd_tms w' t) = has_ready (wd_tms w t)) \<and>
     (\<forall>t. tm_deadline t w' = tm_deadline t w)"

lemma looked_refl [simp]: "looked w w"
  by (simp add: looked_def)

lemma looked_trans: "looked w w' \<Longrightarrow> looked w' w'' \<Longrightarrow> looked w w''"
  by (simp add: looked_def)

lemma world_tm_next_deadline_looked:
  assumes "world_tm_next_deadline t w = (d, w')"
  shows "looked w w'"
proof -
  let ?s = "(TM.truncate (prune_delayed_top_locked (enter_tm t w)))\<lparr>tm_notified := []\<rparr>"
  have w': "w' = fold notify_id (tm_notified (enter_tm t w)) (w\<lparr>wd_tms := (wd_tms w)(t := ?s)\<rparr>)"
    using assms
    by (auto simp: world_tm_next_deadline_def next_deadline_def leave_tm_def prune_delayed_top_locked_def
        enter_tm_def TM.defs Let_def)
  have "tm_heap ?s = prune_heap (tm_controls (wd_tms w t)) (tm_heap (wd_tms w t))"
    "tm_controls ?s = tm_controls (wd_tms w t)" "has_ready ?s = has_ready (wd_tms w t)"
    by (simp_all add: prune_delayed_top_locked_def enter_tm_def TM.defs has_ready_def ready_count_def)
  then show ?thesis
    by (simp add: w' looked_def hub_frame tm_deadline_def next_deadline_def prune_delayed_top_locked_def
        prune_heap_idem Let_def)
qed

section \<open>The time to sleep\<close>

lemma next_wait_loop_spec:
  "next_wait_loop now ts best w = (r, w') \<Longrightarrow>
     looked w w' \<and>
     (\<forall>b. best = Some b \<longrightarrow> (\<exists>d. r = Some d \<and> (d \<le> b \<or> d \<le> 0))) \<and>
     (\<forall>t \<in> set ts. \<forall>dl. tm_deadline t w = Some dl \<longrightarrow> (\<exists>d. r = Some d \<and> (d \<le> dl - now \<or> d \<le> 0)))"
proof (induction ts arbitrary: best w)
  case (Cons t ts)
  show ?case
  proof (cases "world_tm_has_ready t w")
    case False
    obtain dl w1 where n: "world_tm_next_deadline t w = (dl, w1)" by fastforce
    note l = world_tm_next_deadline_looked [OF n]
    have dl: "dl = tm_deadline t w" using world_tm_next_deadline_fst [of t w] n by simp
    define best' where "best' = (case dl of None \<Rightarrow> best
      | Some deadline \<Rightarrow> (let wait = (if deadline \<le> now then 0 else deadline - now)
          in case best of None \<Rightarrow> Some wait | Some d \<Rightarrow> if wait < d then Some wait else best))"
    have "next_wait_loop now (t # ts) best w = next_wait_loop now ts best' w1"
      using False n by (cases dl) (simp_all add: best'_def Let_def)
    then have "next_wait_loop now ts best' w1 = (r, w')" using Cons.prems by simp
    note ih = Cons.IH [OF this]
    have l': "looked w w'" using looked_trans [OF l] ih by simp
    have same: "tm_deadline u w1 = tm_deadline u w" for u using l by (simp add: looked_def)
    have b: "\<exists>d. r = Some d \<and> (d \<le> b \<or> d \<le> 0)" if "best = Some b" for b
      using ih that by (auto simp: best'_def Let_def split: option.splits if_splits)
    have t: "\<exists>d. r = Some d \<and> (d \<le> deadline - now \<or> d \<le> 0)" if "dl = Some deadline" for deadline
      using ih that by (auto simp: best'_def Let_def split: option.splits if_splits)
    show ?thesis using l' b t ih same dl by simp
  qed (use Cons.prems in auto)
qed simp

section \<open>Sleeping\<close>

lemma next_task_wait_spec:
  assumes "next_task_wait w = (r, w')"
  shows "looked (w\<lparr>wd_reads := Suc (wd_reads w)\<rparr>) w'"
    "t \<in> set (rl_task_managers w) \<Longrightarrow> tm_deadline t w = Some dl \<Longrightarrow>
       \<exists>d. r = Some d \<and> (d \<le> dl - wd_clock w (wd_reads w) \<or> d \<le> 0)"
  using assms next_wait_loop_spec
  by (fastforce simp: next_task_wait_def read_clock_def tm_deadline_def)+

lemma loop_post_wakes:
  fixes w :: "('v, 'u, 'h, 'k, 'z) WORLD_scheme"
  assumes "bus_notifier (wd_buses w b) = Some n" "bus_notified (wd_buses w b) = []"
  shows "blocking_wait (on_bus b (bus_post t v)) n old limit w \<noteq> None"
proof -
  have "generation (wd_notifiers (on_bus b (bus_post t v) w) n) = generation (wd_notifiers w n) + 1"
    using assms
    by (simp add: on_bus_def enter_bus_def leave_bus_def bus_post_def bus_enqueue_def
        bus_notify_work_available_def EPS.defs notify_id_def notify_def wake_all_def generation_def Let_def)
  moreover have "x + 1 \<noteq> x" for x :: u64 by simp
  ultimately show ?thesis by (simp add: blocking_wait_def Let_def)
qed

lemma loop_iteration_sleep:
  assumes "loop_iteration hc should_stop w = (Sleep old limit, w')"
  obtains w0 w1 w2 where "should_stop w = (Inr False, w0)" "old = generation (wd_notifiers w0 (rl_notifier w0))"
    "loop_process_once hc w0 = (Inr 0, w1)" "\<not> loop_stop_requested w1" "should_stop w1 = (Inr False, w2)"
    "\<not> has_ready_or_pending_work w2" "next_task_wait w2 = (limit, w')" "\<forall>d. limit = Some d \<longrightarrow> 0 < d"
  using assms
  by (auto simp: loop_iteration_def Let_def split: if_splits prod.splits sum.splits bool.splits option.splits)

text \<open>
  C38: the run loop goes to sleep only when there is nothing to do. When an iteration ends in a wait,
  every registered bus has an empty queue, no registered task manager has ready work, and the wait is
  limited by every pending deadline; the generation it waits on was read
  before the sources were processed, and a post to a wired bus wakes it.
\<close>

theorem loop_sleeps_only_idle:
  assumes "loop_iteration hc should_stop w = (Sleep old limit, w')"
  shows "(\<forall>b \<in> set (rl_buses w'). bus_queue (wd_buses w' b) = []) \<and>
    (\<forall>t \<in> set (rl_task_managers w'). \<not> has_ready (wd_tms w' t)) \<and>
    (\<forall>t \<in> set (rl_task_managers w'). \<forall>dl. tm_deadline t w' = Some dl \<longrightarrow>
       (\<exists>d. limit = Some d \<and> 0 < d \<and> d \<le> dl - wd_clock w' (wd_reads w' - 1))) \<and>
    (\<exists>w0. should_stop w = (Inr False, w0) \<and> old = generation (wd_notifiers w0 (rl_notifier w0))) \<and>
    (\<forall>b t v. bus_notifier (wd_buses w' b) = Some (rl_notifier w') \<and> bus_notified (wd_buses w' b) = [] \<longrightarrow>
       blocking_wait (on_bus b (bus_post t v)) (rl_notifier w') old limit w' \<noteq> None)"
proof -
  obtain w0 w1 w2 where i: "should_stop w = (Inr False, w0)" "old = generation (wd_notifiers w0 (rl_notifier w0))"
    "loop_process_once hc w0 = (Inr 0, w1)" "\<not> loop_stop_requested w1" "should_stop w1 = (Inr False, w2)"
    "\<not> has_ready_or_pending_work w2" "next_task_wait w2 = (limit, w')" "\<forall>d. limit = Some d \<longrightarrow> 0 < d"
    using loop_iteration_sleep [OF assms] by metis
  note l = next_task_wait_spec(1) [OF i(7)]
  have more: "WORLD.more w' = WORLD.more w2" using l by (simp add: looked_def)
  note f = loop_fields_more [OF this]
  have "(\<forall>b \<in> set (rl_buses w'). bus_queue (wd_buses w' b) = []) \<and>
    (\<forall>t \<in> set (rl_task_managers w'). \<not> has_ready (wd_tms w' t))"
    using i(6) l f
    by (simp add: has_ready_or_pending_work_def list_ex_iff world_bus_has_pending_def world_tm_has_ready_def
        looked_def bus_has_pending_def bus_pending_count_def)
  moreover have "\<exists>d. limit = Some d \<and> 0 < d \<and> d \<le> dl - wd_clock w' (wd_reads w' - 1)"
    if "t \<in> set (rl_task_managers w')" "tm_deadline t w' = Some dl" for t dl
  proof -
    have "tm_deadline t w2 = Some dl" using that(2) l by (simp add: looked_def tm_deadline_def)
    then show ?thesis
      using next_task_wait_spec(2) [OF i(7), of t dl] that(1) f i(8) l by (auto simp: looked_def)
  qed
  ultimately show ?thesis using i(1,2) by (simp add: loop_post_wakes)
qed


section \<open>Stopping\<close>

interpretation rl: stoppable_loop "loop_iteration hc should_stop" loop_stop_requested for hc should_stop
  by unfold_locales (simp add: loop_iteration_def)

lemma rl_fields_notify [simp]:
  "rl_stop_requested (notify_id n w) = rl_stop_requested w" "rl_notifier (notify_id n w) = rl_notifier w"
  by (simp_all add: notify_id_def)

lemma generation_notify_id: "generation (wd_notifiers (notify_id n w) n) = generation (wd_notifiers w n) + 1"
  by (simp add: notify_id_def generation_def notify_def wake_all_def)

lemma request_stop_wakes:
  fixes w :: "('v, 'u, 'h, 'k, 'z) LOOP_scheme"
  assumes "others w = loop_request_stop w" "generation (wd_notifiers w (rl_notifier w)) = old"
  shows "blocking_wait others (rl_notifier w) old limit w = Some (loop_request_stop w)"
  using assms generation_notify_id [of "rl_notifier w" "w\<lparr>rl_stop_requested := True\<rparr>"]
  by (simp add: blocking_wait_def loop_request_stop_def Let_def)

text \<open>
  C39: a stop request ends \<open>run_until\<close>: requested before, the loop returns at once; requested by a
  callback during an iteration, it returns after that iteration without sleeping; requested by another
  thread while the loop sleeps, it wakes up and returns, even from a wait without a limit.
\<close>

theorem stop_request_returns:
  "(loop_stop_requested w \<longrightarrow> run_until hc others should_stop (Suc fuel) w = Some (None, w)) \<and>
   (loop_iteration hc should_stop w = (Again, w1) \<and> loop_stop_requested w1 \<longrightarrow>
      run_until hc others should_stop (Suc (Suc fuel)) w = Some (None, w1)) \<and>
   (loop_iteration hc should_stop w = (Sleep old limit, w1) \<and> others w1 = loop_request_stop w1 \<and>
    generation (wd_notifiers w1 (rl_notifier w1)) = old \<longrightarrow>
      run_until hc others should_stop (Suc (Suc fuel)) w = Some (None, loop_request_stop w1))"
proof -
  have stop: "loop_stop_requested (loop_request_stop w1)"
    by (simp add: loop_stop_requested_def loop_request_stop_def)
  have "run_until hc others should_stop (Suc (Suc fuel)) w = Some (None, w1)"
    if "loop_iteration hc should_stop w = (Again, w1)" "loop_stop_requested w1"
    unfolding run_until_def by (rule rl.stop_during_iteration [OF that]) simp
  moreover have "run_until hc others should_stop (Suc (Suc fuel)) w = Some (None, loop_request_stop w1)"
    if "loop_iteration hc should_stop w = (Sleep old limit, w1)" "others w1 = loop_request_stop w1"
      "generation (wd_notifiers w1 (rl_notifier w1)) = old"
    unfolding run_until_def
    using request_stop_wakes [where others = others, OF that(2,3)]
    by (intro rl.stop_while_sleeping [OF that(1) _ stop]) simp
  ultimately show ?thesis
    unfolding run_until_def using rl.stopped_leaves by blast
qed

section \<open>A loop with one bus\<close>

definition idle_bus :: "nat option \<Rightarrow> (nat, nat, nat) EPS" where
  "idle_bus n =
     \<lparr> w_strong = (\<lambda>_. 0), w_clock = (\<lambda>n. int n), w_reads = 0, bus_callbacks = Map.empty, bus_queue = [],
       bus_awaiters = [], bus_handler = None, bus_next_subscription = 1, bus_request_ids = 1, bus_notifier = n,
       bus_notified = [], aw_store = Map.empty, aw_next_object = 1, aw_tokens = [], aw_futures = [],
       eps_store = (\<lambda>_. \<lparr> ep_guard = None, ep_closed = True, ep_awaiters = [] \<rparr>) \<rparr>"

definition idle_loop :: "(nat, nat, nat, nat) LOOP" where
  "idle_loop =
     \<lparr> wd_buses = (\<lambda>_. idle_bus (Some 4)), wd_tms = (\<lambda>_. TaskManager_init (Some 4)),
       wd_notifiers = (\<lambda>_. SyncNotifier_init), wd_clock = (\<lambda>n. int n), wd_task_clock = (\<lambda>_ _. (0, 0)), wd_reads = 0,
       rl_notifier = 4, rl_buses = [2], rl_task_managers = [], rl_max_tasks = 128, rl_stop_requested = False \<rparr>"

definition inert_code :: "(nat, nat, nat, nat, (nat, nat, nat, nat) LOOP) hub_code" where
  "inert_code = \<lparr> hc_call = (\<lambda>u v w. (w, None)), hc_listener = (\<lambda>u v w. (w, None)),
     hc_pred = (\<lambda>u v w. (Inr True, w)), hc_thunk = (\<lambda>u w. (w, None)), hc_handler = (\<lambda>h x w. (w, None)),
     hc_get_id = of_nat, hc_set_id = (\<lambda>i v. unat i), hc_task = (\<lambda>k c w. (w, None)),
     hc_task_handler = (\<lambda>k x w. (w, None)) \<rparr>"

lemma idle_iteration:
  "loop_iteration hc (\<lambda>w. (Inr False, w)) idle_loop = (Sleep 0 None, idle_loop\<lparr>wd_reads := 1\<rparr>)"
proof -
  have "world_bus_process hc 2 idle_loop = (Inr 0, idle_loop)"
    by (simp add: world_bus_process_def bus_process_def enter_bus_def leave_bus_def idle_loop_def idle_bus_def
        poll_awaiters_def EPS.defs Let_def fun_eq_iff)
  then show ?thesis
    by (simp add: loop_iteration_def loop_process_once_def idle_loop_def loop_stop_requested_def has_ready_or_pending_work_def
        world_bus_has_pending_def bus_has_pending_def bus_pending_count_def idle_bus_def next_task_wait_def read_clock_def
        generation_def SyncNotifier_init_def Let_def)
qed

theorem loop_sleeps_only_idle_witness:
  "blocking_wait (on_bus 2 (bus_post 3 9)) 4 0 None (idle_loop\<lparr>wd_reads := 1\<rparr>) \<noteq> None"
  using loop_sleeps_only_idle [OF idle_iteration] by (simp add: idle_loop_def idle_bus_def)

theorem stop_request_returns_witness:
  "run_until inert_code loop_request_stop (\<lambda>w. (Inr False, w)) 2 idle_loop =
     Some (None, loop_request_stop (idle_loop\<lparr>wd_reads := 1\<rparr>))"
proof -
  have "generation (wd_notifiers (idle_loop\<lparr>wd_reads := 1\<rparr>) (rl_notifier (idle_loop\<lparr>wd_reads := 1\<rparr>))) = 0"
    by (simp add: idle_loop_def generation_def SyncNotifier_init_def)
  then show ?thesis
    using stop_request_returns idle_iteration [of inert_code] unfolding numeral_2_eq_2 by blast
qed

end
