(* ===== verification/Module.thy ===== *)
theory Module
  imports Hub_World
begin

text \<open>
  \<^verbatim>\<open>Module\<close> (\<^verbatim>\<open>module.hpp\<close>): a node, a task manager, an optional worker thread and life-cycle hooks. Modules live
  in a store by number; their fields extend the world so that hooks and callbacks reach them. The
  hooks a subclass overrides are the record \<open>module_hooks\<close>. A worker thread is the
  function \<open>run_worker_loop\<close>, whose iterations interleave with the others by their
  \<open>others\<close> parameters; \<open>mod_worker\<close> says whether a thread object is joinable. A join follows a stop request
  in the same critical phase, so the joined worker has nothing left to do but leave its loop.
\<close>

section \<open>Data\<close>

datatype ModuleExecutionMode = inline_in_hub | private_thread | manual

record ModuleOptions =
  mo_execution :: ModuleExecutionMode
  mo_max_tasks :: u64

definition ModuleOptions_init :: ModuleOptions where
  "ModuleOptions_init = \<lparr> mo_execution = inline_in_hub, mo_max_tasks = 64 \<rparr>"

definition normalize_options :: "ModuleOptions \<Rightarrow> ModuleOptions" where
  "normalize_options options =
     (if mo_max_tasks options = 0 then options\<lparr>mo_max_tasks := 1\<rparr> else options)"

datatype thread = Main_thread | Hub_thread | Worker_thread nat

record Module =
  mod_bus :: nat
  mod_endpoint :: nat
  mod_tasks :: nat
  mod_options :: ModuleOptions
  mod_initialized :: bool
  mod_stopping :: bool
  mod_stopped :: bool
  mod_worker_notifier :: nat
  mod_worker :: bool
  mod_worker_stop_requested :: bool
  mod_exception_notifier :: "nat option"
  mod_worker_exception :: "exn option"

record ('v, 'u, 'h, 'k) MODULES = "('v, 'u, 'h, 'k) WORLD" +
  md_store :: "nat \<Rightarrow> Module"
  md_this_thread :: thread

text \<open>The virtual hooks; \<^verbatim>\<open>on_shutdown\<close> is \<^verbatim>\<open>noexcept\<close>, \<^verbatim>\<open>next_deadline_hint\<close> is \<^verbatim>\<open>const\<close>.\<close>

record 's module_hooks =
  mh_initialize :: "nat \<Rightarrow> 's \<Rightarrow> 's \<times> exn option"
  mh_process :: "nat \<Rightarrow> 's \<Rightarrow> (exn + nat) \<times> 's"
  mh_shutdown :: "nat \<Rightarrow> 's \<Rightarrow> 's"
  mh_deadline :: "nat \<Rightarrow> 's \<Rightarrow> exn + time option"

text \<open>The hooks of the base class.\<close>

definition default_hooks :: "'s module_hooks" where
  "default_hooks = \<lparr> mh_initialize = (\<lambda>m s. (s, None)), mh_process = (\<lambda>m s. (Inr 0, s)),
     mh_shutdown = (\<lambda>m s. s), mh_deadline = (\<lambda>m s. Inr None) \<rparr>"

definition md_update ::
  "nat \<Rightarrow> (Module \<Rightarrow> Module) \<Rightarrow> ('v, 'u, 'h, 'k, 'z) MODULES_scheme \<Rightarrow> ('v, 'u, 'h, 'k, 'z) MODULES_scheme"
where
  "md_update m f w = w\<lparr>md_store := (md_store w)(m := f (md_store w m))\<rparr>"

text \<open>Constructing module \<open>m\<close> on bus \<open>b\<close>, with its endpoint \<open>e\<close>, task manager \<open>t\<close> and worker notifier \<open>n\<close>.\<close>

definition Module_init ::
  "nat \<Rightarrow> nat \<Rightarrow> nat \<Rightarrow> nat \<Rightarrow> nat \<Rightarrow> ModuleOptions \<Rightarrow> ('v, 'u, 'h, 'k, 'z) MODULES_scheme
     \<Rightarrow> ('v, 'u, 'h, 'k, 'z) MODULES_scheme"
where
  "Module_init m b e t n options w =
     (let w = on_bus b (EventEndpoint_init e) w;
          w = w\<lparr>wd_tms := (wd_tms w)(t := TaskManager_init None),
                wd_notifiers := (wd_notifiers w)(n := SyncNotifier_init)\<rparr>
      in md_update m (\<lambda>_. \<lparr> mod_bus = b, mod_endpoint = e, mod_tasks = t, mod_options = normalize_options options,
           mod_initialized = False, mod_stopping = False, mod_stopped = False, mod_worker_notifier = n,
           mod_worker = False, mod_worker_stop_requested = False, mod_exception_notifier = None,
           mod_worker_exception = None \<rparr>) w)"

definition mod_execution_mode :: "nat \<Rightarrow> ('v, 'u, 'h, 'k, 'z) MODULES_scheme \<Rightarrow> ModuleExecutionMode" where
  "mod_execution_mode m w = mo_execution (mod_options (md_store w m))"

definition mod_max_tasks_per_process :: "nat \<Rightarrow> ('v, 'u, 'h, 'k, 'z) MODULES_scheme \<Rightarrow> u64" where
  "mod_max_tasks_per_process m w = mo_max_tasks (mod_options (md_store w m))"

definition mod_is_initialized :: "nat \<Rightarrow> ('v, 'u, 'h, 'k, 'z) MODULES_scheme \<Rightarrow> bool" where
  "mod_is_initialized m w = mod_initialized (md_store w m)"

definition mod_is_stopping :: "nat \<Rightarrow> ('v, 'u, 'h, 'k, 'z) MODULES_scheme \<Rightarrow> bool" where
  "mod_is_stopping m w = mod_stopping (md_store w m)"

definition mod_is_stopped :: "nat \<Rightarrow> ('v, 'u, 'h, 'k, 'z) MODULES_scheme \<Rightarrow> bool" where
  "mod_is_stopped m w = mod_stopped (md_store w m)"

section \<open>The exception of the worker\<close>

definition set_worker_exception_notifier ::
  "nat \<Rightarrow> nat option \<Rightarrow> ('v, 'u, 'h, 'k, 'z) MODULES_scheme \<Rightarrow> ('v, 'u, 'h, 'k, 'z) MODULES_scheme"
where
  "set_worker_exception_notifier m n w = md_update m (\<lambda>d. d\<lparr>mod_exception_notifier := n\<rparr>) w"

definition clear_worker_exception :: "nat \<Rightarrow> ('v, 'u, 'h, 'k, 'z) MODULES_scheme \<Rightarrow> ('v, 'u, 'h, 'k, 'z) MODULES_scheme" where
  "clear_worker_exception m w = md_update m (\<lambda>d. d\<lparr>mod_worker_exception := None\<rparr>) w"

definition store_worker_exception ::
  "nat \<Rightarrow> exn \<Rightarrow> ('v, 'u, 'h, 'k, 'z) MODULES_scheme \<Rightarrow> ('v, 'u, 'h, 'k, 'z) MODULES_scheme"
where
  "store_worker_exception m x w =
     (if mod_worker_exception (md_store w m) = None
      then md_update m (\<lambda>d. d\<lparr>mod_worker_exception := Some x\<rparr>) w else w)"

definition rethrow_worker_exception ::
  "nat \<Rightarrow> ('v, 'u, 'h, 'k, 'z) MODULES_scheme \<Rightarrow> exn option \<times> ('v, 'u, 'h, 'k, 'z) MODULES_scheme"
where
  "rethrow_worker_exception m w =
     (mod_worker_exception (md_store w m), md_update m (\<lambda>d. d\<lparr>mod_worker_exception := None\<rparr>) w)"

definition notify_worker_exception :: "nat \<Rightarrow> ('v, 'u, 'h, 'k, 'z) MODULES_scheme \<Rightarrow> ('v, 'u, 'h, 'k, 'z) MODULES_scheme" where
  "notify_worker_exception m w =
     (case mod_exception_notifier (md_store w m) of None \<Rightarrow> w | Some n \<Rightarrow> notify_id n w)"

section \<open>The worker\<close>

definition start_worker :: "nat \<Rightarrow> ('v, 'u, 'h, 'k, 'z) MODULES_scheme \<Rightarrow> ('v, 'u, 'h, 'k, 'z) MODULES_scheme" where
  "start_worker m w =
     (if mod_execution_mode m w \<noteq> private_thread then w
      else if mod_worker (md_store w m) then w
      else let w = clear_worker_exception m w;
               w = md_update m (\<lambda>d. d\<lparr>mod_worker_stop_requested := False\<rparr>) w;
               w = on_tm (mod_tasks (md_store w m)) (set_notifier (Some (mod_worker_notifier (md_store w m)))) w
           in md_update m (\<lambda>d. d\<lparr>mod_worker := True\<rparr>) w)"

definition request_worker_stop :: "nat \<Rightarrow> ('v, 'u, 'h, 'k, 'z) MODULES_scheme \<Rightarrow> ('v, 'u, 'h, 'k, 'z) MODULES_scheme" where
  "request_worker_stop m w =
     notify_id (mod_worker_notifier (md_store w m)) (md_update m (\<lambda>d. d\<lparr>mod_worker_stop_requested := True\<rparr>) w)"

definition worker_stop_requested :: "nat \<Rightarrow> ('v, 'u, 'h, 'k, 'z) MODULES_scheme \<Rightarrow> bool" where
  "worker_stop_requested m w = mod_worker_stop_requested (md_store w m)"

definition join_worker ::
  "nat \<Rightarrow> ('v, 'u, 'h, 'k, 'z) MODULES_scheme \<Rightarrow> exn option \<times> ('v, 'u, 'h, 'k, 'z) MODULES_scheme"
where
  "join_worker m w =
     (if mod_worker (md_store w m) \<and> md_this_thread w = Worker_thread m
      then (Some (Logic_error ''Module cannot join its own worker''), w)
      else let w = md_update m (\<lambda>d. d\<lparr>mod_worker := False\<rparr>) w;
               w = on_tm (mod_tasks (md_store w m)) reset_notifier w
           in rethrow_worker_exception m w)"

definition join_worker_noexcept :: "nat \<Rightarrow> ('v, 'u, 'h, 'k, 'z) MODULES_scheme \<Rightarrow> ('v, 'u, 'h, 'k, 'z) MODULES_scheme" where
  "join_worker_noexcept m w =
     (let w = (if mod_worker (md_store w m) \<and> md_this_thread w \<noteq> Worker_thread m
               then md_update m (\<lambda>d. d\<lparr>mod_worker := False\<rparr>) w else w)
      in on_tm (mod_tasks (md_store w m)) reset_notifier w)"

definition worker_iteration ::
  "('v, 'u, 'h, 'k, ('v, 'u, 'h, 'k, 'z) MODULES_scheme) hub_code \<Rightarrow> nat \<Rightarrow> ('v, 'u, 'h, 'k, 'z) MODULES_scheme
     \<Rightarrow> verdict \<times> ('v, 'u, 'h, 'k, 'z) MODULES_scheme"
where
  "worker_iteration hc m w =
     (if worker_stop_requested m w then (Leave, w)
      else let old = generation (wd_notifiers w (mod_worker_notifier (md_store w m)));
               t = mod_tasks (md_store w m)
           in case world_tm_process hc (unat (mod_max_tasks_per_process m w)) t w of
                (Inl x, w) \<Rightarrow> (Fail x, w)
              | (Inr work_done, w) \<Rightarrow>
                  if work_done \<noteq> 0 then (Again, w)
                  else if worker_stop_requested m w then (Leave, w)
                  else if world_tm_has_ready t w then (Again, w)
                  else (case world_tm_next_deadline t w of
                          (None, w) \<Rightarrow> (Sleep old None, w)
                        | (Some deadline, w) \<Rightarrow>
                            (let (now, w) = read_clock w
                             in if deadline \<le> now then (Again, w) else (Sleep old (Some (deadline - now)), w))))"

text \<open>The body of the worker thread; \<open>None\<close> when it does not end within the fuel.\<close>

definition run_worker_loop ::
  "('v, 'u, 'h, 'k, ('v, 'u, 'h, 'k, 'z) MODULES_scheme) hub_code \<Rightarrow>
   (('v, 'u, 'h, 'k, 'z) MODULES_scheme \<Rightarrow> ('v, 'u, 'h, 'k, 'z) MODULES_scheme) \<Rightarrow> nat \<Rightarrow> nat \<Rightarrow>
   ('v, 'u, 'h, 'k, 'z) MODULES_scheme \<Rightarrow> ('v, 'u, 'h, 'k, 'z) MODULES_scheme option"
where
  "run_worker_loop hc others fuel m w =
     (let thread = md_this_thread w;
          wait = (\<lambda>old limit w. blocking_wait others (mod_worker_notifier (md_store w m)) old limit w)
      in case drive (worker_iteration hc m) wait fuel (w\<lparr>md_this_thread := Worker_thread m\<rparr>) of
           None \<Rightarrow> None
         | Some (None, w) \<Rightarrow> Some (w\<lparr>md_this_thread := thread\<rparr>)
         | Some (Some x, w) \<Rightarrow>
             (let w = store_worker_exception m x w;
                  w = md_update m (\<lambda>d. d\<lparr>mod_worker_stop_requested := True\<rparr>) w
              in Some ((notify_worker_exception m w)\<lparr>md_this_thread := thread\<rparr>)))"

section \<open>The life cycle\<close>

definition mod_initialize ::
  "('v, 'u, 'h, 'k, 'z) MODULES_scheme module_hooks \<Rightarrow> nat \<Rightarrow> ('v, 'u, 'h, 'k, 'z) MODULES_scheme
     \<Rightarrow> exn option \<times> ('v, 'u, 'h, 'k, 'z) MODULES_scheme"
where
  "mod_initialize hooks m w =
     (if mod_is_initialized m w then (None, w)
      else if mod_is_stopping m w \<or> mod_is_stopped m w
           then (Some (Logic_error ''Module cannot be initialized after shutdown''), w)
      else case mh_initialize hooks m w of
             (w, Some x) \<Rightarrow> (Some x, w)
           | (w, None) \<Rightarrow> (None, md_update m (\<lambda>d. d\<lparr>mod_initialized := True\<rparr>) w))"

definition mod_process ::
  "('v, 'u, 'h, 'k, 'z) MODULES_scheme module_hooks \<Rightarrow> nat \<Rightarrow> ('v, 'u, 'h, 'k, 'z) MODULES_scheme
     \<Rightarrow> (exn + nat) \<times> ('v, 'u, 'h, 'k, 'z) MODULES_scheme"
where
  "mod_process hooks m w =
     (case rethrow_worker_exception m w of
        (Some x, w) \<Rightarrow> (Inl x, w)
      | (None, w) \<Rightarrow>
          if \<not> mod_is_initialized m w \<or> mod_is_stopping m w \<or> mod_is_stopped m w then (Inr 0, w)
          else mh_process hooks m w)"

definition mod_deadline_hint ::
  "('v, 'u, 'h, 'k, 'z) MODULES_scheme module_hooks \<Rightarrow> nat \<Rightarrow> ('v, 'u, 'h, 'k, 'z) MODULES_scheme
     \<Rightarrow> exn + time option"
where
  "mod_deadline_hint hooks m w = mh_deadline hooks m w"

definition mod_shutdown ::
  "('v, 'u, 'h, 'k, 'z) MODULES_scheme module_hooks \<Rightarrow> nat \<Rightarrow> ('v, 'u, 'h, 'k, 'z) MODULES_scheme
     \<Rightarrow> ('v, 'u, 'h, 'k, 'z) MODULES_scheme"
where
  "mod_shutdown hooks m w =
     (if mod_is_stopped m w then w
      else if mod_is_stopping m w then w
      else let w = md_update m (\<lambda>d. d\<lparr>mod_stopping := True\<rparr>) w;
               w = request_worker_stop m w;
               w = join_worker_noexcept m w;
               w = (if mod_is_initialized m w then mh_shutdown hooks m w else w);
               w = on_tm (mod_tasks (md_store w m)) close w;
               w = on_tm (mod_tasks (md_store w m)) (\<lambda>s. snd (clear_pending s)) w;
               w = on_bus (mod_bus (md_store w m)) (ep_close (mod_endpoint (md_store w m))) w
           in md_update m (\<lambda>d. d\<lparr>mod_initialized := False, mod_stopped := True, mod_stopping := False\<rparr>) w)"

end
