(* ===== verification/Module_Hub.thy ===== *)
theory Module_Hub
  imports Module
begin

text \<open>
  \<^verbatim>\<open>ModuleHub\<close> (\<^verbatim>\<open>module_hub.hpp\<close>): a bus, the modules in registration order, and the blocking loop. The hub's
  fields extend the modules' world. A null module pointer is \<open>None\<close>.
\<close>

record ('v, 'u, 'h, 'k) HUB = "('v, 'u, 'h, 'k) MODULES" +
  hub_bus :: nat
  hub_modules :: "nat list"
  hub_local_notifier :: nat
  hub_notifier :: "nat option"
  hub_initialized :: bool
  hub_stop_requested :: bool
  hub_running :: bool
  hub_thread :: bool
  hub_background_exception :: "exn option"

section \<open>Notifiers\<close>

definition wire_module_notifier ::
  "nat \<Rightarrow> nat option \<Rightarrow> ('v, 'u, 'h, 'k, 'z) MODULES_scheme \<Rightarrow> ('v, 'u, 'h, 'k, 'z) MODULES_scheme"
where
  "wire_module_notifier m n w =
     (let w = set_worker_exception_notifier m n w
      in if mod_execution_mode m w \<noteq> inline_in_hub then w
         else on_tm (mod_tasks (md_store w m))
                (case n of Some n \<Rightarrow> set_notifier (Some n) | None \<Rightarrow> reset_notifier) w)"

definition wire_sources_notifier ::
  "nat option \<Rightarrow> ('v, 'u, 'h, 'k, 'z) HUB_scheme \<Rightarrow> ('v, 'u, 'h, 'k, 'z) HUB_scheme"
where
  "wire_sources_notifier n w =
     (let w = on_bus (hub_bus w) (case n of Some n \<Rightarrow> bus_set_notifier (Some n) | None \<Rightarrow> bus_reset_notifier) w
      in fold (\<lambda>m. wire_module_notifier m n) (hub_modules w) w)"

definition hub_set_notifier :: "nat option \<Rightarrow> ('v, 'u, 'h, 'k, 'z) HUB_scheme \<Rightarrow> ('v, 'u, 'h, 'k, 'z) HUB_scheme" where
  "hub_set_notifier n w = wire_sources_notifier n (w\<lparr>hub_notifier := n\<rparr>)"

definition hub_reset_notifier :: "('v, 'u, 'h, 'k, 'z) HUB_scheme \<Rightarrow> ('v, 'u, 'h, 'k, 'z) HUB_scheme" where
  "hub_reset_notifier w = wire_sources_notifier None (w\<lparr>hub_notifier := None\<rparr>)"

section \<open>Registration\<close>

definition add_module ::
  "nat option \<Rightarrow> ('v, 'u, 'h, 'k, 'z) HUB_scheme \<Rightarrow> exn option \<times> ('v, 'u, 'h, 'k, 'z) HUB_scheme"
where
  "add_module mo w =
     (case mo of
        None \<Rightarrow> (Some (Invalid_argument ''ModuleHub cannot add a null module''), w)
      | Some m \<Rightarrow>
          if hub_initialized w \<or> hub_running w
          then (Some (Logic_error ''ModuleHub modules must be added before initialization''), w)
          else if mod_bus (md_store w m) \<noteq> hub_bus w
          then (Some (Invalid_argument ''ModuleHub module is connected to a different EventBus''), w)
          else let w = wire_module_notifier m (hub_notifier w) w
               in (None, w\<lparr>hub_modules := hub_modules w @ [m]\<rparr>))"

definition emplace_module ::
  "nat \<Rightarrow> nat \<Rightarrow> nat \<Rightarrow> nat \<Rightarrow> ModuleOptions \<Rightarrow> ('v, 'u, 'h, 'k, 'z) HUB_scheme
     \<Rightarrow> exn option \<times> ('v, 'u, 'h, 'k, 'z) HUB_scheme"
where
  "emplace_module m e t n options w = add_module (Some m) (Module_init m (hub_bus w) e t n options w)"

definition module_count :: "('v, 'u, 'h, 'k, 'z) HUB_scheme \<Rightarrow> nat" where
  "module_count w = length (hub_modules w)"

section \<open>Initialising and stopping\<close>

fun init_modules ::
  "('v, 'u, 'h, 'k, 'z) MODULES_scheme module_hooks \<Rightarrow> nat list \<Rightarrow> ('v, 'u, 'h, 'k, 'z) MODULES_scheme
     \<Rightarrow> exn option \<times> ('v, 'u, 'h, 'k, 'z) MODULES_scheme"
where
  "init_modules hooks [] w = (None, w)"
| "init_modules hooks (m # ms) w =
     (case mod_initialize hooks m w of
        (Some x, w) \<Rightarrow> (Some x, w)
      | (None, w) \<Rightarrow> init_modules hooks ms w)"

text \<open>Stopping and joining the workers, then shutting the modules down in reverse order.\<close>

definition shutdown_modules ::
  "('v, 'u, 'h, 'k, 'z) HUB_scheme module_hooks \<Rightarrow> ('v, 'u, 'h, 'k, 'z) HUB_scheme \<Rightarrow> ('v, 'u, 'h, 'k, 'z) HUB_scheme"
where
  "shutdown_modules hooks w =
     (let w = fold request_worker_stop (hub_modules w) w;
          w = fold join_worker_noexcept (hub_modules w) w
      in fold (mod_shutdown hooks) (rev (hub_modules w)) w)"

definition hub_initialize ::
  "('v, 'u, 'h, 'k, 'z) HUB_scheme module_hooks \<Rightarrow> ('v, 'u, 'h, 'k, 'z) HUB_scheme
     \<Rightarrow> exn option \<times> ('v, 'u, 'h, 'k, 'z) HUB_scheme"
where
  "hub_initialize hooks w =
     (if hub_initialized w then (None, w)
      else case init_modules hooks (hub_modules w) w of
             (None, w) \<Rightarrow> (None, (fold start_worker (hub_modules w) w)\<lparr>hub_initialized := True\<rparr>)
           | (Some x, w) \<Rightarrow> (Some x, shutdown_modules hooks w))"

definition hub_request_stop :: "('v, 'u, 'h, 'k, 'z) HUB_scheme \<Rightarrow> ('v, 'u, 'h, 'k, 'z) HUB_scheme" where
  "hub_request_stop w =
     (let w = w\<lparr>hub_stop_requested := True\<rparr>;
          w = (case hub_notifier w of None \<Rightarrow> w | Some n \<Rightarrow> notify_id n w);
          w = notify_id (hub_local_notifier w) w
      in fold request_worker_stop (hub_modules w) w)"

definition hub_shutdown ::
  "('v, 'u, 'h, 'k, 'z) HUB_scheme module_hooks \<Rightarrow> ('v, 'u, 'h, 'k, 'z) HUB_scheme \<Rightarrow> ('v, 'u, 'h, 'k, 'z) HUB_scheme"
where
  "hub_shutdown hooks w =
     (let w = shutdown_modules hooks (hub_request_stop w);
          w = on_bus (hub_bus w) bus_clear_pending w
      in w\<lparr>hub_initialized := False\<rparr>)"

section \<open>Processing\<close>

definition module_runs_inline :: "nat \<Rightarrow> ('v, 'u, 'h, 'k, 'z) MODULES_scheme \<Rightarrow> bool" where
  "module_runs_inline m w \<longleftrightarrow>
     \<not> (mod_execution_mode m w \<noteq> inline_in_hub \<or> \<not> mod_is_initialized m w \<or> mod_is_stopping m w \<or> mod_is_stopped m w)"

definition process_module_tasks ::
  "('v, 'u, 'h, 'k, ('v, 'u, 'h, 'k, 'z) MODULES_scheme) hub_code \<Rightarrow> nat \<Rightarrow> ('v, 'u, 'h, 'k, 'z) MODULES_scheme
     \<Rightarrow> (exn + nat) \<times> ('v, 'u, 'h, 'k, 'z) MODULES_scheme"
where
  "process_module_tasks hc m w =
     (case rethrow_worker_exception m w of
        (Some x, w) \<Rightarrow> (Inl x, w)
      | (None, w) \<Rightarrow>
          if \<not> module_runs_inline m w then (Inr 0, w)
          else world_tm_process hc (unat (mod_max_tasks_per_process m w)) (mod_tasks (md_store w m)) w)"

definition hub_process ::
  "('v, 'u, 'h, 'k, ('v, 'u, 'h, 'k, 'z) HUB_scheme) hub_code \<Rightarrow> ('v, 'u, 'h, 'k, 'z) HUB_scheme module_hooks \<Rightarrow>
   ('v, 'u, 'h, 'k, 'z) HUB_scheme \<Rightarrow> (exn + nat) \<times> ('v, 'u, 'h, 'k, 'z) HUB_scheme"
where
  "hub_process hc hooks w =
     (case world_bus_process hc (hub_bus w) w of
        (Inl x, w) \<Rightarrow> (Inl x, w)
      | (Inr n, w) \<Rightarrow>
          (case process_all (process_module_tasks hc) (hub_modules w) n w of
             (Inl x, w) \<Rightarrow> (Inl x, w)
           | (Inr n, w) \<Rightarrow> process_all (mod_process hooks) (hub_modules w) n w))"

section \<open>Pending work and deadlines\<close>

text \<open>Whether one module has work at time \<open>now\<close>.\<close>

definition module_has_pending ::
  "('v, 'u, 'h, 'k, 'z) MODULES_scheme module_hooks \<Rightarrow> time \<Rightarrow> nat \<Rightarrow> ('v, 'u, 'h, 'k, 'z) MODULES_scheme
     \<Rightarrow> (exn + bool) \<times> ('v, 'u, 'h, 'k, 'z) MODULES_scheme"
where
  "module_has_pending hooks now m w =
     (if \<not> mod_is_initialized m w \<or> mod_is_stopping m w \<or> mod_is_stopped m w then (Inr False, w)
      else let t = mod_tasks (md_store w m);
               inline = mod_execution_mode m w = inline_in_hub
           in if inline \<and> world_tm_has_ready t w then (Inr True, w)
              else let (deadline, w) = (if inline then world_tm_next_deadline t w else (None, w))
                   in if deadline \<noteq> None \<and> the deadline \<le> now then (Inr True, w)
                      else (case mod_deadline_hint hooks m w of
                              Inl x \<Rightarrow> (Inl x, w)
                            | Inr None \<Rightarrow> (Inr False, w)
                            | Inr (Some d) \<Rightarrow> (Inr (d \<le> now), w)))"

fun modules_have_pending ::
  "('v, 'u, 'h, 'k, 'z) MODULES_scheme module_hooks \<Rightarrow> time \<Rightarrow> nat list \<Rightarrow> ('v, 'u, 'h, 'k, 'z) MODULES_scheme
     \<Rightarrow> (exn + bool) \<times> ('v, 'u, 'h, 'k, 'z) MODULES_scheme"
where
  "modules_have_pending hooks now [] w = (Inr False, w)"
| "modules_have_pending hooks now (m # ms) w =
     (case module_has_pending hooks now m w of
        (Inl x, w) \<Rightarrow> (Inl x, w)
      | (Inr True, w) \<Rightarrow> (Inr True, w)
      | (Inr False, w) \<Rightarrow> modules_have_pending hooks now ms w)"

definition hub_has_pending ::
  "('v, 'u, 'h, 'k, 'z) HUB_scheme module_hooks \<Rightarrow> ('v, 'u, 'h, 'k, 'z) HUB_scheme
     \<Rightarrow> (exn + bool) \<times> ('v, 'u, 'h, 'k, 'z) HUB_scheme"
where
  "hub_has_pending hooks w =
     (if world_bus_has_pending (hub_bus w) w then (Inr True, w)
      else let (now, w) = read_clock w in modules_have_pending hooks now (hub_modules w) w)"

definition update_best_deadline :: "time option \<Rightarrow> time option \<Rightarrow> time option" where
  "update_best_deadline best candidate =
     (case candidate of
        None \<Rightarrow> best
      | Some c \<Rightarrow> (case best of None \<Rightarrow> Some c | Some b \<Rightarrow> if c < b then Some c else best))"

fun modules_deadline ::
  "('v, 'u, 'h, 'k, 'z) MODULES_scheme module_hooks \<Rightarrow> nat list \<Rightarrow> time option \<Rightarrow> ('v, 'u, 'h, 'k, 'z) MODULES_scheme
     \<Rightarrow> (exn + time option) \<times> ('v, 'u, 'h, 'k, 'z) MODULES_scheme"
where
  "modules_deadline hooks [] best w = (Inr best, w)"
| "modules_deadline hooks (m # ms) best w =
     (if \<not> mod_is_initialized m w \<or> mod_is_stopping m w \<or> mod_is_stopped m w
      then modules_deadline hooks ms best w
      else let (deadline, w) = (if mod_execution_mode m w = inline_in_hub
                                then world_tm_next_deadline (mod_tasks (md_store w m)) w else (None, w));
               best = update_best_deadline best deadline
           in case mod_deadline_hint hooks m w of
                Inl x \<Rightarrow> (Inl x, w)
              | Inr hint \<Rightarrow> modules_deadline hooks ms (update_best_deadline best hint) w)"

definition hub_next_deadline ::
  "('v, 'u, 'h, 'k, 'z) HUB_scheme module_hooks \<Rightarrow> ('v, 'u, 'h, 'k, 'z) HUB_scheme
     \<Rightarrow> (exn + time option) \<times> ('v, 'u, 'h, 'k, 'z) HUB_scheme"
where
  "hub_next_deadline hooks w = modules_deadline hooks (hub_modules w) None w"

section \<open>The blocking loop\<close>

definition hub_iteration ::
  "('v, 'u, 'h, 'k, ('v, 'u, 'h, 'k, 'z) HUB_scheme) hub_code \<Rightarrow> ('v, 'u, 'h, 'k, 'z) HUB_scheme module_hooks \<Rightarrow>
   ('v, 'u, 'h, 'k, 'z) HUB_scheme \<Rightarrow> verdict \<times> ('v, 'u, 'h, 'k, 'z) HUB_scheme"
where
  "hub_iteration hc hooks w =
     (if hub_stop_requested w then (Leave, w)
      else let old = generation (wd_notifiers w (hub_local_notifier w))
           in case hub_process hc hooks w of
                (Inl x, w) \<Rightarrow> (Fail x, w)
              | (Inr work_done, w) \<Rightarrow>
                  if work_done \<noteq> 0 then (Again, w)
                  else if hub_stop_requested w then (Leave, w)
                  else case hub_has_pending hooks w of
                    (Inl x, w) \<Rightarrow> (Fail x, w)
                  | (Inr True, w) \<Rightarrow> (Again, w)
                  | (Inr False, w) \<Rightarrow>
                      (case hub_next_deadline hooks w of
                         (Inl x, w) \<Rightarrow> (Fail x, w)
                       | (Inr None, w) \<Rightarrow> (Sleep old None, w)
                       | (Inr (Some deadline), w) \<Rightarrow>
                           (let (now, w) = read_clock w
                            in if deadline \<le> now then (Again, w) else (Sleep old (Some (deadline - now)), w))))"

definition hub_run_loop ::
  "('v, 'u, 'h, 'k, ('v, 'u, 'h, 'k, 'z) HUB_scheme) hub_code \<Rightarrow> ('v, 'u, 'h, 'k, 'z) HUB_scheme module_hooks \<Rightarrow>
   (('v, 'u, 'h, 'k, 'z) HUB_scheme \<Rightarrow> ('v, 'u, 'h, 'k, 'z) HUB_scheme) \<Rightarrow> nat \<Rightarrow>
   ('v, 'u, 'h, 'k, 'z) HUB_scheme \<Rightarrow> (exn option \<times> ('v, 'u, 'h, 'k, 'z) HUB_scheme) option"
where
  "hub_run_loop hc hooks others fuel w =
     drive (hub_iteration hc hooks) (\<lambda>old limit w. blocking_wait others (hub_local_notifier w) old limit w) fuel w"

text \<open>What \<open>run\<close> and the background thread have in common: wire, initialise and loop.\<close>

definition hub_serve ::
  "('v, 'u, 'h, 'k, ('v, 'u, 'h, 'k, 'z) HUB_scheme) hub_code \<Rightarrow> ('v, 'u, 'h, 'k, 'z) HUB_scheme module_hooks \<Rightarrow>
   (('v, 'u, 'h, 'k, 'z) HUB_scheme \<Rightarrow> ('v, 'u, 'h, 'k, 'z) HUB_scheme) \<Rightarrow> nat \<Rightarrow>
   ('v, 'u, 'h, 'k, 'z) HUB_scheme \<Rightarrow> (exn option \<times> ('v, 'u, 'h, 'k, 'z) HUB_scheme) option"
where
  "hub_serve hc hooks others fuel w =
     (case hub_initialize hooks (hub_set_notifier (Some (hub_local_notifier w)) w) of
        (Some x, w) \<Rightarrow> Some (Some x, w)
      | (None, w) \<Rightarrow> hub_run_loop hc hooks others fuel w)"

definition clear_background_exception :: "('v, 'u, 'h, 'k, 'z) HUB_scheme \<Rightarrow> ('v, 'u, 'h, 'k, 'z) HUB_scheme" where
  "clear_background_exception w = w\<lparr>hub_background_exception := None\<rparr>"

text \<open>The exception leaves \<open>run\<close> after the same shutdown as a normal return.\<close>

definition hub_run ::
  "('v, 'u, 'h, 'k, ('v, 'u, 'h, 'k, 'z) HUB_scheme) hub_code \<Rightarrow> ('v, 'u, 'h, 'k, 'z) HUB_scheme module_hooks \<Rightarrow>
   (('v, 'u, 'h, 'k, 'z) HUB_scheme \<Rightarrow> ('v, 'u, 'h, 'k, 'z) HUB_scheme) \<Rightarrow> nat \<Rightarrow>
   ('v, 'u, 'h, 'k, 'z) HUB_scheme \<Rightarrow> (exn option \<times> ('v, 'u, 'h, 'k, 'z) HUB_scheme) option"
where
  "hub_run hc hooks others fuel w =
     (if hub_running w then Some (Some (Logic_error ''ModuleHub is already running''), w)
      else let w = clear_background_exception (w\<lparr>hub_running := True\<rparr>);
               w = w\<lparr>hub_stop_requested := False\<rparr>
           in case hub_serve hc hooks others fuel w of
                None \<Rightarrow> None
              | Some (r, w) \<Rightarrow>
                  (let w = hub_reset_notifier (hub_shutdown hooks w)
                   in Some (r, w\<lparr>hub_running := False\<rparr>)))"

section \<open>The background thread\<close>

definition hub_start ::
  "('v, 'u, 'h, 'k, 'z) HUB_scheme \<Rightarrow> exn option \<times> ('v, 'u, 'h, 'k, 'z) HUB_scheme"
where
  "hub_start w =
     (if hub_thread w then (Some (Logic_error ''ModuleHub background thread is joinable''), w)
      else if hub_running w then (Some (Logic_error ''ModuleHub is already running''), w)
      else let w = clear_background_exception (w\<lparr>hub_running := True\<rparr>)
           in (None, w\<lparr>hub_stop_requested := False, hub_thread := True\<rparr>))"

definition store_background_exception :: "exn \<Rightarrow> ('v, 'u, 'h, 'k, 'z) HUB_scheme \<Rightarrow> ('v, 'u, 'h, 'k, 'z) HUB_scheme" where
  "store_background_exception x w =
     (if hub_background_exception w = None then w\<lparr>hub_background_exception := Some x\<rparr> else w)"

definition background_body ::
  "('v, 'u, 'h, 'k, ('v, 'u, 'h, 'k, 'z) HUB_scheme) hub_code \<Rightarrow> ('v, 'u, 'h, 'k, 'z) HUB_scheme module_hooks \<Rightarrow>
   (('v, 'u, 'h, 'k, 'z) HUB_scheme \<Rightarrow> ('v, 'u, 'h, 'k, 'z) HUB_scheme) \<Rightarrow> nat \<Rightarrow>
   ('v, 'u, 'h, 'k, 'z) HUB_scheme \<Rightarrow> ('v, 'u, 'h, 'k, 'z) HUB_scheme option"
where
  "background_body hc hooks others fuel w =
     (let thread = md_this_thread w
      in case hub_serve hc hooks others fuel (w\<lparr>md_this_thread := Hub_thread\<rparr>) of
           None \<Rightarrow> None
         | Some (r, w) \<Rightarrow>
             (let w = (case r of None \<Rightarrow> w | Some x \<Rightarrow> store_background_exception x w);
                  w = hub_reset_notifier (hub_shutdown hooks w)
              in Some (w\<lparr>hub_running := False, md_this_thread := thread\<rparr>)))"

definition rethrow_background_exception :: "('v, 'u, 'h, 'k, 'z) HUB_scheme \<Rightarrow> exn option \<times> ('v, 'u, 'h, 'k, 'z) HUB_scheme" where
  "rethrow_background_exception w = (hub_background_exception w, clear_background_exception w)"

fun rethrow_module_exceptions ::
  "nat list \<Rightarrow> ('v, 'u, 'h, 'k, 'z) MODULES_scheme \<Rightarrow> exn option \<times> ('v, 'u, 'h, 'k, 'z) MODULES_scheme"
where
  "rethrow_module_exceptions [] w = (None, w)"
| "rethrow_module_exceptions (m # ms) w =
     (case rethrow_worker_exception m w of
        (Some x, w) \<Rightarrow> (Some x, w)
      | (None, w) \<Rightarrow> rethrow_module_exceptions ms w)"

text \<open>
  \<open>join\<close> for a thread whose body has returned: \<open>background_body\<close> is run before it. A body that never
  returns blocks the real call.
\<close>

definition hub_join :: "('v, 'u, 'h, 'k, 'z) HUB_scheme \<Rightarrow> exn option \<times> ('v, 'u, 'h, 'k, 'z) HUB_scheme" where
  "hub_join w =
     (if hub_thread w \<and> md_this_thread w = Hub_thread
      then (Some (Logic_error ''ModuleHub cannot join its own thread''), w)
      else case rethrow_background_exception (w\<lparr>hub_thread := False\<rparr>) of
             (Some x, w) \<Rightarrow> (Some x, w)
           | (None, w) \<Rightarrow> rethrow_module_exceptions (hub_modules w) w)"

text \<open>The destructor, for a background thread whose body has returned after the stop request.\<close>

definition ModuleHub_destroy ::
  "('v, 'u, 'h, 'k, 'z) HUB_scheme module_hooks \<Rightarrow> ('v, 'u, 'h, 'k, 'z) HUB_scheme \<Rightarrow> ('v, 'u, 'h, 'k, 'z) HUB_scheme"
where
  "ModuleHub_destroy hooks w =
     (let w = hub_request_stop w;
          w = (if hub_thread w \<and> md_this_thread w \<noteq> Hub_thread then w\<lparr>hub_thread := False\<rparr> else w)
      in hub_reset_notifier (hub_shutdown hooks w))"

end
