(* ===== verification/Task_Frame.thy ===== *)
theory Task_Frame
  imports Task_Process
begin

text \<open>
  A task manager's operations touch the manager only. Where the manager's record is extended by the state
  of what lives on top of it, the extension changes by user code alone, and whatever relation between
  states user code respects, \<^verbatim>\<open>process()\<close> respects.
\<close>

section \<open>The operations leave the extension alone\<close>

lemmas tm_small_defs = transition_def set_state_def set_control_def decrement_ready_count_def decrement_pending_count_def index_erase_def
  increment_ready_count_def increment_pending_count_def push_back_ready_def push_front_ready_def push_delayed_def
  clear_reschedule_def next_seq_def

lemma tm_more_frame [hub_frame]:
  "TM.more (set_notifier n s) = TM.more s" "TM.more (reset_notifier s) = TM.more s" "TM.more (close s) = TM.more s"
  by (simp_all add: set_notifier_def reset_notifier_def close_def notify_work_available_def Let_def split: option.split)

lemma tm_notifier_close: "tm_notifier (close s) = tm_notifier s"
  by (simp add: close_def notify_work_available_def Let_def split: option.split)

lemma tm_more_small [hub_frame]:
  "TM.more (snd (transition r v v' s)) = TM.more s" "TM.more (decrement_ready_count s) = TM.more s"
  "TM.more (decrement_pending_count s) = TM.more s" "TM.more (index_erase i s) = TM.more s"
  "TM.more (increment_ready_count s) = TM.more s" "TM.more (increment_pending_count s) = TM.more s"
  "TM.more (push_back_ready e s) = TM.more s" "TM.more (push_front_ready e s) = TM.more s"
  "TM.more (push_delayed e s) = TM.more s" "TM.more (clear_reschedule r s) = TM.more s"
  "TM.more (snd (next_seq s)) = TM.more s" "TM.more (uncount_started e s) = TM.more s"
  "TM.more (prune_delayed_top_locked s) = TM.more s" "TM.more (s\<lparr>tm_ready := q\<rparr>) = TM.more s"
  "TM.more (notify_work_available s) = TM.more s"
  by (simp_all add: tm_small_defs uncount_started_def prune_delayed_top_locked_def notify_work_available_def Let_def
      split: option.split)

lemma tm_more_cancel [hub_frame]: "TM.more (snd (cancel i s)) = TM.more s"
  by (auto simp: cancel_def cancel_loaded_def tm_small_defs split: option.split State.split)

lemma tm_more_enqueue:
  "TM.more (snd (enqueue_ready_locked task options s)) = TM.more s"
  "TM.more (snd (enqueue_delayed_locked due task options s)) = TM.more s"
  by (simp_all add: enqueue_ready_locked_def enqueue_delayed_locked_def next_id_def make_control_def index_emplace_def
      tm_small_defs Let_def split_def split: option.split)

lemma tm_more_post_at [hub_frame]: "TM.more (snd (post_at now due task options s)) = TM.more s"
  by (simp add: post_at_def notify_if_accepted_def split_def tm_more_enqueue hub_frame)

lemma tm_more_take_queue: "TM.more (snd (snd (take_queue m q batch s))) = TM.more s"
  by (induction q arbitrary: batch s) (simp_all add: split_def hub_frame)

lemma tm_more_promote_front: "TM.more (promote_front s) = TM.more s"
  by (simp add: promote_front_def Let_def split_def tm_small_defs prune_delayed_top_locked_def)

lemma tm_more_promote_loop: "TM.more (promote_loop now s) = TM.more s"
proof (induction now s rule: promote_loop.induct)
  case (1 now s)
  then show ?case
    by (subst promote_loop.simps) (auto simp: tm_more_promote_front)
qed

lemma tm_more_take_snapshot [hub_frame]: "TM.more (snd (take_snapshot now m s)) = TM.more s"
  by (simp add: take_snapshot_def take_ready_batch_locked_def take_from_def split_def tm_more_take_queue
      promote_due_locked_def tm_more_promote_loop hub_frame)

lemma tm_more_restore [hub_frame]: "TM.more (restore_unrun es s) = TM.more s"
  by (induction es) (simp_all add: restore_unrun_def restore_one_def split_def hub_frame)

lemma tm_more_enqueue_existing: "TM.more (enqueue_existing_locked now e due s) = TM.more s"
  by (simp add: enqueue_existing_locked_def Let_def split_def tm_small_defs)

lemma tm_more_finish [hub_frame]:
  "TM.more (finish_after_success now1 now2 e s) = TM.more s" "TM.more (finish_after_exception e s) = TM.more s"
  by (simp_all add: finish_after_success_def finish_after_exception_def Let_def split_def tm_more_enqueue_existing hub_frame)

lemma clear_queue_frame:
  "TM.more (snd (clear_queue q p)) = TM.more (snd p) \<and> tm_closed (snd (clear_queue q p)) = tm_closed (snd p) \<and>
   tm_notifier (snd (clear_queue q p)) = tm_notifier (snd p)"
proof (induction q arbitrary: p)
  case (Cons e q)
  obtain d s where p: "p = (d, s)" by fastforce
  show ?case by (simp add: p Cons.IH tm_small_defs)
qed simp

lemma clear_heap_frame:
  "TM.more (snd (clear_heap q p)) = TM.more (snd p) \<and> tm_closed (snd (clear_heap q p)) = tm_closed (snd p) \<and>
   tm_notifier (snd (clear_heap q p)) = tm_notifier (snd p)"
proof (induction q arbitrary: p)
  case (Cons e q)
  obtain d s where p: "p = (d, s)" by fastforce
  show ?case by (simp add: p Cons.IH tm_small_defs)
qed simp

lemma clear_ready_frame:
  "TM.more (snd (clear_ready i p)) = TM.more (snd p) \<and> tm_closed (snd (clear_ready i p)) = tm_closed (snd p) \<and>
   tm_notifier (snd (clear_ready i p)) = tm_notifier (snd p)"
  using clear_queue_frame [of "tm_ready (snd p) i" p] by (simp add: clear_ready_def split_def)

lemma clear_pending_frame [hub_frame]:
  "TM.more (snd (clear_pending s)) = TM.more s" "tm_closed (snd (clear_pending s)) = tm_closed s"
  "tm_notifier (snd (clear_pending s)) = tm_notifier s"
  by (simp_all add: clear_pending_def split_def clear_ready_frame clear_heap_frame)

section \<open>What rides on a manager\<close>

text \<open>
  \<open>R\<close> relates the states before and after a piece of code that runs on top of a manager: it only looks at
  the extension, and it composes.
\<close>

locale tm_rider =
  fixes R :: "('f, 'z) TM_scheme \<Rightarrow> ('f, 'z) TM_scheme \<Rightarrow> bool"
  assumes rider: "TM.more s' = TM.more s \<Longrightarrow> R s s'"
    and R_trans: "R s s' \<Longrightarrow> R s' s'' \<Longrightarrow> R s s''"
begin

lemma R_after: "R s s' \<Longrightarrow> TM.more s'' = TM.more s' \<Longrightarrow> R s s''"
  using R_trans rider by blast

lemma R_before: "TM.more s' = TM.more s \<Longrightarrow> R s' s'' \<Longrightarrow> R s s''"
  using R_trans rider by blast

lemma Task_call_rides:
  assumes "\<And>f ctx s. R s (fst (run f ctx s))"
  shows "R s (fst (Task_call_context run t ctx s))"
  using assms by (cases t) (simp_all add: rider)

lemma report_rides:
  assumes "\<And>h x s. R s (fst (hrun h x s))"
  shows "R s (snd (report_exception hrun x s))"
  using assms by (auto simp: report_exception_def rider split: option.split prod.split) (metis fst_conv)+

lemma process_loop_rides:
  assumes run: "\<And>f ctx s. R s (fst (run f ctx s))" and hrun: "\<And>h x s. R s (fst (hrun h x s))"
  shows "R s (snd (snd (process_loop run hrun nows batch i processed s)))"
proof (induction batch arbitrary: i processed s)
  case (Cons e batch)
  let ?s1 = "snd (start_entry e s)"
  let ?c = "Task_call_context run (e_task e) (make_context (e_id e)) (uncount_started e ?s1)"
  have s1: "TM.more ?s1 = TM.more s" by (simp add: start_entry_def hub_frame)
  have called: "R s (fst ?c)"
    by (rule R_before [OF _ Task_call_rides [OF run]]) (simp add: s1 hub_frame)
  have ok: "R s (finish_after_success n1 n2 e (fst ?c))" for n1 n2
    by (rule R_after [OF called]) (simp add: hub_frame)
  have bad: "R s (snd (report_exception hrun x (finish_after_exception e (fst ?c))))" for x
    by (rule R_trans [OF R_after [OF called] report_rides [OF hrun]]) (simp add: hub_frame)
  have stop: "R s (restore_unrun batch (snd (report_exception hrun x (finish_after_exception e (fst ?c)))))" for x
    by (rule R_after [OF bad]) (simp add: hub_frame)
  show ?case
    using R_before [OF s1 Cons.IH] R_trans [OF ok Cons.IH] R_trans [OF bad Cons.IH] stop
    by (auto simp: split_def split: option.split sum.split bool.split)
qed (simp add: rider)

lemma process_rides:
  assumes "\<And>f ctx s. R s (fst (run f ctx s))" "\<And>h x s. R s (fst (hrun h x s))"
  shows "R s (snd (process run hrun now nows m s))"
  by (auto simp: process_def process_traced_def split_def rider intro!: R_before [OF _ process_loop_rides [OF assms]])
    (simp add: hub_frame)

end

end
