(* ===== verification/Module_Theorems.thy ===== *)
theory Module_Theorems
  imports Task_Frame Module_Hub Run_Loop_Theorems Endpoint_Theorems
begin

text \<open>
  The life cycle of modules and of the hub: a module shut down stays shut down, initialisation is all or
  nothing, \<open>run\<close> leaves nothing running, and a worker's exception reaches the hub.
\<close>

section \<open>Library operations leave the rest of the world alone\<close>

lemma eps_more_aw [hub_frame]:
  "EPS.more (aw_cancel a s) = EPS.more s" "EPS.more (aw_release a s) = EPS.more s"
  "EPS.more (unsubscribe_all owner s) = EPS.more s" "EPS.more (unlock_object g s) = EPS.more s"
  "EPS.more (ep_update e f s) = EPS.more s"
  by (simp_all add: aw_release_def aw_cancel_def aw_basic_defs unsubscribe_def unsubscribe_all_def ep_update_def Let_def
      split: option.split)

lemma eps_more_fold [hub_frame]:
  "EPS.more (fold aw_cancel as s) = EPS.more s" "EPS.more (fold aw_release as s) = EPS.more s"
  by (induction as arbitrary: s) (simp_all add: hub_frame)

lemma eps_more_close [hub_frame]: "EPS.more (ep_close e s) = EPS.more s"
  by (simp add: ep_close_def cancel_awaiters_def reset_guard_def ep_unsubscribe_all_def hub_frame Let_def split: option.split)

lemma eps_more_bus [hub_frame]:
  "EPS.more (bus_set_notifier n s) = EPS.more s" "EPS.more (bus_reset_notifier s) = EPS.more s"
  "EPS.more (bus_clear_pending s) = EPS.more s"
  by (simp_all add: bus_set_notifier_def bus_reset_notifier_def bus_clear_pending_def)

lemma ep_close_closed: "ep_closed (eps_store (ep_close e s) e)"
  by (simp add: ep_close_def cancel_awaiters_def reset_guard_def ep_unsubscribe_all_def hub_frame Let_def split: option.split)

lemma on_tm_frame:
  assumes "\<And>s. TM.more (f s) = TM.more s"
  shows "WORLD.more (on_tm t f w) = WORLD.more w" "wd_buses (on_tm t f w) = wd_buses w"
    "wd_tms (on_tm t f w) = (wd_tms w)(t := (TM.truncate (f (enter_tm t w)))\<lparr>tm_notified := []\<rparr>)"
  using assms by (simp_all add: on_tm_def leave_tm_def hub_frame enter_tm_def TM.defs Let_def)

lemma on_bus_frame:
  assumes "\<And>s. EPS.more (f s) = EPS.more s"
  shows "WORLD.more (on_bus b f w) = WORLD.more w" "wd_tms (on_bus b f w) = wd_tms w"
    "wd_buses (on_bus b f w) = (wd_buses w)(b := (EPS.truncate (f (enter_bus b w)))\<lparr>bus_notified := []\<rparr>)"
  using assms by (simp_all add: on_bus_def leave_bus_def hub_frame enter_bus_def EPS.defs Let_def)

lemma modules_fields_more:
  fixes w w' :: "('v, 'u, 'h, 'k, 'z) MODULES_scheme"
  assumes "WORLD.more w = WORLD.more w'"
  shows "md_store w = md_store w'" "md_this_thread w = md_this_thread w'" "MODULES.more w = MODULES.more w'"
  using assms by (cases w; cases w'; simp)+

lemma md_on_tm [simp]:
  assumes "\<And>s. TM.more (f s) = TM.more s"
  shows "md_store (on_tm t f w) = md_store w" "md_this_thread (on_tm t f w) = md_this_thread w"
    "MODULES.more (on_tm t f w) = MODULES.more w"
  using modules_fields_more [OF on_tm_frame(1) [OF assms]] by simp_all

lemma md_on_bus [simp]:
  assumes "\<And>s. EPS.more (f s) = EPS.more s"
  shows "md_store (on_bus b f w) = md_store w" "md_this_thread (on_bus b f w) = md_this_thread w"
    "MODULES.more (on_bus b f w) = MODULES.more w"
  using modules_fields_more [OF on_bus_frame(1) [OF assms]] by simp_all

lemma md_simple [simp]:
  "md_store (notify_id n w) = md_store w" "md_this_thread (notify_id n w) = md_this_thread w"
  "MODULES.more (notify_id n w) = MODULES.more w"
  "md_store (md_update m f w) = (md_store w)(m := f (md_store w m))" "md_this_thread (md_update m f w) = md_this_thread w"
  "MODULES.more (md_update m f w) = MODULES.more w"
  "wd_tms (md_update m f w) = wd_tms w" "wd_buses (md_update m f w) = wd_buses w"
  "wd_tms (notify_id n w) = wd_tms w" "wd_buses (notify_id n w) = wd_buses w"
  by (simp_all add: notify_id_def md_update_def)


section \<open>Shutting a module down\<close>

lemma request_worker_stop_frame [simp]:
  "md_store (request_worker_stop m w) = (md_store w)(m := (md_store w m)\<lparr>mod_worker_stop_requested := True\<rparr>)"
  "md_this_thread (request_worker_stop m w) = md_this_thread w"
  "MODULES.more (request_worker_stop m w) = MODULES.more w"
  by (simp_all add: request_worker_stop_def)

lemma join_worker_noexcept_frame [simp]:
  "md_store (join_worker_noexcept m w) = (md_store w)(m := (md_store w m)
     \<lparr>mod_worker := mod_worker (md_store w m) \<and> md_this_thread w = Worker_thread m\<rparr>)"
  "md_this_thread (join_worker_noexcept m w) = md_this_thread w"
  "MODULES.more (join_worker_noexcept m w) = MODULES.more w"
proof -
  have "d\<lparr>mod_worker := b\<rparr> = d" if "mod_worker d = b" for d b using that by (cases d) simp
  then show "md_store (join_worker_noexcept m w) = (md_store w)(m := (md_store w m)
     \<lparr>mod_worker := mod_worker (md_store w m) \<and> md_this_thread w = Worker_thread m\<rparr>)"
    by (auto simp: join_worker_noexcept_def hub_frame Let_def fun_eq_iff)
qed (simp_all add: join_worker_noexcept_def hub_frame Let_def)

text \<open>The shutdown hook may do anything to the world except to the modules' and the hub's own fields.\<close>

definition shutdown_hook_ok :: "('v, 'u, 'h, 'k, 'z) MODULES_scheme module_hooks \<Rightarrow> bool" where
  "shutdown_hook_ok hooks \<longleftrightarrow>
     (\<forall>m w. md_store (mh_shutdown hooks m w) = md_store w \<and> md_this_thread (mh_shutdown hooks m w) = md_this_thread w \<and>
        MODULES.more (mh_shutdown hooks m w) = MODULES.more w)"

lemma shutdown_hook_okD [simp]:
  assumes "shutdown_hook_ok hooks"
  shows "md_store (mh_shutdown hooks m w) = md_store w" "md_this_thread (mh_shutdown hooks m w) = md_this_thread w"
    "MODULES.more (mh_shutdown hooks m w) = MODULES.more w"
  using assms by (simp_all add: shutdown_hook_ok_def)

definition module_after_shutdown :: "nat \<Rightarrow> ('v, 'u, 'h, 'k, 'z) MODULES_scheme \<Rightarrow> Module" where
  "module_after_shutdown m w =
     (md_store w m)\<lparr>mod_initialized := False, mod_stopping := False, mod_stopped := True,
       mod_worker := mod_worker (md_store w m) \<and> md_this_thread w = Worker_thread m,
       mod_worker_stop_requested := True\<rparr>"

lemma mod_shutdown_effect:
  assumes "shutdown_hook_ok hooks" "\<not> mod_is_stopped m w" "\<not> mod_is_stopping m w"
  shows "md_store (mod_shutdown hooks m w) = (md_store w)(m := module_after_shutdown m w)"
    "md_this_thread (mod_shutdown hooks m w) = md_this_thread w"
    "MODULES.more (mod_shutdown hooks m w) = MODULES.more w"
proof -
  have hook: "md_store (if c then mh_shutdown hooks m v else v) = md_store v"
    "md_this_thread (if c then mh_shutdown hooks m v else v) = md_this_thread v"
    "MODULES.more (if c then mh_shutdown hooks m v else v) = MODULES.more v" for c v
    using assms(1) by simp_all
  show "md_store (mod_shutdown hooks m w) = (md_store w)(m := module_after_shutdown m w)"
    "md_this_thread (mod_shutdown hooks m w) = md_this_thread w"
    "MODULES.more (mod_shutdown hooks m w) = MODULES.more w"
    using assms(2,3)
    by (simp_all add: mod_shutdown_def hook hub_frame module_after_shutdown_def Let_def fun_eq_iff)
qed

lemma mod_shutdown_noop: "mod_is_stopped m w \<or> mod_is_stopping m w \<Longrightarrow> mod_shutdown hooks m w = w"
  by (auto simp: mod_shutdown_def)

lemma mod_shutdown_frame:
  assumes "shutdown_hook_ok hooks"
  shows "md_this_thread (mod_shutdown hooks m w) = md_this_thread w"
    "MODULES.more (mod_shutdown hooks m w) = MODULES.more w"
    "k \<noteq> m \<Longrightarrow> md_store (mod_shutdown hooks m w) k = md_store w k"
    "mod_is_stopped m (mod_shutdown hooks m w) \<or> mod_is_stopping m (mod_shutdown hooks m w)"
  using mod_shutdown_effect [OF assms] mod_shutdown_noop [of m w hooks]
  by (cases "mod_is_stopped m w \<or> mod_is_stopping m w";
      auto simp: mod_is_stopped_def mod_is_stopping_def module_after_shutdown_def)+


lemma mod_shutdown_resources:
  assumes "shutdown_hook_ok hooks" "\<not> mod_is_stopped m w" "\<not> mod_is_stopping m w"
  shows "is_closed (wd_tms (mod_shutdown hooks m w) (mod_tasks (md_store w m)))"
    "ep_closed (eps_store (wd_buses (mod_shutdown hooks m w) (mod_bus (md_store w m))) (mod_endpoint (md_store w m)))"
proof -
  let ?d = "md_store w m"
  define v where "v = (let w = md_update m (\<lambda>d. d\<lparr>mod_stopping := True\<rparr>) w;
       w = join_worker_noexcept m (request_worker_stop m w)
     in if mod_is_initialized m w then mh_shutdown hooks m w else w)"
  have d: "mod_tasks (md_store v m) = mod_tasks ?d" "mod_bus (md_store v m) = mod_bus ?d"
    "mod_endpoint (md_store v m) = mod_endpoint ?d"
    using assms(1) by (simp_all add: v_def Let_def)
  define u where "u = on_tm (mod_tasks ?d) (\<lambda>s. snd (clear_pending s)) (on_tm (mod_tasks ?d) close v)"
  have u: "mod_bus (md_store u m) = mod_bus ?d" "mod_endpoint (md_store u m) = mod_endpoint ?d"
    using d by (simp_all add: u_def hub_frame)
  have e: "mod_shutdown hooks m w = md_update m (\<lambda>d. d\<lparr>mod_initialized := False, mod_stopped := True, mod_stopping := False\<rparr>)
      (on_bus (mod_bus ?d) (ep_close (mod_endpoint ?d)) u)"
    using assms by (simp add: mod_shutdown_def v_def u_def hub_frame Let_def)
  have "tm_closed (wd_tms u (mod_tasks ?d))"
    by (simp add: u_def on_tm_frame hub_frame TM.defs enter_tm_def close_def notify_work_available_def Let_def split: option.split)
  then show "is_closed (wd_tms (mod_shutdown hooks m w) (mod_tasks ?d))"
    by (simp add: e on_bus_frame hub_frame is_closed_def)
  show "ep_closed (eps_store (wd_buses (mod_shutdown hooks m w) (mod_bus ?d)) (mod_endpoint ?d))"
    by (simp add: e on_bus_frame hub_frame EPS.defs ep_close_closed)
qed

text \<open>
  A module's shutdown is final. It closes the module's task manager and endpoint, whatever the
  shutdown hook does to the rest of the world; a second shutdown changes nothing, initialising again
  throws without running the hook, and \<open>process\<close> runs no hook any more: it only passes on an
  exception the worker left.
\<close>

theorem module_shutdown_final:
  assumes ok: "shutdown_hook_ok hooks" and idle: "\<not> mod_is_stopped m w" "\<not> mod_is_stopping m w"
  shows "let w' = mod_shutdown hooks m w; d = md_store w m in
    mod_is_stopped m w' \<and> \<not> mod_is_stopping m w' \<and> \<not> mod_is_initialized m w' \<and>
    is_closed (wd_tms w' (mod_tasks d)) \<and> ep_is_closed (mod_endpoint d) (wd_buses w' (mod_bus d)) \<and>
    mod_shutdown hooks' m w' = w' \<and>
    mod_initialize hooks' m w' = (Some (Logic_error ''Module cannot be initialized after shutdown''), w') \<and>
    fst (mod_process hooks' m w') = (case mod_worker_exception d of None \<Rightarrow> Inr 0 | Some x \<Rightarrow> Inl x)"
proof -
  let ?w' = "mod_shutdown hooks m w"
  have d: "md_store ?w' m = module_after_shutdown m w" using mod_shutdown_effect(1) [OF assms] by simp
  then have s: "mod_is_stopped m ?w'" "\<not> mod_is_stopping m ?w'" "\<not> mod_is_initialized m ?w'"
    "mod_worker_exception (md_store ?w' m) = mod_worker_exception (md_store w m)"
    by (simp_all add: mod_is_stopped_def mod_is_stopping_def mod_is_initialized_def module_after_shutdown_def)
  have p: "fst (mod_process hooks' m ?w') = (case mod_worker_exception (md_store w m) of None \<Rightarrow> Inr 0 | Some x \<Rightarrow> Inl x)"
    using s by (simp add: mod_process_def rethrow_worker_exception_def mod_is_initialized_def split: option.split)
  have i: "mod_initialize hooks' m ?w' = (Some (Logic_error ''Module cannot be initialized after shutdown''), ?w')"
    using s by (simp add: mod_initialize_def)
  show ?thesis
    using s(1-3) p i mod_shutdown_resources [OF assms] mod_shutdown_noop [of m ?w' hooks']
    by (simp add: Let_def ep_is_closed_def)
qed

section \<open>Shutting all modules down\<close>

text \<open>Shut down, or in the middle of it further up the call stack.\<close>

definition mod_down :: "nat \<Rightarrow> ('v, 'u, 'h, 'k, 'z) MODULES_scheme \<Rightarrow> bool" where
  "mod_down m w \<longleftrightarrow> mod_is_stopped m w \<or> mod_is_stopping m w"

lemma mod_down_shutdown:
  assumes "shutdown_hook_ok hooks"
  shows "mod_down m (mod_shutdown hooks m w)" "mod_down k w \<Longrightarrow> mod_down k (mod_shutdown hooks m w)"
proof -
  show 1: "mod_down m (mod_shutdown hooks m w)" using mod_shutdown_frame(4) [OF assms] by (simp add: mod_down_def)
  show "mod_down k (mod_shutdown hooks m w)" if "mod_down k w"
    using that 1 mod_shutdown_frame(3) [OF assms, of k m w]
    by (cases "k = m") (simp_all add: mod_down_def mod_is_stopped_def mod_is_stopping_def)
qed

lemma shutdown_fold:
  assumes "shutdown_hook_ok hooks"
  shows "MODULES.more (fold (mod_shutdown hooks) ms w) = MODULES.more w"
    "mod_down k w \<or> k \<in> set ms \<Longrightarrow> mod_down k (fold (mod_shutdown hooks) ms w)"
proof -
  show "MODULES.more (fold (mod_shutdown hooks) ms w) = MODULES.more w"
    by (induction ms arbitrary: w) (simp_all add: mod_shutdown_frame [OF assms])
  show "mod_down k w \<or> k \<in> set ms \<Longrightarrow> mod_down k (fold (mod_shutdown hooks) ms w)"
    by (induction ms arbitrary: w) (auto simp: mod_down_shutdown [OF assms])
qed

lemma hub_fields_more:
  fixes w w' :: "('v, 'u, 'h, 'k, 'z) HUB_scheme"
  assumes "MODULES.more w = MODULES.more w'"
  shows "hub_bus w = hub_bus w'" "hub_modules w = hub_modules w'" "hub_local_notifier w = hub_local_notifier w'"
    "hub_notifier w = hub_notifier w'" "hub_initialized w = hub_initialized w'"
    "hub_stop_requested w = hub_stop_requested w'" "hub_running w = hub_running w'"
  using assms by (cases w; cases w'; simp)+

lemma fold_stop_frame [simp]:
  "MODULES.more (fold request_worker_stop ms w) = MODULES.more w"
  "MODULES.more (fold join_worker_noexcept ms w) = MODULES.more w"
  "mod_down k (fold request_worker_stop ms w) = mod_down k w"
  "mod_down k (fold join_worker_noexcept ms w) = mod_down k w"
  by (induction ms arbitrary: w) (simp_all add: mod_down_def mod_is_stopped_def mod_is_stopping_def)

lemma shutdown_modules_eq:
  "shutdown_modules hooks w = fold (mod_shutdown hooks) (rev (hub_modules w))
     (fold join_worker_noexcept (hub_modules w) (fold request_worker_stop (hub_modules w) w))"
proof -
  let ?u = "fold request_worker_stop (hub_modules w) w"
  have u: "hub_modules ?u = hub_modules w" by (rule hub_fields_more) simp
  have "hub_modules (fold join_worker_noexcept (hub_modules w) ?u) = hub_modules w"
    using u by (subst hub_fields_more(2) [of _ ?u]) simp_all
  then show ?thesis using u by (simp add: shutdown_modules_def Let_def)
qed

lemma shutdown_modules_effect:
  assumes "shutdown_hook_ok hooks"
  shows "MODULES.more (shutdown_modules hooks w) = MODULES.more w"
    "m \<in> set (hub_modules w) \<Longrightarrow> mod_down m (shutdown_modules hooks w)"
  by (simp_all add: shutdown_modules_eq shutdown_fold [OF assms])

definition mod_gone :: "nat \<Rightarrow> ('v, 'u, 'h, 'k, 'z) MODULES_scheme \<Rightarrow> bool" where
  "mod_gone k w \<longleftrightarrow> mod_is_stopped k w \<and> \<not> mod_is_stopping k w \<and> \<not> mod_is_initialized k w"

lemma mod_gone_shutdown:
  assumes "shutdown_hook_ok hooks"
  shows "\<not> mod_down m w \<Longrightarrow> mod_gone m (mod_shutdown hooks m w)"
    "mod_gone k w \<Longrightarrow> mod_gone k (mod_shutdown hooks m w)"
    "k \<noteq> m \<Longrightarrow> mod_down k (mod_shutdown hooks m w) = mod_down k w"
proof -
  show "mod_gone m (mod_shutdown hooks m w)" if "\<not> mod_down m w"
    using mod_shutdown_effect(1) [OF assms, of m w] that
    by (simp add: mod_down_def mod_gone_def mod_is_stopped_def mod_is_stopping_def mod_is_initialized_def
        module_after_shutdown_def)
  show "mod_gone k (mod_shutdown hooks m w)" if "mod_gone k w"
    using mod_shutdown_frame(3) [OF assms, of k m w] mod_shutdown_noop [of m w hooks] that
    by (cases "k = m") (auto simp: mod_gone_def mod_is_stopped_def mod_is_stopping_def mod_is_initialized_def)
  show "mod_down k (mod_shutdown hooks m w) = mod_down k w" if "k \<noteq> m"
    using mod_shutdown_frame(3) [OF assms that] by (simp add: mod_down_def mod_is_stopped_def mod_is_stopping_def)
qed

lemma shutdown_fold_gone:
  assumes "shutdown_hook_ok hooks"
  shows "mod_gone k w \<or> k \<in> set ms \<and> \<not> mod_down k w \<Longrightarrow> mod_gone k (fold (mod_shutdown hooks) ms w)"
proof (induction ms arbitrary: w)
  case (Cons m ms)
  have "mod_gone k (mod_shutdown hooks m w) \<or> k \<in> set ms \<and> \<not> mod_down k (mod_shutdown hooks m w)"
    using Cons.prems mod_gone_shutdown [OF assms] by (cases "k = m") auto
  then show ?case using Cons.IH by simp
qed simp

lemma shutdown_modules_gone:
  assumes "shutdown_hook_ok hooks" "m \<in> set (hub_modules w)" "\<not> mod_down m w"
  shows "mod_gone m (shutdown_modules hooks w)"
  unfolding shutdown_modules_eq by (rule shutdown_fold_gone [OF assms(1)]) (use assms(2,3) in simp)

section \<open>What a shutdown leaves of a module\<close>

text \<open>
  A module that is off is shut down and not in the middle of it. A joined module has no worker left, or only
  the one that is executing the shutdown. A silent manager has no notifier.
\<close>

definition mod_off :: "nat \<Rightarrow> ('v, 'u, 'h, 'k, 'z) MODULES_scheme \<Rightarrow> bool" where
  "mod_off m w \<longleftrightarrow> mod_is_stopped m w \<and> \<not> mod_is_stopping m w"

definition mod_joined :: "nat \<Rightarrow> ('v, 'u, 'h, 'k, 'z) MODULES_scheme \<Rightarrow> bool" where
  "mod_joined m w \<longleftrightarrow> (mod_worker (md_store w m) \<longrightarrow> md_this_thread w = Worker_thread m)"

definition tasks_silent :: "nat \<Rightarrow> ('v, 'u, 'h, 'k, 'z) MODULES_scheme \<Rightarrow> bool" where
  "tasks_silent m w \<longleftrightarrow> tm_notifier (wd_tms w (mod_tasks (md_store w m))) = None"

text \<open>Shutdown hooks that install no notifier on a task manager.\<close>

definition hooks_install_none :: "('v, 'u, 'h, 'k, 'z) MODULES_scheme module_hooks \<Rightarrow> bool" where
  "hooks_install_none hooks \<longleftrightarrow>
     (\<forall>m w t. tm_notifier (wd_tms w t) = None \<longrightarrow> tm_notifier (wd_tms (mh_shutdown hooks m w) t) = None)"

lemma on_tm_notifier:
  assumes "\<And>s. TM.more (f s) = TM.more s" "\<And>s. tm_notifier (f s) = tm_notifier s"
    and "tm_notifier (wd_tms w u) = None"
  shows "tm_notifier (wd_tms (on_tm t f w) u) = None"
  using assms(2) [of "enter_tm t w"] assms(3)
  by (auto simp: on_tm_frame [OF assms(1)] TM.defs enter_tm_def)

lemma on_tm_reset [simp]:
  "tm_notifier (wd_tms (on_tm t reset_notifier w) t) = None"
  "tm_notifier (wd_tms w u) = None \<Longrightarrow> tm_notifier (wd_tms (on_tm t reset_notifier w) u) = None"
  by (simp_all add: on_tm_frame hub_frame TM.defs reset_notifier_def)

lemma join_worker_tms:
  "tm_notifier (wd_tms (join_worker_noexcept m w) (mod_tasks (md_store w m))) = None"
  "tm_notifier (wd_tms w u) = None \<Longrightarrow> tm_notifier (wd_tms (join_worker_noexcept m w) u) = None"
  by (simp_all add: join_worker_noexcept_def Let_def)

lemma request_worker_stop_tms [simp]: "wd_tms (request_worker_stop m w) = wd_tms w"
  by (simp add: request_worker_stop_def)

text \<open>Stopping and joining the workers of a list of modules.\<close>

lemma stop_workers_frame:
  "md_this_thread (fold request_worker_stop ms w) = md_this_thread w"
  "wd_tms (fold request_worker_stop ms w) = wd_tms w"
  "mod_off k (fold request_worker_stop ms w) = mod_off k w"
  "mod_is_stopping k (fold request_worker_stop ms w) = mod_is_stopping k w"
  "mod_is_stopped k (fold request_worker_stop ms w) = mod_is_stopped k w"
  by (induction ms arbitrary: w) (simp_all add: mod_off_def mod_is_stopped_def mod_is_stopping_def)

lemma join_workers_frame:
  "md_this_thread (fold join_worker_noexcept ms w) = md_this_thread w"
  "mod_off k (fold join_worker_noexcept ms w) = mod_off k w"
  "mod_is_stopping k (fold join_worker_noexcept ms w) = mod_is_stopping k w"
  "mod_is_stopped k (fold join_worker_noexcept ms w) = mod_is_stopped k w"
  by (induction ms arbitrary: w) (simp_all add: mod_off_def mod_is_stopped_def mod_is_stopping_def)

lemma join_workers_all:
  "mod_joined k w \<or> k \<in> set ms \<Longrightarrow> mod_joined k (fold join_worker_noexcept ms w)"
  "tasks_silent k w \<or> k \<in> set ms \<Longrightarrow> tasks_silent k (fold join_worker_noexcept ms w)"
proof (induction ms arbitrary: w)
  case (Cons m ms)
  {
    case 1
    have "mod_joined k (join_worker_noexcept m w) \<or> k \<in> set ms" using 1 by (auto simp: mod_joined_def)
    then show ?case using Cons.IH(1) by simp
  next
    case 2
    have "tasks_silent k (join_worker_noexcept m w) \<or> k \<in> set ms"
      using 2 join_worker_tms by (cases "k = m") (auto simp: tasks_silent_def)
    then show ?case using Cons.IH(2) by simp
  }
qed simp_all

text \<open>The shutdown of one module keeps what the others have reached.\<close>

lemma mod_shutdown_keeps:
  assumes ok: "shutdown_hook_ok hooks"
  shows "mod_off k w \<Longrightarrow> mod_off k (mod_shutdown hooks m w)"
    "mod_joined k w \<Longrightarrow> mod_joined k (mod_shutdown hooks m w)"
    "hooks_install_none hooks \<Longrightarrow> tasks_silent k w \<Longrightarrow> tasks_silent k (mod_shutdown hooks m w)"
proof -
  note e = mod_shutdown_effect [OF ok, of m w] mod_shutdown_noop [of m w hooks]
  show "mod_off k w \<Longrightarrow> mod_off k (mod_shutdown hooks m w)"
    using e by (cases "mod_is_stopped m w \<or> mod_is_stopping m w")
      (auto simp: mod_off_def mod_is_stopped_def mod_is_stopping_def)
  show "mod_joined k w \<Longrightarrow> mod_joined k (mod_shutdown hooks m w)"
    using e by (cases "mod_is_stopped m w \<or> mod_is_stopping m w")
      (auto simp: mod_joined_def module_after_shutdown_def)
  assume none: "hooks_install_none hooks" and s: "tasks_silent k w"
  show "tasks_silent k (mod_shutdown hooks m w)"
  proof (cases "mod_is_stopped m w \<or> mod_is_stopping m w")
    case True
    then show ?thesis using e(4) s by simp
  next
    case False
    let ?t = "mod_tasks (md_store w k)"
    have "mod_tasks (md_store (mod_shutdown hooks m w) k) = ?t"
      using e(1) False by (simp add: module_after_shutdown_def)
    moreover have "tm_notifier (wd_tms (mod_shutdown hooks m w) ?t) = None"
      using False s none
      by (simp add: mod_shutdown_def on_bus_frame hub_frame tasks_silent_def hooks_install_none_def
          on_tm_notifier join_worker_tms(2) tm_notifier_close Let_def)
    ultimately show ?thesis by (simp add: tasks_silent_def)
  qed
qed

lemma shutdown_fold_keeps:
  assumes "shutdown_hook_ok hooks"
  shows "mod_off k w \<or> k \<in> set ms \<and> \<not> mod_is_stopping k w \<Longrightarrow> mod_off k (fold (mod_shutdown hooks) ms w)"
    "mod_joined k w \<Longrightarrow> mod_joined k (fold (mod_shutdown hooks) ms w)"
    "hooks_install_none hooks \<Longrightarrow> tasks_silent k w \<Longrightarrow> tasks_silent k (fold (mod_shutdown hooks) ms w)"
proof (induction ms arbitrary: w)
  case (Cons m ms)
  note keeps = mod_shutdown_keeps [OF assms]
  {
    case 1
    have "mod_off m (mod_shutdown hooks m w)" if "\<not> mod_is_stopping m w"
      using that mod_shutdown_effect(1) [OF assms, of m w] mod_shutdown_noop [of m w hooks]
      by (cases "mod_is_stopped m w")
        (simp_all add: mod_off_def mod_is_stopped_def mod_is_stopping_def module_after_shutdown_def)
    moreover have "mod_is_stopping k (mod_shutdown hooks m w) = mod_is_stopping k w" if "k \<noteq> m"
      using mod_shutdown_frame(3) [OF assms that, of w] by (simp add: mod_is_stopping_def)
    ultimately have "mod_off k (mod_shutdown hooks m w) \<or> k \<in> set ms \<and> \<not> mod_is_stopping k (mod_shutdown hooks m w)"
      using 1 keeps(1) by (cases "k = m") auto
    then show ?case using Cons.IH(1) by simp
  next
    case 2
    then show ?case using keeps(2) Cons.IH(2) by simp
  next
    case 3
    then show ?case using keeps(3) Cons.IH(3) by simp
  }
qed simp_all

lemma shutdown_fold_thread:
  "shutdown_hook_ok hooks \<Longrightarrow> md_this_thread (fold (mod_shutdown hooks) ms w) = md_this_thread w"
  by (induction ms arbitrary: w) (simp_all add: mod_shutdown_frame(1))

lemma shutdown_modules_all:
  assumes "shutdown_hook_ok hooks" "m \<in> set (hub_modules w)"
  shows "\<not> mod_is_stopping m w \<Longrightarrow> mod_off m (shutdown_modules hooks w)"
    "mod_joined m (shutdown_modules hooks w)"
    "hooks_install_none hooks \<Longrightarrow> tasks_silent m (shutdown_modules hooks w)"
  unfolding shutdown_modules_eq using assms(2)
  by (auto intro!: shutdown_fold_keeps [OF assms(1)] join_workers_all
      simp: stop_workers_frame join_workers_frame)

section \<open>Taking the notifiers away\<close>

text \<open>A module is unwired when the hub's notifier is neither its exception notifier nor, if it runs inline, its manager's.\<close>

definition mod_unwired :: "nat \<Rightarrow> ('v, 'u, 'h, 'k, 'z) MODULES_scheme \<Rightarrow> bool" where
  "mod_unwired m w \<longleftrightarrow> mod_exception_notifier (md_store w m) = None \<and>
     (mod_execution_mode m w = inline_in_hub \<longrightarrow> tasks_silent m w)"

lemma wire_none_frame:
  "md_store (wire_module_notifier m None w) =
     (md_store w)(m := (md_store w m)\<lparr>mod_exception_notifier := None\<rparr>)"
  "md_this_thread (wire_module_notifier m None w) = md_this_thread w"
  "tasks_silent k w \<Longrightarrow> tasks_silent k (wire_module_notifier m None w)"
  "mod_unwired m (wire_module_notifier m None w)"
  by (auto simp: wire_module_notifier_def set_worker_exception_notifier_def mod_unwired_def tasks_silent_def
      mod_execution_mode_def hub_frame Let_def)

lemma wire_none_unwired: "mod_unwired k w \<Longrightarrow> mod_unwired k (wire_module_notifier m None w)"
  using wire_none_frame(3,4)
  by (cases "k = m") (fastforce simp: mod_unwired_def wire_none_frame(1) mod_execution_mode_def)+

lemma wire_none_all:
  fixes w :: "('v, 'u, 'h, 'k, 'z) MODULES_scheme"
  defines "wire \<equiv> (\<lambda>ms w. fold (\<lambda>m. wire_module_notifier m None) ms w)"
  shows "mod_unwired k w \<or> k \<in> set ms \<Longrightarrow> mod_unwired k (wire ms w)"
    "tasks_silent k w \<Longrightarrow> tasks_silent k (wire ms w)" "md_this_thread (wire ms w) = md_this_thread w"
    "mod_worker (md_store (wire ms w) k) = mod_worker (md_store w k)"
    "mod_off k (wire ms w) = mod_off k w" "mod_is_initialized k (wire ms w) = mod_is_initialized k w"
  unfolding wire_def
proof (induction ms arbitrary: w)
  case (Cons m ms)
  {
    case 1
    have "mod_unwired k (wire_module_notifier m None w) \<or> k \<in> set ms"
      using 1 wire_none_frame(4) wire_none_unwired by (cases "k = m") auto
    then show ?case using Cons.IH(1) by simp
  next
    case 2
    show ?case unfolding fold.simps comp_apply by (intro Cons.IH(2) wire_none_frame(3) 2)
  next
    case 3
    show ?case using Cons.IH(3) by (simp add: wire_none_frame)
  next
    case 4
    show ?case using Cons.IH(4) by (simp add: wire_none_frame)
  next
    case 5
    show ?case using Cons.IH(5)
      by (simp add: mod_off_def mod_is_stopped_def mod_is_stopping_def wire_none_frame)
  next
    case 6
    show ?case using Cons.IH(6) by (simp add: mod_is_initialized_def wire_none_frame)
  }
qed simp_all

section \<open>Running the hub\<close>

lemma wire_module_frame [simp]:
  "MODULES.more (wire_module_notifier m n w) = MODULES.more w" "wd_buses (wire_module_notifier m n w) = wd_buses w"
  "mod_down k (wire_module_notifier m n w) = mod_down k w"
  by (cases n; simp add: wire_module_notifier_def set_worker_exception_notifier_def hub_frame on_tm_frame
      mod_down_def mod_is_stopped_def mod_is_stopping_def Let_def)+

lemma wire_modules_frame [simp]:
  "MODULES.more (fold (\<lambda>m. wire_module_notifier m n) ms w) = MODULES.more w"
  "wd_buses (fold (\<lambda>m. wire_module_notifier m n) ms w) = wd_buses w"
  "mod_down k (fold (\<lambda>m. wire_module_notifier m n) ms w) = mod_down k w"
  by (induction ms arbitrary: w) simp_all

lemma mod_down_more:
  fixes w w' :: "('v, 'u, 'h, 'k, 'z) MODULES_scheme"
  shows "md_store w = md_store w' \<Longrightarrow> mod_down k w = mod_down k w'"
  by (simp add: mod_down_def mod_is_stopped_def mod_is_stopping_def)

lemma hub_reset_notifier_effect:
  fixes w :: "('v, 'u, 'h, 'k, 'z) HUB_scheme"
  defines "w' \<equiv> hub_reset_notifier w"
  shows "hub_bus w' = hub_bus w" "hub_modules w' = hub_modules w" "hub_initialized w' = hub_initialized w"
    "hub_stop_requested w' = hub_stop_requested w" "hub_running w' = hub_running w" "hub_notifier w' = None"
    "mod_down k w' = mod_down k w" "bus_queue (wd_buses w' b) = bus_queue (wd_buses w b)"
    "bus_notifier (wd_buses w' (hub_bus w)) = None" "md_this_thread w' = md_this_thread w"
    "m \<in> set (hub_modules w) \<Longrightarrow> mod_unwired m w'" "tasks_silent m w \<Longrightarrow> tasks_silent m w'"
    "mod_worker (md_store w' m) = mod_worker (md_store w m)" "mod_off m w' = mod_off m w"
    "mod_is_initialized m w' = mod_is_initialized m w"
proof -
  let ?v = "on_bus (hub_bus w) bus_reset_notifier (w\<lparr>hub_notifier := None\<rparr>)"
  have e: "w' = fold (\<lambda>m. wire_module_notifier m None) (hub_modules ?v) ?v"
    by (simp add: w'_def hub_reset_notifier_def wire_sources_notifier_def Let_def)
  have more: "MODULES.more w' = MODULES.more (w\<lparr>hub_notifier := None\<rparr>)" by (simp add: e hub_frame)
  show "hub_bus w' = hub_bus w" "hub_modules w' = hub_modules w" "hub_initialized w' = hub_initialized w"
    "hub_stop_requested w' = hub_stop_requested w" "hub_running w' = hub_running w" "hub_notifier w' = None"
    using hub_fields_more [OF more] by simp_all
  show "mod_down k w' = mod_down k w"
    by (simp add: e) (rule mod_down_more, simp add: hub_frame)
  show "bus_queue (wd_buses w' b) = bus_queue (wd_buses w b)" "bus_notifier (wd_buses w' (hub_bus w)) = None"
    by (simp_all add: e on_bus_frame hub_frame EPS.defs enter_bus_def bus_reset_notifier_def)
  have v: "hub_modules ?v = hub_modules w" by (rule hub_fields_more(2) [of _ "w\<lparr>hub_notifier := None\<rparr>", simplified]) (simp add: hub_frame)
  have st: "md_store ?v = md_store w" "wd_tms ?v = wd_tms w" "md_this_thread ?v = md_this_thread w"
    by (simp_all add: hub_frame on_bus_frame)
  show "mod_unwired m w'" if "m \<in> set (hub_modules w)" unfolding e using that v by (intro wire_none_all(1)) simp
  show "tasks_silent m w'" if "tasks_silent m w"
    unfolding e using that st by (intro wire_none_all(2)) (simp add: tasks_silent_def)
  show "md_this_thread w' = md_this_thread w" "mod_worker (md_store w' m) = mod_worker (md_store w m)"
    "mod_off m w' = mod_off m w" "mod_is_initialized m w' = mod_is_initialized m w"
    using wire_none_all(3-6) [where ms = "hub_modules ?v" and w = ?v] st
    by (simp_all add: e mod_off_def mod_is_stopped_def mod_is_stopping_def mod_is_initialized_def)
qed

lemma hub_request_stop_effect:
  "hub_bus (hub_request_stop w) = hub_bus w" "hub_modules (hub_request_stop w) = hub_modules w"
  "hub_running (hub_request_stop w) = hub_running w" "hub_stop_requested (hub_request_stop w)"
  "mod_is_stopping m (hub_request_stop w) = mod_is_stopping m w" "mod_down m (hub_request_stop w) = mod_down m w"
  "md_this_thread (hub_request_stop w) = md_this_thread w"
proof -
  show "mod_is_stopping m (hub_request_stop w) = mod_is_stopping m w" "mod_down m (hub_request_stop w) = mod_down m w"
    "md_this_thread (hub_request_stop w) = md_this_thread w"
    by (simp_all add: hub_request_stop_def stop_workers_frame mod_down_def Let_def split: option.split)
      (simp_all add: mod_is_stopping_def mod_is_stopped_def)
  have "MODULES.more (hub_request_stop w) = MODULES.more (w\<lparr>hub_stop_requested := True\<rparr>)"
    by (simp add: hub_request_stop_def Let_def split: option.split)
  note hub_fields_more [OF this]
  then show "hub_bus (hub_request_stop w) = hub_bus w" "hub_modules (hub_request_stop w) = hub_modules w"
    "hub_running (hub_request_stop w) = hub_running w" "hub_stop_requested (hub_request_stop w)" by simp_all
qed

lemma hub_shutdown_effect:
  fixes w :: "('v, 'u, 'h, 'k, 'z) HUB_scheme"
  assumes ok: "shutdown_hook_ok hooks"
  defines "w' \<equiv> hub_shutdown hooks w"
  shows "hub_bus w' = hub_bus w" "hub_modules w' = hub_modules w" "hub_stop_requested w'" "\<not> hub_initialized w'"
    "hub_running w' = hub_running w" "m \<in> set (hub_modules w) \<Longrightarrow> mod_down m w'"
    "bus_queue (wd_buses w' (hub_bus w)) = []" "md_this_thread w' = md_this_thread w"
    "m \<in> set (hub_modules w) \<Longrightarrow> \<not> mod_is_stopping m w \<Longrightarrow> mod_off m w'"
    "m \<in> set (hub_modules w) \<Longrightarrow> \<not> mod_down m w \<Longrightarrow> \<not> mod_is_initialized m w'"
    "m \<in> set (hub_modules w) \<Longrightarrow> mod_joined m w'"
    "m \<in> set (hub_modules w) \<Longrightarrow> hooks_install_none hooks \<Longrightarrow> tasks_silent m w'"
proof -
  let ?r = "hub_request_stop w"
  let ?v = "shutdown_modules hooks ?r"
  note r = hub_request_stop_effect [where w = w]
  note v = shutdown_modules_effect [OF ok, where w = ?r]
  note f = hub_fields_more [OF v(1)]
  have e: "w' = (on_bus (hub_bus w) bus_clear_pending ?v)\<lparr>hub_initialized := False\<rparr>"
    using f(1) r by (simp add: w'_def hub_shutdown_def Let_def)
  have "MODULES.more (on_bus (hub_bus w) bus_clear_pending ?v) = MODULES.more ?v" by (simp add: hub_frame)
  note g = hub_fields_more [OF this]
  show "hub_bus w' = hub_bus w" "hub_modules w' = hub_modules w" "hub_stop_requested w'" "\<not> hub_initialized w'"
    "hub_running w' = hub_running w" using g f r by (simp_all add: e)
  show "mod_down m w'" if "m \<in> set (hub_modules w)"
  proof -
    have "mod_down m ?v" using v(2) r(2) that by simp
    then show ?thesis by (simp add: e mod_down_def mod_is_stopped_def mod_is_stopping_def hub_frame)
  qed
  show "bus_queue (wd_buses w' (hub_bus w)) = []"
    by (simp add: e on_bus_frame hub_frame EPS.defs bus_clear_pending_def)
  show "md_this_thread w' = md_this_thread w"
    using r by (simp add: e hub_frame shutdown_modules_eq shutdown_fold_thread [OF ok] stop_workers_frame join_workers_frame)
  assume m: "m \<in> set (hub_modules w)"
  then have m': "m \<in> set (hub_modules ?r)" using r(2) by simp
  note all = shutdown_modules_all [OF ok m']
  show "mod_off m w'" if "\<not> mod_is_stopping m w"
    using all(1) r that by (simp add: e mod_off_def mod_is_stopped_def mod_is_stopping_def hub_frame)
  show "\<not> mod_is_initialized m w'" if "\<not> mod_down m w"
    using shutdown_modules_gone [OF ok m'] r that
    by (simp add: e mod_gone_def mod_is_initialized_def hub_frame)
  show "mod_joined m w'" using all(2) by (simp add: e mod_joined_def hub_frame)
  show "tasks_silent m w'" if "hooks_install_none hooks"
    using all(3) [OF that] by (simp add: e tasks_silent_def hub_frame on_bus_frame)
qed

text \<open>
  C36: \<open>run\<close> leaves nothing running. However it ends, by a stop request or by an exception of a
  callback, a hook or a module's initialisation, let \<open>v\<close> be the state in which the loop ends. When \<open>run\<close>
  returns, the queue of the bus is empty, the hub's flags are reset, and every registered module is
  shut down: stopped, not initialised if it was not stopped in \<open>v\<close> already, without a worker thread. Only a
  module that was in the middle of its own \<^verbatim>\<open>shutdown()\<close> in \<open>v\<close>, further up the stack or on another
  thread, is left to that call. No notifier of the hub stays: not the hub's own, not the bus's, no module's
  worker-exception notifier, and no notifier of the task manager of a module that runs inline; nor one of
  any other module's manager, if the shutdown hooks install none. The exception, if any, is what \<open>run\<close>
  throws. User code is arbitrary, except that shutdown hooks leave the modules' and the hub's own fields
  alone.
\<close>

theorem hub_run_cleans_up:
  assumes ok: "shutdown_hook_ok hooks" and idle: "\<not> hub_running w"
    and run: "hub_run hc hooks others fuel w = Some (r, w')"
  shows "\<not> hub_running w' \<and> \<not> hub_initialized w' \<and> hub_stop_requested w' \<and>
    bus_queue (wd_buses w' (hub_bus w')) = [] \<and> hub_notifier w' = None \<and>
    bus_notifier (wd_buses w' (hub_bus w')) = None \<and>
    (\<forall>m \<in> set (hub_modules w'). mod_exception_notifier (md_store w' m) = None \<and>
       (mod_execution_mode m w' = inline_in_hub \<or> hooks_install_none hooks \<longrightarrow>
          tm_notifier (wd_tms w' (mod_tasks (md_store w' m))) = None)) \<and>
    (\<exists>v. hub_serve hc hooks others fuel
         (w\<lparr>hub_running := True, hub_background_exception := None, hub_stop_requested := False\<rparr>) = Some (r, v) \<and>
       hub_modules w' = hub_modules v \<and>
       (\<forall>m \<in> set (hub_modules v).
          (mod_worker (md_store w' m) \<longrightarrow> md_this_thread v = Worker_thread m) \<and>
          (if mod_is_stopping m v then mod_is_stopped m w' \<or> mod_is_stopping m w'
           else mod_is_stopped m w' \<and> \<not> mod_is_stopping m w' \<and>
             (\<not> mod_is_stopped m v \<longrightarrow> \<not> mod_is_initialized m w'))))"
proof -
  obtain v where v: "hub_serve hc hooks others fuel
      (w\<lparr>hub_running := True, hub_background_exception := None, hub_stop_requested := False\<rparr>) = Some (r, v)"
    and w': "w' = (hub_reset_notifier (hub_shutdown hooks v))\<lparr>hub_running := False\<rparr>"
    using run idle by (auto simp: hub_run_def clear_background_exception_def Let_def split: option.splits)
  let ?u = "hub_reset_notifier (hub_shutdown hooks v)"
  note s = hub_shutdown_effect [OF ok, where w = v]
  note n = hub_reset_notifier_effect [where w = "hub_shutdown hooks v"]
  note defs = mod_down_def mod_off_def mod_is_stopped_def mod_is_stopping_def mod_is_initialized_def
    mod_joined_def mod_unwired_def mod_execution_mode_def tasks_silent_def
  have fields: "md_store w' = md_store ?u" "wd_tms w' = wd_tms ?u" "wd_buses w' = wd_buses ?u"
    "hub_modules w' = hub_modules v" by (simp_all add: w' n s)
  have wired: "mod_exception_notifier (md_store w' m) = None \<and>
      (mod_execution_mode m w' = inline_in_hub \<or> hooks_install_none hooks \<longrightarrow>
         tm_notifier (wd_tms w' (mod_tasks (md_store w' m))) = None)" if "m \<in> set (hub_modules v)" for m
    using n(11) [of m] n(12) [of m] s(12) [of m] s(2) that by (auto simp: fields defs)
  have off: "(mod_worker (md_store w' m) \<longrightarrow> md_this_thread v = Worker_thread m) \<and>
      (if mod_is_stopping m v then mod_is_stopped m w' \<or> mod_is_stopping m w'
       else mod_is_stopped m w' \<and> \<not> mod_is_stopping m w' \<and>
         (\<not> mod_is_stopped m v \<longrightarrow> \<not> mod_is_initialized m w'))" if "m \<in> set (hub_modules v)" for m
    using s(6) [OF that] s(9-11) [OF that] n(7) [of m] n(13-15) [of m] s(8)
    by (auto simp: fields defs)
  have "\<not> hub_running w' \<and> \<not> hub_initialized w' \<and> hub_stop_requested w' \<and>
    bus_queue (wd_buses w' (hub_bus w')) = [] \<and> hub_notifier w' = None \<and>
    bus_notifier (wd_buses w' (hub_bus w')) = None"
    using s(1-7) n(1-9) by (simp add: w')
  then show ?thesis using v wired off fields(4) by auto
qed


section \<open>Initialising the hub\<close>

text \<open>The initialisation hook leaves the modules' and the hub's own fields alone.\<close>

definition init_hook_ok :: "('v, 'u, 'h, 'k, 'z) MODULES_scheme module_hooks \<Rightarrow> bool" where
  "init_hook_ok hooks \<longleftrightarrow>
     (\<forall>m w. md_store (fst (mh_initialize hooks m w)) = md_store w \<and>
        MODULES.more (fst (mh_initialize hooks m w)) = MODULES.more w)"

lemma mod_initialize_effect:
  assumes "init_hook_ok hooks" "mod_initialize hooks m w = (x, w')"
  shows "MODULES.more w' = MODULES.more w" "mod_down k w' = mod_down k w"
    "mod_is_initialized k w \<Longrightarrow> mod_is_initialized k w'" "x = None \<Longrightarrow> mod_is_initialized m w'"
proof -
  obtain v y where h: "mh_initialize hooks m w = (v, y)" by fastforce
  then have "md_store v = md_store w" "MODULES.more v = MODULES.more w"
    using assms(1) unfolding init_hook_ok_def by (metis fst_conv)+
  then show "MODULES.more w' = MODULES.more w" "mod_down k w' = mod_down k w"
    "mod_is_initialized k w \<Longrightarrow> mod_is_initialized k w'" "x = None \<Longrightarrow> mod_is_initialized m w'"
    using assms(2) h
    by (auto simp: mod_initialize_def mod_down_def mod_is_stopped_def mod_is_stopping_def mod_is_initialized_def
        split: if_splits option.splits)
qed

lemma init_modules_effect:
  assumes "init_hook_ok hooks"
  shows "init_modules hooks ms w = (x, w') \<Longrightarrow>
    MODULES.more w' = MODULES.more w \<and> (\<forall>k. mod_down k w' = mod_down k w) \<and>
    (\<forall>k. mod_is_initialized k w \<longrightarrow> mod_is_initialized k w') \<and>
    (x = None \<longrightarrow> (\<forall>k \<in> set ms. mod_is_initialized k w'))"
proof (induction ms arbitrary: w)
  case (Cons m ms)
  obtain y w1 where i: "mod_initialize hooks m w = (y, w1)" by fastforce
  note e = mod_initialize_effect [OF assms i]
  show ?case
  proof (cases y)
    case None
    then have "init_modules hooks ms w1 = (x, w')" using Cons.prems i by simp
    then show ?thesis using Cons.IH e None by auto
  next
    case (Some z)
    then show ?thesis using Cons.prems i e by auto
  qed
qed simp

lemma start_worker_frame [simp]:
  "MODULES.more (start_worker m w) = MODULES.more w"
  "mod_is_initialized k (start_worker m w) = mod_is_initialized k w"
  by (simp_all add: start_worker_def clear_worker_exception_def mod_is_initialized_def hub_frame Let_def)

lemma start_workers_frame [simp]:
  "MODULES.more (fold start_worker ms w) = MODULES.more w"
  "mod_is_initialized k (fold start_worker ms w) = mod_is_initialized k w"
  by (induction ms arbitrary: w) simp_all

lemma mod_is_initialized_flag:
  "mod_is_initialized k (w\<lparr>hub_initialized := b\<rparr>) = mod_is_initialized k w"
  by (simp add: mod_is_initialized_def)

text \<open>
  C37: initialising a hub is all or nothing. Either every module is initialised and the hub with
  them, or a module threw, the exception is passed on, and every module, the ones already initialised
  included, has been shut down and the hub is not initialised.
\<close>

theorem hub_initialize_all_or_nothing:
  assumes init: "init_hook_ok hooks" and shut: "shutdown_hook_ok hooks" and fresh: "\<not> hub_initialized w"
    "\<forall>m \<in> set (hub_modules w). \<not> mod_is_stopped m w \<and> \<not> mod_is_stopping m w"
    and run: "hub_initialize hooks w = (x, w')"
  shows "hub_modules w' = hub_modules w \<and>
    (if x = None then hub_initialized w' \<and> (\<forall>m \<in> set (hub_modules w). mod_is_initialized m w')
     else \<not> hub_initialized w' \<and>
       (\<forall>m \<in> set (hub_modules w). mod_is_stopped m w' \<and> \<not> mod_is_stopping m w' \<and> \<not> mod_is_initialized m w'))"
proof -
  obtain w1 where i: "init_modules hooks (hub_modules w) w = (x, w1)"
    using run fresh(1) by (auto simp: hub_initialize_def split: prod.splits option.splits)
  note e = init_modules_effect [OF init i]
  note f = hub_fields_more [OF e [THEN conjunct1]]
  show ?thesis
  proof (cases x)
    case None
    have "MODULES.more (fold start_worker (hub_modules w1) w1) = MODULES.more w1" by simp
    note g = hub_fields_more [OF this]
    have "w' = (fold start_worker (hub_modules w1) w1)\<lparr>hub_initialized := True\<rparr>"
      using run fresh(1) i None by (simp add: hub_initialize_def)
    then show ?thesis using None e f g by (simp add: mod_is_initialized_flag)
  next
    case (Some z)
    have w': "w' = shutdown_modules hooks w1" using run fresh(1) i Some by (simp add: hub_initialize_def)
    note g = hub_fields_more [OF shutdown_modules_effect(1) [OF shut, where w = w1]]
    have "mod_gone m w'" if "m \<in> set (hub_modules w)" for m
      unfolding w'
      by (rule shutdown_modules_gone [OF shut]) (use that f(2) e fresh(2) in \<open>simp_all add: mod_down_def\<close>)
    then show ?thesis using Some fresh(1) f g by (simp add: w' mod_gone_def)
  qed
qed


section \<open>Workers\<close>

interpretation wk: stoppable_loop "worker_iteration hc m" "worker_stop_requested m" for hc m
  by unfold_locales (simp add: worker_iteration_def)

interpretation hl: stoppable_loop "hub_iteration hc hooks" hub_stop_requested for hc hooks
  by unfold_locales (simp add: hub_iteration_def)

lemma hub_stop_ends_loop:
  "hub_stop_requested w \<Longrightarrow> hub_run_loop hc hooks others (Suc fuel) w = Some (None, w)"
  unfolding hub_run_loop_def by (rule hl.stopped_leaves)

lemma worker_stop_ends_loop:
  assumes "worker_stop_requested m w"
  shows "run_worker_loop hc others (Suc fuel) m w = Some w"
proof -
  have "worker_stop_requested m (w\<lparr>md_this_thread := Worker_thread m\<rparr>)"
    using assms by (simp add: worker_stop_requested_def)
  from wk.stopped_leaves [OF this] show ?thesis by (simp add: run_worker_loop_def)
qed

text \<open>
  C40: an exception that leaves a module's worker is not lost. The worker's loop ends, the exception is
  kept unless an earlier one still is, the hub's notifier is notified, and the next pass of the hub over
  the module throws it, once.
\<close>

theorem worker_exception_reaches_hub:
  assumes step: "worker_iteration hc m (w\<lparr>md_this_thread := Worker_thread m\<rparr>) = (Fail x, w1)"
    and none: "mod_worker_exception (md_store w1 m) = None" and n: "mod_exception_notifier (md_store w1 m) = Some n"
  shows "\<exists>w'. run_worker_loop hc others (Suc fuel) m w = Some w' \<and> worker_stop_requested m w' \<and>
    generation (wd_notifiers w' n) = generation (wd_notifiers w1 n) + 1 \<and>
    fst (process_module_tasks hc m w') = Inl x \<and>
    mod_worker_exception (md_store (snd (process_module_tasks hc m w')) m) = None"
proof -
  let ?v = "md_update m (\<lambda>d. d\<lparr>mod_worker_stop_requested := True\<rparr>) (store_worker_exception m x w1)"
  let ?w' = "(notify_id n ?v)\<lparr>md_this_thread := md_this_thread w\<rparr>"
  have "mod_exception_notifier (md_store ?v m) = Some n"
    using n by (simp add: store_worker_exception_def)
  then have r: "run_worker_loop hc others (Suc fuel) m w = Some ?w'"
    using step by (simp add: run_worker_loop_def notify_worker_exception_def Let_def)
  have x: "mod_worker_exception (md_store ?w' m) = Some x"
    using none by (simp add: store_worker_exception_def)
  have g: "generation (wd_notifiers ?w' n) = generation (wd_notifiers w1 n) + 1"
    using generation_notify_id [of n ?v] by (simp add: store_worker_exception_def md_update_def)
  show ?thesis
    using r x g
    by (intro exI [of _ ?w']) (simp add: worker_stop_requested_def process_module_tasks_def rethrow_worker_exception_def)
qed

end
