(* ===== verification/Module_Examples.thy ===== *)
theory Module_Examples
  imports Module_Theorems Task_Examples
begin

text \<open>
  A concrete hub with one module whose task manager holds one task, and user code in which every task
  throws: the hypotheses of the theorems about modules and the hub hold there.
\<close>

definition example_module :: "ModuleExecutionMode \<Rightarrow> Module" where
  "example_module mode = \<lparr> mod_bus = 0, mod_endpoint = 7, mod_tasks = 3,
     mod_options = \<lparr> mo_execution = mode, mo_max_tasks = 64 \<rparr>, mod_initialized = False, mod_stopping = False,
     mod_stopped = False, mod_worker_notifier = 6, mod_worker = False, mod_worker_stop_requested = False,
     mod_exception_notifier = Some 4, mod_worker_exception = None \<rparr>"

definition example_hub :: "ModuleExecutionMode \<Rightarrow> (nat, nat, nat, nat) HUB" where
  "example_hub mode =
     \<lparr> wd_buses = (\<lambda>_. idle_bus (Some 4)), wd_tms = (\<lambda>_. one_task),
       wd_notifiers = (\<lambda>_. SyncNotifier_init), wd_clock = (\<lambda>n. int n), wd_task_clock = (\<lambda>_ _. (0, 0)), wd_reads = 0,
       md_store = (\<lambda>_. example_module mode), md_this_thread = Main_thread,
       hub_bus = 0, hub_modules = [1], hub_local_notifier = 4, hub_notifier = Some 4, hub_initialized = False,
       hub_stop_requested = False, hub_running = False, hub_thread = False, hub_background_exception = None \<rparr>"

definition failing_hooks :: "('v, 'u, 'h, 'k, 'z) MODULES_scheme module_hooks" where
  "failing_hooks = default_hooks\<lparr>mh_initialize := (\<lambda>m w. (w, Some (User_exn m)))\<rparr>"


definition throwing_code :: "(nat, nat, nat, nat, (nat, nat, nat, nat) HUB) hub_code" where
  "throwing_code = \<lparr> hc_call = (\<lambda>u v w. (w, None)), hc_listener = (\<lambda>u v w. (w, None)),
     hc_pred = (\<lambda>u v w. (Inr True, w)), hc_thunk = (\<lambda>u w. (w, None)), hc_handler = (\<lambda>h x w. (w, None)),
     hc_get_id = of_nat, hc_set_id = (\<lambda>i v. unat i), hc_task = (\<lambda>k c w. (w, Some (User_exn k))),
     hc_task_handler = (\<lambda>k x w. (w, None)) \<rparr>"

lemma hooks_ok:
  "shutdown_hook_ok default_hooks" "init_hook_ok default_hooks"
  "shutdown_hook_ok failing_hooks" "init_hook_ok failing_hooks"
  by (simp_all add: shutdown_hook_ok_def init_hook_ok_def default_hooks_def failing_hooks_def)

theorem module_shutdown_final_witness:
  "mod_is_stopped 1 (mod_shutdown default_hooks 1 (example_hub manual))"
proof -
  have "\<not> mod_is_stopped 1 (example_hub manual)" "\<not> mod_is_stopping 1 (example_hub manual)"
    by (simp_all add: example_hub_def example_module_def mod_is_stopped_def mod_is_stopping_def)
  then show ?thesis using module_shutdown_final [OF hooks_ok(1), of 1 "example_hub manual"] by (simp add: Let_def)
qed

theorem hub_initialize_all_or_nothing_witness:
  "mod_is_initialized 1 (snd (hub_initialize default_hooks (example_hub manual)))"
proof -
  have x: "fst (hub_initialize default_hooks (example_hub manual)) = None"
    by (simp add: hub_initialize_def example_hub_def example_module_def mod_initialize_def mod_is_initialized_def
        mod_is_stopped_def mod_is_stopping_def default_hooks_def)
  have "\<not> hub_initialized (example_hub manual)"
    "\<forall>m \<in> set (hub_modules (example_hub manual)). \<not> mod_is_stopped m (example_hub manual) \<and> \<not> mod_is_stopping m (example_hub manual)"
    by (simp_all add: example_hub_def example_module_def mod_is_stopped_def mod_is_stopping_def)
  from hub_initialize_all_or_nothing [OF hooks_ok(2,1) this surjective_pairing] x
  show ?thesis by (simp add: example_hub_def)
qed

lemma failing_run:
  "\<exists>w'. hub_run throwing_code failing_hooks id 0 (example_hub manual) = Some (Some (User_exn 1), w')"
  by (simp add: hub_run_def clear_background_exception_def hub_serve_def hub_set_notifier_def wire_sources_notifier_def wire_module_notifier_def
      hub_initialize_def example_hub_def example_module_def mod_initialize_def mod_is_initialized_def
      mod_is_stopped_def mod_is_stopping_def failing_hooks_def mod_execution_mode_def set_worker_exception_notifier_def
      md_update_def on_bus_def leave_bus_def enter_bus_def bus_set_notifier_def idle_bus_def EPS.defs Let_def)

theorem hub_run_cleans_up_witness:
  "\<exists>w'. hub_run throwing_code failing_hooks id 0 (example_hub manual) = Some (Some (User_exn 1), w') \<and>
     \<not> hub_running w' \<and> (\<forall>m \<in> set (hub_modules w'). mod_exception_notifier (md_store w' m) = None)"
proof -
  obtain w' where r: "hub_run throwing_code failing_hooks id 0 (example_hub manual) = Some (Some (User_exn 1), w')"
    using failing_run by blast
  have "\<not> hub_running (example_hub manual)" by (simp add: example_hub_def)
  from hub_run_cleans_up [OF hooks_ok(3) this r] r show ?thesis by blast
qed

lemma worker_fails:
  "\<exists>w1. worker_iteration throwing_code 1 ((example_hub private_thread)\<lparr>md_this_thread := Worker_thread 1\<rparr>) =
     (Fail (User_exn 7), w1) \<and> md_store w1 = (\<lambda>_. example_module private_thread)"
  by (simp add: worker_iteration_def example_hub_def example_module_def worker_stop_requested_def world_tm_process_def
      read_clock_def enter_tm_def one_task_eq TM.defs process_def process_traced_def process_eval mod_max_tasks_per_process_def Let_def)
    (simp add: transition_eq start_entry_def uncount_started_def task_runner_def throwing_code_def
      leave_tm_def enter_tm_def TM.defs decrement_pending_count_def finish_after_exception_def entry_state_def
      report_exception_def restore_unrun_def tm_update_defs clear_reschedule_def index_erase_def Let_def)

theorem worker_exception_reaches_hub_witness:
  "\<exists>w'. run_worker_loop throwing_code id 1 1 (example_hub private_thread) = Some w' \<and>
     fst (process_module_tasks throwing_code 1 w') = Inl (User_exn 7)"
proof -
  obtain w1 where w1: "worker_iteration throwing_code 1 ((example_hub private_thread)\<lparr>md_this_thread := Worker_thread 1\<rparr>) =
     (Fail (User_exn 7), w1)" "md_store w1 = (\<lambda>_. example_module private_thread)" using worker_fails by blast
  have "mod_worker_exception (md_store w1 1) = None" "mod_exception_notifier (md_store w1 1) = Some 4"
    by (simp_all add: w1(2) example_module_def)
  from worker_exception_reaches_hub [OF w1(1) this, of id 0] show ?thesis by auto
qed

end
