(* ===== verification/Calendar_Time.thy ===== *)
theory Calendar_Time
  imports Task
begin

text \<open>
  The calendar rules (\<^verbatim>\<open>calendar_scheduler/types.hpp\<close>, and the rule providers of
  \<^verbatim>\<open>calendar_scheduler/detail.hpp\<close>): options, schedules, their normalisation, and the search for the next
  occurrence of a rule. The calendar arithmetic itself comes from the library time-shield, which the
  repository only calls; it is the parameter \<open>time_shield\<close> below, a field per function the code calls.
  Timestamps are milliseconds and unbounded integers.
\<close>

section \<open>What the code uses of time-shield\<close>

text \<open>
  \<^verbatim>\<open>DateTimeStruct\<close> with the three members the code reads; \<^verbatim>\<open>Weekday\<close> is an enumeration and stands for its
  underlying number. \<open>'clk\<close> is \<^verbatim>\<open>ZonedClock\<close>, \<open>'zone\<close> is \<^verbatim>\<open>TimeZone\<close>.
\<close>

record DateTimeStruct =
  dt_year :: int
  dt_mon :: int
  dt_day :: int

record LocalTime =
  lt_hour :: int
  lt_min :: int
  lt_sec :: int
  lt_ms :: int

type_synonym Weekday = int

text \<open>
  \<open>ts_date_time_of_ms\<close> is \<^verbatim>\<open>DateTime::from_unix_ms(ms).to_date_time_struct_utc()\<close>;
  \<open>ts_zone_to_gmt_ms\<close> is \<^verbatim>\<open>zone_to_gmt_ms\<close> with the policies \<^verbatim>\<open>first_occurrence\<close> and \<^verbatim>\<open>error\<close>;
  \<open>ts_zoned_clock_fixed\<close> is the constructor \<^verbatim>\<open>ZonedClock(tz_t)\<close>, which may throw; \<open>ts_utc_time_ms clk n\<close>
  is what the \<open>n\<close>-th reading of a clock shows.
\<close>

record ('clk, 'zone) time_shield =
  ts_SUN :: Weekday
  ts_SAT :: Weekday
  ts_MAX_SEC_PER_DAY :: int
  ts_MS_PER_SEC :: int
  ts_MS_PER_DAY :: int
  ts_ERROR_TIMESTAMP :: int
  ts_is_valid_time :: "LocalTime \<Rightarrow> bool"
  ts_sec_of_day :: "int \<Rightarrow> int \<Rightarrow> int \<Rightarrow> int"
  ts_date_time_of_ms :: "int \<Rightarrow> DateTimeStruct"
  ts_to_timestamp_ms :: "int \<Rightarrow> int \<Rightarrow> int \<Rightarrow> int"
  ts_day_of_week_date :: "int \<Rightarrow> int \<Rightarrow> int \<Rightarrow> Weekday"
  ts_gmt_to_zone_ms :: "int \<Rightarrow> 'zone \<Rightarrow> int"
  ts_zone_to_gmt_ms :: "int \<Rightarrow> 'zone \<Rightarrow> int"
  ts_default_clock :: 'clk
  ts_zoned_clock_fixed :: "int \<Rightarrow> exn + 'clk"
  ts_set_zone :: "'zone \<Rightarrow> 'clk \<Rightarrow> 'clk"
  ts_has_named_zone :: "'clk \<Rightarrow> bool"
  ts_zone :: "'clk \<Rightarrow> 'zone"
  ts_offset_at_utc_ms :: "'clk \<Rightarrow> int \<Rightarrow> int"
  ts_utc_time_ms :: "'clk \<Rightarrow> nat \<Rightarrow> int"

section \<open>Times of day\<close>

text \<open>\<^verbatim>\<open>static_cast<std::int16_t>\<close> keeps the low 16 bits.\<close>

definition int16 :: "int \<Rightarrow> int" where
  "int16 n = signed_take_bit 15 n"

definition time_of_day :: "int \<Rightarrow> int \<Rightarrow> int \<Rightarrow> int \<Rightarrow> LocalTime" where
  "time_of_day hour minute second millisecond =
     \<lparr> lt_hour = int16 hour, lt_min = int16 minute, lt_sec = int16 second, lt_ms = int16 millisecond \<rparr>"

definition is_valid_time_of_day :: "('clk, 'zone) time_shield \<Rightarrow> LocalTime \<Rightarrow> bool" where
  "is_valid_time_of_day ts t \<longleftrightarrow> lt_ms t = 0 \<and> ts_is_valid_time ts t"

definition second_of_day :: "('clk, 'zone) time_shield \<Rightarrow> LocalTime \<Rightarrow> int" where
  "second_of_day ts t = ts_sec_of_day ts (lt_hour t) (lt_min t) (lt_sec t)"

definition ms_of_day :: "('clk, 'zone) time_shield \<Rightarrow> LocalTime \<Rightarrow> int" where
  "ms_of_day ts t = second_of_day ts t * ts_MS_PER_SEC ts + lt_ms t"

definition valid_second_of_day :: "('clk, 'zone) time_shield \<Rightarrow> int \<Rightarrow> bool" where
  "valid_second_of_day ts second \<longleftrightarrow> second \<ge> 0 \<and> second \<le> ts_MAX_SEC_PER_DAY ts"

definition valid_weekday :: "('clk, 'zone) time_shield \<Rightarrow> Weekday \<Rightarrow> bool" where
  "valid_weekday ts day \<longleftrightarrow> day \<ge> ts_SUN ts \<and> day \<le> ts_SAT ts"

section \<open>Options\<close>

datatype CalendarMissedRunPolicy = Missed_skip | Missed_run_once_immediately
datatype CalendarOverlapPolicy = Overlap_skip | Overlap_queue_one_after_current

text \<open>\<open>'u\<close> is a handle of user code: \<^verbatim>\<open>now_provider\<close> and \<^verbatim>\<open>observer\<close> are \<^verbatim>\<open>std::function\<close>s, empty or not.\<close>

record ('u, 'clk) CalendarTaskOptions =
  cto_priority :: TaskPriority
  cto_missed_policy :: CalendarMissedRunPolicy
  cto_overlap_policy :: CalendarOverlapPolicy
  cto_clock :: 'clk
  cto_now_provider :: "'u option"
  cto_last_due_utc_ms :: "int option"
  cto_observer :: "'u option"

definition default_CalendarTaskOptions :: "('clk, 'zone) time_shield \<Rightarrow> ('u, 'clk) CalendarTaskOptions" where
  "default_CalendarTaskOptions ts =
     \<lparr> cto_priority = normal, cto_missed_policy = Missed_skip, cto_overlap_policy = Overlap_skip,
       cto_clock = ts_default_clock ts, cto_now_provider = None, cto_last_due_utc_ms = None,
       cto_observer = None \<rparr>"

definition set_zone ::
  "('clk, 'zone) time_shield \<Rightarrow> 'zone \<Rightarrow> ('u, 'clk) CalendarTaskOptions \<Rightarrow> ('u, 'clk) CalendarTaskOptions" where
  "set_zone ts zone options = options\<lparr>cto_clock := ts_set_zone ts zone (cto_clock options)\<rparr>"

definition set_clock :: "'clk \<Rightarrow> ('u, 'clk) CalendarTaskOptions \<Rightarrow> ('u, 'clk) CalendarTaskOptions" where
  "set_clock value options = options\<lparr>cto_clock := value\<rparr>"

definition set_fixed_utc_offset ::
  "('clk, 'zone) time_shield \<Rightarrow> int \<Rightarrow> ('u, 'clk) CalendarTaskOptions \<Rightarrow> exn + ('u, 'clk) CalendarTaskOptions" where
  "set_fixed_utc_offset ts utc_offset_seconds options =
     map_sum id (\<lambda>c. options\<lparr>cto_clock := c\<rparr>) (ts_zoned_clock_fixed ts utc_offset_seconds)"

definition use_now_provider ::
  "'u option \<Rightarrow> ('u, 'clk) CalendarTaskOptions \<Rightarrow> ('u, 'clk) CalendarTaskOptions" where
  "use_now_provider provider options = options\<lparr>cto_now_provider := provider\<rparr>"

definition in_zone :: "('clk, 'zone) time_shield \<Rightarrow> 'zone \<Rightarrow> ('u, 'clk) CalendarTaskOptions" where
  "in_zone ts zone =
     (let options = default_CalendarTaskOptions ts
      in options\<lparr>cto_clock := ts_set_zone ts zone (cto_clock options)\<rparr>)"

definition with_clock :: "('clk, 'zone) time_shield \<Rightarrow> 'clk \<Rightarrow> ('u, 'clk) CalendarTaskOptions" where
  "with_clock ts clock = (default_CalendarTaskOptions ts)\<lparr>cto_clock := clock\<rparr>"

definition fixed_utc_offset :: "('clk, 'zone) time_shield \<Rightarrow> int \<Rightarrow> exn + ('u, 'clk) CalendarTaskOptions" where
  "fixed_utc_offset ts utc_offset_seconds =
     map_sum id (\<lambda>c. (default_CalendarTaskOptions ts)\<lparr>cto_clock := c\<rparr>) (ts_zoned_clock_fixed ts utc_offset_seconds)"

section \<open>Schedules\<close>

text \<open>The arrays of 7 and 32 vectors; a weekday or a month day is the index.\<close>

record WeeklySchedule =
  seconds_by_weekday :: "int list list"

record MonthlySchedule =
  seconds_by_month_day :: "int list list"

definition WeeklySchedule_init :: WeeklySchedule where
  "WeeklySchedule_init = \<lparr> seconds_by_weekday = replicate 7 [] \<rparr>"

definition MonthlySchedule_init :: MonthlySchedule where
  "MonthlySchedule_init = \<lparr> seconds_by_month_day = replicate 32 [] \<rparr>"

definition push_at :: "nat \<Rightarrow> int \<Rightarrow> int list list \<Rightarrow> int list list" where
  "push_at i second xss = xss[i := xss ! i @ [second]]"

definition WeeklySchedule_add ::
  "('clk, 'zone) time_shield \<Rightarrow> Weekday \<Rightarrow> int \<Rightarrow> WeeklySchedule \<Rightarrow> WeeklySchedule" where
  "WeeklySchedule_add ts day second schedule =
     (if day \<ge> ts_SUN ts \<and> day \<le> ts_SAT ts \<and> second \<ge> 0 \<and> second \<le> ts_MAX_SEC_PER_DAY ts
      then schedule\<lparr>seconds_by_weekday := push_at (nat day) second (seconds_by_weekday schedule)\<rparr>
      else schedule)"

definition WeeklySchedule_add_time ::
  "('clk, 'zone) time_shield \<Rightarrow> Weekday \<Rightarrow> LocalTime \<Rightarrow> WeeklySchedule \<Rightarrow> WeeklySchedule" where
  "WeeklySchedule_add_time ts day t schedule =
     (if is_valid_time_of_day ts t then WeeklySchedule_add ts day (second_of_day ts t) schedule else schedule)"

definition MonthlySchedule_add ::
  "('clk, 'zone) time_shield \<Rightarrow> int \<Rightarrow> int \<Rightarrow> MonthlySchedule \<Rightarrow> MonthlySchedule" where
  "MonthlySchedule_add ts month_day second schedule =
     (if month_day \<ge> 1 \<and> month_day < int (length (seconds_by_month_day schedule)) \<and>
         second \<ge> 0 \<and> second \<le> ts_MAX_SEC_PER_DAY ts
      then schedule\<lparr>seconds_by_month_day := push_at (nat month_day) second (seconds_by_month_day schedule)\<rparr>
      else schedule)"

definition MonthlySchedule_add_time ::
  "('clk, 'zone) time_shield \<Rightarrow> int \<Rightarrow> LocalTime \<Rightarrow> MonthlySchedule \<Rightarrow> MonthlySchedule" where
  "MonthlySchedule_add_time ts month_day t schedule =
     (if is_valid_time_of_day ts t then MonthlySchedule_add ts month_day (second_of_day ts t) schedule
      else schedule)"

text \<open>\<^verbatim>\<open>remove_if\<close>, \<^verbatim>\<open>sort\<close> and \<^verbatim>\<open>unique\<close>.\<close>

definition normalize_seconds :: "('clk, 'zone) time_shield \<Rightarrow> int list \<Rightarrow> int list" where
  "normalize_seconds ts seconds = remdups_adj (sort (filter (valid_second_of_day ts) seconds))"

text \<open>The loop over the vectors of an array, with the flag \<^verbatim>\<open>has_any\<close>.\<close>

fun normalize_each ::
  "('clk, 'zone) time_shield \<Rightarrow> bool \<Rightarrow> int list list \<Rightarrow> bool \<times> int list list" where
  "normalize_each ts has_any [] = (has_any, [])"
| "normalize_each ts has_any (seconds # rest) =
     (let seconds = normalize_seconds ts seconds;
          (has_any, rest) = normalize_each ts (has_any \<or> seconds \<noteq> []) rest
      in (has_any, seconds # rest))"

definition normalize_weekly :: "('clk, 'zone) time_shield \<Rightarrow> WeeklySchedule \<Rightarrow> bool \<times> WeeklySchedule" where
  "normalize_weekly ts schedule =
     (case normalize_each ts False (seconds_by_weekday schedule) of
        (has_any, xss) \<Rightarrow> (has_any, schedule\<lparr>seconds_by_weekday := xss\<rparr>))"

definition normalize_monthly :: "('clk, 'zone) time_shield \<Rightarrow> MonthlySchedule \<Rightarrow> bool \<times> MonthlySchedule" where
  "normalize_monthly ts schedule =
     (case normalize_each ts False (tl (seconds_by_month_day schedule)) of
        (has_any, xss) \<Rightarrow> (has_any, schedule\<lparr>seconds_by_month_day := [] # xss\<rparr>))"

section \<open>Local and UTC time\<close>

definition utc_to_local_ms ::
  "('clk, 'zone) time_shield \<Rightarrow> ('u, 'clk) CalendarTaskOptions \<Rightarrow> int \<Rightarrow> int" where
  "utc_to_local_ms ts options utc_ms =
     (let clk = cto_clock options in
      if ts_has_named_zone ts clk then ts_gmt_to_zone_ms ts utc_ms (ts_zone ts clk)
      else utc_ms + ts_offset_at_utc_ms ts clk utc_ms * ts_MS_PER_SEC ts)"

definition local_to_utc_ms ::
  "('clk, 'zone) time_shield \<Rightarrow> ('u, 'clk) CalendarTaskOptions \<Rightarrow> int \<Rightarrow> int" where
  "local_to_utc_ms ts options local_ms =
     (let clk = cto_clock options in
      if ts_has_named_zone ts clk then ts_zone_to_gmt_ms ts local_ms (ts_zone ts clk)
      else local_ms - ts_offset_at_utc_ms ts clk 0 * ts_MS_PER_SEC ts)"

definition local_struct_from_ms :: "('clk, 'zone) time_shield \<Rightarrow> int \<Rightarrow> DateTimeStruct" where
  "local_struct_from_ms ts local_ms = ts_date_time_of_ms ts local_ms"

definition local_day_start_ms :: "('clk, 'zone) time_shield \<Rightarrow> int \<Rightarrow> int" where
  "local_day_start_ms ts local_ms =
     (let dt = local_struct_from_ms ts local_ms in ts_to_timestamp_ms ts (dt_year dt) (dt_mon dt) (dt_day dt))"

section \<open>The search for the next occurrence\<close>

fun scan_seconds ::
  "('clk, 'zone) time_shield \<Rightarrow> ('u, 'clk) CalendarTaskOptions \<Rightarrow> int \<Rightarrow> int \<Rightarrow> int list \<Rightarrow> int option" where
  "scan_seconds ts options after_utc_ms current_day [] = None"
| "scan_seconds ts options after_utc_ms current_day (second # seconds) =
     (let local_due = current_day + second * ts_MS_PER_SEC ts;
          utc_due = local_to_utc_ms ts options local_due
      in if utc_due = ts_ERROR_TIMESTAMP ts then scan_seconds ts options after_utc_ms current_day seconds
         else if utc_due > after_utc_ms then Some utc_due
         else scan_seconds ts options after_utc_ms current_day seconds)"

text \<open>The loop over the days, here over the list of the offsets still to come.\<close>

fun scan_days ::
  "('clk, 'zone) time_shield \<Rightarrow> ('u, 'clk) CalendarTaskOptions \<Rightarrow> int \<Rightarrow> int \<Rightarrow>
   (DateTimeStruct \<Rightarrow> bool) \<Rightarrow> (DateTimeStruct \<Rightarrow> int list) \<Rightarrow> nat list \<Rightarrow> int option" where
  "scan_days ts options after_utc_ms day_start day_allowed seconds_for_day [] = None"
| "scan_days ts options after_utc_ms day_start day_allowed seconds_for_day (offset # offsets) =
     (let current_day = day_start + int offset * ts_MS_PER_DAY ts;
          dt = local_struct_from_ms ts current_day
      in if \<not> day_allowed dt
         then scan_days ts options after_utc_ms day_start day_allowed seconds_for_day offsets
         else case scan_seconds ts options after_utc_ms current_day (seconds_for_day dt) of
                Some utc_due \<Rightarrow> Some utc_due
              | None \<Rightarrow> scan_days ts options after_utc_ms day_start day_allowed seconds_for_day offsets)"

definition scan_local_days ::
  "('clk, 'zone) time_shield \<Rightarrow> ('u, 'clk) CalendarTaskOptions \<Rightarrow> int \<Rightarrow> nat \<Rightarrow>
   (DateTimeStruct \<Rightarrow> bool) \<Rightarrow> (DateTimeStruct \<Rightarrow> int list) \<Rightarrow> int option" where
  "scan_local_days ts options after_utc_ms max_days day_allowed seconds_for_day =
     (let local_after = utc_to_local_ms ts options after_utc_ms;
          day_start = local_day_start_ms ts local_after
      in scan_days ts options after_utc_ms day_start day_allowed seconds_for_day [0 ..< Suc max_days])"

text \<open>
  The closures of the three providers; the observed time they ignore is the argument of a custom one only.
\<close>

definition daily_next ::
  "('clk, 'zone) time_shield \<Rightarrow> int list \<Rightarrow> ('u, 'clk) CalendarTaskOptions \<Rightarrow> int \<Rightarrow> int option" where
  "daily_next ts seconds options after_utc_ms =
     scan_local_days ts options after_utc_ms 2 (\<lambda>dt. True) (\<lambda>dt. seconds)"

definition weekday_of :: "('clk, 'zone) time_shield \<Rightarrow> DateTimeStruct \<Rightarrow> nat" where
  "weekday_of ts dt = nat (ts_day_of_week_date ts (dt_year dt) (dt_mon dt) (dt_day dt))"

definition weekly_next ::
  "('clk, 'zone) time_shield \<Rightarrow> WeeklySchedule \<Rightarrow> ('u, 'clk) CalendarTaskOptions \<Rightarrow> int \<Rightarrow> int option" where
  "weekly_next ts schedule options after_utc_ms =
     scan_local_days ts options after_utc_ms 14
       (\<lambda>dt. seconds_by_weekday schedule ! weekday_of ts dt \<noteq> [])
       (\<lambda>dt. seconds_by_weekday schedule ! weekday_of ts dt)"

definition monthly_next ::
  "('clk, 'zone) time_shield \<Rightarrow> MonthlySchedule \<Rightarrow> ('u, 'clk) CalendarTaskOptions \<Rightarrow> int \<Rightarrow> int option" where
  "monthly_next ts schedule options after_utc_ms =
     scan_local_days ts options after_utc_ms 370
       (\<lambda>dt. dt_day dt \<ge> 1 \<and> dt_day dt < int (length (seconds_by_month_day schedule)) \<and>
             seconds_by_month_day schedule ! nat (dt_day dt) \<noteq> [])
       (\<lambda>dt. seconds_by_month_day schedule ! nat (dt_day dt))"

text \<open>A \<^verbatim>\<open>RuleProvider\<close> is one of the three closures, or the one around a user's \<^verbatim>\<open>NextTimeProvider\<close>.\<close>

datatype 'u RuleProvider =
    Daily "int list"
  | Weekly WeeklySchedule
  | Monthly MonthlySchedule
  | Custom 'u

end
