(* ===== verification/Calendar_Next.thy ===== *)
theory Calendar_Next
  imports Calendar_Time
begin

text \<open>
  The search for the next occurrence against its specification: the least occurrence of the rule after
  the given instant. The hypotheses on time-shield are what its documentation says of days, of weekdays,
  of months and of the conversion between local time and UTC; a concrete calendar at the end has them.
\<close>

section \<open>What the proofs use of time-shield\<close>

text \<open>Days have a constant length that the seconds of a day do not exceed, and begin where they should.\<close>

definition days_ok :: "('clk, 'zone) time_shield \<Rightarrow> bool" where
  "days_ok ts \<longleftrightarrow>
     ts_MS_PER_SEC ts > 0 \<and> ts_MAX_SEC_PER_DAY ts \<ge> 0 \<and>
     (ts_MAX_SEC_PER_DAY ts + 1) * ts_MS_PER_SEC ts = ts_MS_PER_DAY ts \<and>
     (\<forall>m. local_day_start_ms ts m = m div ts_MS_PER_DAY ts * ts_MS_PER_DAY ts)"

text \<open>
  The conversion from local time to UTC, with an error for the local times that do not exist, keeps the
  order; a local time before the one shown at an instant is not after that instant.
\<close>

definition zone_ok :: "('clk, 'zone) time_shield \<Rightarrow> ('u, 'clk) CalendarTaskOptions \<Rightarrow> bool" where
  "zone_ok ts options \<longleftrightarrow>
     (\<forall>l l'. l < l' \<and> local_to_utc_ms ts options l \<noteq> ts_ERROR_TIMESTAMP ts \<and>
         local_to_utc_ms ts options l' \<noteq> ts_ERROR_TIMESTAMP ts \<longrightarrow>
         local_to_utc_ms ts options l < local_to_utc_ms ts options l') \<and>
     (\<forall>l u. l < utc_to_local_ms ts options u \<and> local_to_utc_ms ts options l \<noteq> ts_ERROR_TIMESTAMP ts \<longrightarrow>
         local_to_utc_ms ts options l \<le> u)"

definition fixed_offset :: "('clk, 'zone) time_shield \<Rightarrow> ('u, 'clk) CalendarTaskOptions \<Rightarrow> bool" where
  "fixed_offset ts options \<longleftrightarrow>
     \<not> ts_has_named_zone ts (cto_clock options) \<and>
     (\<forall>u. ts_offset_at_utc_ms ts (cto_clock options) u = ts_offset_at_utc_ms ts (cto_clock options) 0)"

text \<open>Weekdays repeat after seven days; every day of a month comes twice within 370 days.\<close>

definition day_of :: "('clk, 'zone) time_shield \<Rightarrow> int \<Rightarrow> DateTimeStruct" where
  "day_of ts n = local_struct_from_ms ts (n * ts_MS_PER_DAY ts)"

definition weekdays_ok :: "('clk, 'zone) time_shield \<Rightarrow> bool" where
  "weekdays_ok ts \<longleftrightarrow> (\<forall>n. weekday_of ts (day_of ts n) = nat ((n + 4) mod 7))"

definition month_days_ok :: "('clk, 'zone) time_shield \<Rightarrow> bool" where
  "month_days_ok ts \<longleftrightarrow>
     (\<forall>n d. 1 \<le> d \<and> d \<le> 31 \<longrightarrow>
        (\<exists>j k. 1 \<le> j \<and> j < k \<and> k \<le> 370 \<and> dt_day (day_of ts (n + j)) = d \<and> dt_day (day_of ts (n + k)) = d))"

lemma fixed_offset_zone_ok:
  "0 < ts_MS_PER_SEC ts \<Longrightarrow> fixed_offset ts options \<Longrightarrow> zone_ok ts options"
proof -
  assume "0 < ts_MS_PER_SEC ts" and f: "fixed_offset ts options"
  define d where "d = ts_offset_at_utc_ms ts (cto_clock options) 0 * ts_MS_PER_SEC ts"
  have "utc_to_local_ms ts options u = u + d" "local_to_utc_ms ts options l = l - d" for u l
    using f by (simp_all add: fixed_offset_def utc_to_local_ms_def local_to_utc_ms_def Let_def d_def)
  then show ?thesis by (simp add: zone_ok_def)
qed

section \<open>The specification\<close>

text \<open>The seconds of a rule on a given day, and how many days after the first one the search looks at.\<close>

fun rule_seconds :: "('clk, 'zone) time_shield \<Rightarrow> 'u RuleProvider \<Rightarrow> DateTimeStruct \<Rightarrow> int list" where
  "rule_seconds ts (Daily seconds) dt = seconds"
| "rule_seconds ts (Weekly schedule) dt = seconds_by_weekday schedule ! weekday_of ts dt"
| "rule_seconds ts (Monthly schedule) dt =
     (if dt_day dt \<ge> 1 \<and> dt_day dt < int (length (seconds_by_month_day schedule))
      then seconds_by_month_day schedule ! nat (dt_day dt) else [])"
| "rule_seconds ts (Custom u) dt = []"

fun rule_window :: "'u RuleProvider \<Rightarrow> nat" where
  "rule_window (Daily seconds) = 2"
| "rule_window (Weekly schedule) = 14"
| "rule_window (Monthly schedule) = 370"
| "rule_window (Custom u) = 0"

fun rule_next ::
  "('clk, 'zone) time_shield \<Rightarrow> 'u RuleProvider \<Rightarrow> ('u, 'clk) CalendarTaskOptions \<Rightarrow> int \<Rightarrow> int option" where
  "rule_next ts (Daily seconds) options after = daily_next ts seconds options after"
| "rule_next ts (Weekly schedule) options after = weekly_next ts schedule options after"
| "rule_next ts (Monthly schedule) options after = monthly_next ts schedule options after"
| "rule_next ts (Custom u) options after = None"

definition first_day ::
  "('clk, 'zone) time_shield \<Rightarrow> ('u, 'clk) CalendarTaskOptions \<Rightarrow> int \<Rightarrow> int" where
  "first_day ts options after = utc_to_local_ms ts options after div ts_MS_PER_DAY ts"

text \<open>\<open>u\<close> is an occurrence of the rule, on the local day \<open>n\<close>.\<close>

definition occurs_on ::
  "('clk, 'zone) time_shield \<Rightarrow> 'u RuleProvider \<Rightarrow> ('u, 'clk) CalendarTaskOptions \<Rightarrow> int \<Rightarrow> int \<Rightarrow> bool" where
  "occurs_on ts p options n u \<longleftrightarrow>
     u \<noteq> ts_ERROR_TIMESTAMP ts \<and>
     (\<exists>s \<in> set (rule_seconds ts p (day_of ts n)).
        u = local_to_utc_ms ts options (n * ts_MS_PER_DAY ts + s * ts_MS_PER_SEC ts))"

text \<open>The seconds of every day are those of a normalised schedule.\<close>

definition seconds_ok :: "('clk, 'zone) time_shield \<Rightarrow> int list \<Rightarrow> bool" where
  "seconds_ok ts secs \<longleftrightarrow> sorted_wrt (<) secs \<and> (\<forall>s \<in> set secs. valid_second_of_day ts s)"

fun rule_ok :: "('clk, 'zone) time_shield \<Rightarrow> 'u RuleProvider \<Rightarrow> bool" where
  "rule_ok ts (Daily seconds) \<longleftrightarrow> seconds_ok ts seconds"
| "rule_ok ts (Weekly schedule) \<longleftrightarrow>
     length (seconds_by_weekday schedule) = 7 \<and> list_all (seconds_ok ts) (seconds_by_weekday schedule)"
| "rule_ok ts (Monthly schedule) \<longleftrightarrow>
     length (seconds_by_month_day schedule) = 32 \<and> list_all (seconds_ok ts) (seconds_by_month_day schedule)"
| "rule_ok ts (Custom u) \<longleftrightarrow> False"

section \<open>Normalised schedules\<close>

lemma strict_sorted_remdups_adj: "sorted xs \<Longrightarrow> sorted_wrt (<) (remdups_adj xs)" for xs :: "int list"
  by (induction xs rule: remdups_adj.induct) (auto simp: order.strict_iff_order)

lemma seconds_ok_normalize [simp]: "seconds_ok ts (normalize_seconds ts secs)"
  by (simp add: seconds_ok_def normalize_seconds_def strict_sorted_remdups_adj)

lemma seconds_ok_Nil [simp]: "seconds_ok ts []"
  by (simp add: seconds_ok_def)

lemma set_normalize_seconds: "set (normalize_seconds ts secs) = {s \<in> set secs. valid_second_of_day ts s}"
  by (auto simp: normalize_seconds_def)

lemma normalize_each_eq:
  "normalize_each ts has_any xss =
     (has_any \<or> (\<exists>xs \<in> set xss. normalize_seconds ts xs \<noteq> []), map (normalize_seconds ts) xss)"
  by (induction xss arbitrary: has_any) (auto simp: Let_def)

lemma rule_ok_weekly:
  assumes "normalize_weekly ts schedule = (has_any, schedule')" "length (seconds_by_weekday schedule) = 7"
  shows "rule_ok ts (Weekly schedule')"
  using assms by (auto simp: normalize_weekly_def normalize_each_eq list_all_iff)

lemma rule_ok_monthly:
  assumes "normalize_monthly ts schedule = (has_any, schedule')" "length (seconds_by_month_day schedule) = 32"
  shows "rule_ok ts (Monthly schedule')"
  using assms by (auto simp: normalize_monthly_def normalize_each_eq list_all_iff)

section \<open>The search is a search in a sorted list\<close>

definition due_times ::
  "('clk, 'zone) time_shield \<Rightarrow> ('u, 'clk) CalendarTaskOptions \<Rightarrow> int \<Rightarrow> (DateTimeStruct \<Rightarrow> int list) \<Rightarrow> nat list \<Rightarrow> int list" where
  "due_times ts options n0 secs offsets =
     concat (map (\<lambda>k. map (\<lambda>s. (n0 + int k) * ts_MS_PER_DAY ts + s * ts_MS_PER_SEC ts)
                       (secs (day_of ts (n0 + int k)))) offsets)"

definition acceptable ::
  "('clk, 'zone) time_shield \<Rightarrow> ('u, 'clk) CalendarTaskOptions \<Rightarrow> int \<Rightarrow> int \<Rightarrow> bool" where
  "acceptable ts options after l \<longleftrightarrow>
     local_to_utc_ms ts options l \<noteq> ts_ERROR_TIMESTAMP ts \<and> local_to_utc_ms ts options l > after"

lemma scan_seconds_find:
  "scan_seconds ts options after day secs =
     map_option (local_to_utc_ms ts options)
       (find (acceptable ts options after) (map (\<lambda>s. day + s * ts_MS_PER_SEC ts) secs))"
  by (induction secs) (auto simp: acceptable_def Let_def)

lemma find_append: "find P (xs @ ys) = (case find P xs of None \<Rightarrow> find P ys | Some x \<Rightarrow> Some x)"
  by (induction xs) auto

lemma scan_days_find:
  assumes "\<And>dt. \<not> allowed dt \<Longrightarrow> secs dt = []" "\<And>dt. allowed dt \<Longrightarrow> secs dt = secs' dt"
  shows "scan_days ts options after (n0 * ts_MS_PER_DAY ts) allowed secs' offsets =
     map_option (local_to_utc_ms ts options)
       (find (acceptable ts options after) (due_times ts options n0 secs offsets))"
proof (induction offsets)
  case (Cons k offsets)
  have "n0 * ts_MS_PER_DAY ts + int k * ts_MS_PER_DAY ts = (n0 + int k) * ts_MS_PER_DAY ts"
    by (simp add: algebra_simps)
  then show ?case
    using Cons assms [of "day_of ts (n0 + int k)"]
    by (auto simp: due_times_def find_append scan_seconds_find Let_def day_of_def split: option.splits)
qed (simp add: due_times_def)

lemma scan_local_days_find:
  assumes "days_ok ts" "\<And>dt. \<not> allowed dt \<Longrightarrow> secs dt = []" "\<And>dt. allowed dt \<Longrightarrow> secs dt = secs' dt"
  shows "scan_local_days ts options after w allowed secs' =
     map_option (local_to_utc_ms ts options)
       (find (acceptable ts options after)
         (due_times ts options (first_day ts options after) secs [0 ..< Suc w]))"
proof -
  have "local_day_start_ms ts (utc_to_local_ms ts options after) = first_day ts options after * ts_MS_PER_DAY ts"
    using assms(1) by (simp add: days_ok_def first_day_def)
  then show ?thesis
    unfolding scan_local_days_def Let_def by (simp add: scan_days_find [of allowed secs secs', OF assms(2,3)] del: upt_Suc)
qed

lemma rule_next_find:
  assumes "days_ok ts" "rule_ok ts p"
  shows "rule_next ts p options after =
     map_option (local_to_utc_ms ts options)
       (find (acceptable ts options after)
         (due_times ts options (first_day ts options after) (rule_seconds ts p) [0 ..< Suc (rule_window p)]))"
proof (cases p)
  case (Daily seconds)
  show ?thesis
    unfolding rule_next.simps daily_next_def rule_window.simps Daily
    by (rule scan_local_days_find [OF assms(1)]) auto
next
  case (Weekly schedule)
  show ?thesis
    unfolding rule_next.simps weekly_next_def rule_window.simps Weekly
    by (rule scan_local_days_find [OF assms(1)]) auto
next
  case (Monthly schedule)
  show ?thesis
    unfolding rule_next.simps monthly_next_def rule_window.simps Monthly
    by (rule scan_local_days_find [OF assms(1)]) auto
qed (use assms in simp)

section \<open>The list is sorted\<close>

lemma rule_seconds_ok: "rule_ok ts p \<Longrightarrow> weekdays_ok ts \<Longrightarrow> seconds_ok ts (rule_seconds ts p (day_of ts n))"
  by (cases p) (auto simp: list_all_length weekdays_ok_def nat_less_iff)

definition day_range :: "('clk, 'zone) time_shield \<Rightarrow> int \<Rightarrow> int \<Rightarrow> bool" where
  "day_range ts n l \<longleftrightarrow> n * ts_MS_PER_DAY ts \<le> l \<and> l < (n + 1) * ts_MS_PER_DAY ts"

lemma second_in_day:
  assumes "days_ok ts" "valid_second_of_day ts s"
  shows "day_range ts n (n * ts_MS_PER_DAY ts + s * ts_MS_PER_SEC ts)"
proof -
  have "s * ts_MS_PER_SEC ts \<le> ts_MAX_SEC_PER_DAY ts * ts_MS_PER_SEC ts" "0 \<le> s * ts_MS_PER_SEC ts"
    using assms by (auto simp: days_ok_def valid_second_of_day_def mult_right_mono)
  moreover have "ts_MAX_SEC_PER_DAY ts * ts_MS_PER_SEC ts < ts_MS_PER_DAY ts"
    using assms(1) by (auto simp: days_ok_def algebra_simps)
  ultimately show ?thesis by (simp add: day_range_def algebra_simps)
qed

lemma day_length: "days_ok ts \<Longrightarrow> 0 < ts_MS_PER_DAY ts"
  by (auto simp: days_ok_def) (metis add_pos_nonneg mult_pos_pos zero_less_one add.commute)

lemma day_range_less:
  assumes "days_ok ts" "day_range ts n l" "day_range ts m l'" "n < m"
  shows "l < l'"
proof -
  have "(n + 1) * ts_MS_PER_DAY ts \<le> m * ts_MS_PER_DAY ts"
    using assms(4) day_length [OF assms(1)] by (intro mult_right_mono) auto
  then show ?thesis using assms(2,3) by (simp add: day_range_def)
qed

lemma in_due_times:
  "l \<in> set (due_times ts options n0 secs offsets) \<longleftrightarrow>
     (\<exists>k \<in> set offsets. \<exists>s \<in> set (secs (day_of ts (n0 + int k))).
        l = (n0 + int k) * ts_MS_PER_DAY ts + s * ts_MS_PER_SEC ts)"
  by (auto simp: due_times_def)

lemma due_timesE:
  assumes "l \<in> set (due_times ts options n0 secs [0 ..< w])"
  obtains k s where "k < w" "s \<in> set (secs (day_of ts (n0 + int k)))"
    "l = (n0 + int k) * ts_MS_PER_DAY ts + s * ts_MS_PER_SEC ts"
  using assms unfolding in_due_times by (auto simp del: upt_Suc)

lemma sorted_due_times:
  assumes d: "days_ok ts" and s: "\<And>n. seconds_ok ts (secs (day_of ts n))"
  shows "sorted_wrt (<) (due_times ts options n0 secs [0 ..< w])"
proof (induction w)
  case (Suc w)
  have "sorted_wrt (<) (map (\<lambda>x. (n0 + int w) * ts_MS_PER_DAY ts + x * ts_MS_PER_SEC ts)
          (secs (day_of ts (n0 + int w))))"
    using s [of "n0 + int w"] d
    by (auto simp: seconds_ok_def days_ok_def sorted_wrt_map elim!: sorted_wrt_mono_rel [rotated])
  moreover have "l < (n0 + int w) * ts_MS_PER_DAY ts + x * ts_MS_PER_SEC ts"
    if lx: "l \<in> set (due_times ts options n0 secs [0 ..< w])" "x \<in> set (secs (day_of ts (n0 + int w)))" for l x
  proof -
    obtain k y where k: "k < w" "y \<in> set (secs (day_of ts (n0 + int k)))"
      "l = (n0 + int k) * ts_MS_PER_DAY ts + y * ts_MS_PER_SEC ts"
      using lx(1) by (rule due_timesE)
    have "day_range ts (n0 + int k) l"
      unfolding k(3) using s k(2) by (intro second_in_day [OF d]) (auto simp: seconds_ok_def)
    moreover have "day_range ts (n0 + int w) ((n0 + int w) * ts_MS_PER_DAY ts + x * ts_MS_PER_SEC ts)"
      using s lx(2) by (intro second_in_day [OF d]) (auto simp: seconds_ok_def)
    ultimately show ?thesis using k(1) by (auto intro: day_range_less [OF d])
  qed
  ultimately show ?case
    using Suc by (auto simp: due_times_def sorted_wrt_append)
qed (simp add: due_times_def)

lemma find_sorted:
  "sorted_wrt (<) xs \<Longrightarrow> find P xs = Some x \<Longrightarrow> x \<in> set xs \<and> P x \<and> (\<forall>y \<in> set xs. P y \<longrightarrow> x \<le> (y :: int))"
  by (induction xs) (auto split: if_splits)

lemma find_NoneD: "find P xs = None \<Longrightarrow> x \<in> set xs \<Longrightarrow> \<not> P x"
  by (auto simp: find_None_iff)

section \<open>The next occurrence is the earliest one\<close>

lemma occurs_day_range:
  assumes "days_ok ts" "seconds_ok ts (rule_seconds ts p (day_of ts n))" "occurs_on ts p options n u"
  obtains s l where "s \<in> set (rule_seconds ts p (day_of ts n))" "l = n * ts_MS_PER_DAY ts + s * ts_MS_PER_SEC ts"
    "day_range ts n l" "u = local_to_utc_ms ts options l" "u \<noteq> ts_ERROR_TIMESTAMP ts"
  using assms second_in_day [OF assms(1)] by (auto simp: occurs_on_def seconds_ok_def)

lemma first_day_range: "days_ok ts \<Longrightarrow> day_range ts (first_day ts options after) (utc_to_local_ms ts options after)"
  using pos_mod_bound [OF day_length, of ts "utc_to_local_ms ts options after"]
    pos_mod_sign [OF day_length, of ts "utc_to_local_ms ts options after"]
    div_mult_mod_eq [of "utc_to_local_ms ts options after" "ts_MS_PER_DAY ts"]
  unfolding day_range_def first_day_def distrib_right mult_1 by (intro conjI; linarith)

lemma occurrence_not_before:
  assumes "days_ok ts" "zone_ok ts options" "seconds_ok ts (rule_seconds ts p (day_of ts n))"
    "occurs_on ts p options n u" "after < u"
  shows "first_day ts options after \<le> n"
proof (rule ccontr)
  assume less: "\<not> first_day ts options after \<le> n"
  obtain s l where l: "day_range ts n l" "u = local_to_utc_ms ts options l" "u \<noteq> ts_ERROR_TIMESTAMP ts"
    by (rule occurs_day_range [OF assms(1,3,4)])
  have "l < utc_to_local_ms ts options after"
    using less by (intro day_range_less [OF assms(1) l(1) first_day_range [OF assms(1)]]) simp
  then have "u \<le> after" using assms(2) l unfolding zone_ok_def by blast
  then show False using assms(5) by simp
qed

lemma next_is_earliest:
  assumes d: "days_ok ts" and z: "zone_ok ts options" and r: "rule_ok ts p" and wd: "weekdays_ok ts"
  shows "case rule_next ts p options after of
           Some u \<Rightarrow> after < u \<and> (\<exists>n. occurs_on ts p options n u) \<and>
                     (\<forall>n v. occurs_on ts p options n v \<and> after < v \<longrightarrow> u \<le> v)
         | None \<Rightarrow> \<forall>n v. occurs_on ts p options n v \<and> after < v \<longrightarrow>
                          first_day ts options after + int (rule_window p) < n"
proof -
  let ?n0 = "first_day ts options after" and ?w = "rule_window p"
  let ?L = "due_times ts options ?n0 (rule_seconds ts p) [0 ..< Suc ?w]"
  note secs = rule_seconds_ok [OF r wd]
  have found: "\<exists>l. day_range ts n l \<and> v = local_to_utc_ms ts options l \<and> acceptable ts options after l \<and>
      (n \<le> ?n0 + int ?w \<longrightarrow> l \<in> set ?L)"
    if v: "occurs_on ts p options n v" "after < v" for n v
  proof -
    obtain s l where l: "s \<in> set (rule_seconds ts p (day_of ts n))"
      "l = n * ts_MS_PER_DAY ts + s * ts_MS_PER_SEC ts"
      "day_range ts n l" "v = local_to_utc_ms ts options l" "v \<noteq> ts_ERROR_TIMESTAMP ts"
      by (rule occurs_day_range [OF d secs v(1)])
    have "?n0 \<le> n" by (rule occurrence_not_before [OF d z secs v])
    then have "l \<in> set ?L" if "n \<le> ?n0 + int ?w"
      using that l(1,2) unfolding in_due_times by (intro bexI [of _ "nat (n - ?n0)"]) (auto simp del: upt_Suc)
    then show ?thesis using l v(2) by (auto simp: acceptable_def)
  qed
  show ?thesis
  proof (cases "find (acceptable ts options after) ?L")
    case None
    then have "?n0 + int ?w < n" if "occurs_on ts p options n v" "after < v" for n v
      using found [OF that] find_NoneD [OF None] by (meson not_le)
    then show ?thesis using None by (auto simp: rule_next_find [OF d r] simp del: upt_Suc)
  next
    case (Some x)
    have srt: "sorted_wrt (<) ?L" by (rule sorted_due_times [OF d]) (rule secs)
    have x: "x \<in> set ?L" "acceptable ts options after x" "\<forall>y \<in> set ?L. acceptable ts options after y \<longrightarrow> x \<le> y"
      using find_sorted [OF srt Some] by auto
    obtain k s where k: "k < Suc ?w" "s \<in> set (rule_seconds ts p (day_of ts (?n0 + int k)))"
      "x = (?n0 + int k) * ts_MS_PER_DAY ts + s * ts_MS_PER_SEC ts"
      using x(1) by (rule due_timesE)
    have xr: "day_range ts (?n0 + int k) x"
      unfolding k(3) using secs k(2) by (intro second_in_day [OF d]) (auto simp: seconds_ok_def)
    have le: "local_to_utc_ms ts options x \<le> v" if v: "occurs_on ts p options n v" "after < v" for n v
    proof -
      obtain l where l: "day_range ts n l" "v = local_to_utc_ms ts options l" "acceptable ts options after l"
        "n \<le> ?n0 + int ?w \<longrightarrow> l \<in> set ?L" using found [OF v] by auto
      have "x \<le> l"
        using l x(3) k(1) day_range_less [OF d xr l(1)] by (cases "n \<le> ?n0 + int ?w") auto
      then show ?thesis
        using z l(2,3) x(2) unfolding zone_ok_def acceptable_def by (metis order.order_iff_strict)
    qed
    have "occurs_on ts p options (?n0 + int k) (local_to_utc_ms ts options x)"
      using x(2) k(2,3) by (auto simp: occurs_on_def acceptable_def)
    then show ?thesis
      using le x(2) by (auto simp: rule_next_find [OF d r] Some acceptable_def simp del: upt_Suc)
  qed
qed

section \<open>Under a fixed offset a rule never ends\<close>

lemma fixed_offset_next:
  assumes d: "days_ok ts" and f: "fixed_offset ts options" and r: "rule_ok ts p" and wd: "weekdays_ok ts"
    and j: "1 \<le> j" "j < k" "k \<le> rule_window p"
    and s: "s \<in> set (rule_seconds ts p (day_of ts (first_day ts options after + int j)))"
    and s': "s' \<in> set (rule_seconds ts p (day_of ts (first_day ts options after + int k)))"
  shows "rule_next ts p options after \<noteq> None"
proof -
  let ?n0 = "first_day ts options after"
  let ?L = "due_times ts options ?n0 (rule_seconds ts p) [0 ..< Suc (rule_window p)]"
  let ?l = "(?n0 + int j) * ts_MS_PER_DAY ts + s * ts_MS_PER_SEC ts"
  let ?l' = "(?n0 + int k) * ts_MS_PER_DAY ts + s' * ts_MS_PER_SEC ts"
  define off where "off = ts_offset_at_utc_ms ts (cto_clock options) 0 * ts_MS_PER_SEC ts"
  have conv: "utc_to_local_ms ts options u = u + off" "local_to_utc_ms ts options l = l - off" for u l
    using f by (simp_all add: fixed_offset_def utc_to_local_ms_def local_to_utc_ms_def Let_def off_def)
  have range: "day_range ts (?n0 + int j) ?l" "day_range ts (?n0 + int k) ?l'"
    using s s' rule_seconds_ok [OF r wd] by (auto intro!: second_in_day [OF d] simp: seconds_ok_def)
  have "utc_to_local_ms ts options after < ?l" "?l < ?l'"
    using j by (auto intro: day_range_less [OF d first_day_range [OF d] range(1)] day_range_less [OF d range])
  then have "acceptable ts options after ?l \<or> acceptable ts options after ?l'"
    by (auto simp: acceptable_def conv)
  moreover have "?l \<in> set ?L"
    unfolding in_due_times using j s by (intro bexI [of _ j] bexI [of _ s]) (auto simp del: upt_Suc)
  moreover have "?l' \<in> set ?L"
    unfolding in_due_times using j s' by (intro bexI [of _ k] bexI [of _ s']) (auto simp del: upt_Suc)
  ultimately have "find (acceptable ts options after) ?L \<noteq> None"
    unfolding find_None_iff by blast
  then show ?thesis by (simp add: rule_next_find [OF d r] del: upt_Suc)
qed

lemma weekday_in_week: "i < 7 \<Longrightarrow> \<exists>j. 1 \<le> j \<and> j \<le> 7 \<and> nat ((n + int j + 4) mod 7) = i"
proof -
  assume "i < 7"
  define j where "j = (int i - n - 5) mod 7 + 1"
  have "(n + j + 4) mod 7 = (n + 5 + (int i - n - 5) mod 7) mod 7"
    by (simp add: j_def ac_simps)
  also have "\<dots> = int i mod 7"
    by (subst mod_add_right_eq) simp
  finally have "(n + j + 4) mod 7 = int i" using \<open>i < 7\<close> by simp
  moreover have "1 \<le> j" "j \<le> 7"
    using pos_mod_bound [of 7 "int i - n - 5"] by (simp_all add: j_def)
  ultimately show ?thesis by (intro exI [of _ "nat j"]) (auto simp: nat_le_iff)
qed

lemma week_later: "(n + int (j + 7) + 4) mod 7 = (n + int j + 4) mod 7"
proof -
  have "n + int (j + 7) + 4 = n + int j + 4 + 7" by simp
  then show ?thesis by (simp only: mod_add_self2)
qed

lemma daily_never_ends:
  assumes "days_ok ts" "fixed_offset ts options" "weekdays_ok ts" "seconds_ok ts secs" "secs \<noteq> []"
  shows "daily_next ts secs options after \<noteq> None"
  using fixed_offset_next [OF assms(1,2) _ assms(3), of "Daily secs" 1 2 "hd secs" after "hd secs"] assms(4,5)
  by simp

lemma weekly_never_ends:
  fixes options :: "('u, 'clk) CalendarTaskOptions"
  assumes "days_ok ts" "fixed_offset ts options" "weekdays_ok ts" "rule_ok ts (Weekly schedule :: 'u RuleProvider)"
    "xs \<in> set (seconds_by_weekday schedule)" "xs \<noteq> []"
  shows "weekly_next ts schedule options after \<noteq> None"
proof -
  let ?n0 = "first_day ts options after"
  obtain i where i: "i < 7" "seconds_by_weekday schedule ! i = xs"
    using assms(4,5) by (auto simp: in_set_conv_nth)
  obtain j where j: "1 \<le> j" "j \<le> 7" "nat ((?n0 + int j + 4) mod 7) = i"
    using weekday_in_week [OF i(1)] by blast
  then have "rule_seconds ts (Weekly schedule) (day_of ts (?n0 + int j)) = xs"
    "rule_seconds ts (Weekly schedule) (day_of ts (?n0 + int (j + 7))) = xs"
    using assms(3) i(2) by (simp_all add: weekdays_ok_def week_later del: of_nat_add)
  then show ?thesis
    using fixed_offset_next [OF assms(1,2,4,3), of j "j + 7" "hd xs" after "hd xs"] j(1,2) assms(6) by simp
qed

lemma monthly_never_ends:
  fixes options :: "('u, 'clk) CalendarTaskOptions"
  assumes "days_ok ts" "fixed_offset ts options" "weekdays_ok ts" "rule_ok ts (Monthly schedule :: 'u RuleProvider)" "month_days_ok ts"
    "xs \<in> set (tl (seconds_by_month_day schedule))" "xs \<noteq> []"
  shows "monthly_next ts schedule options after \<noteq> None"
proof -
  let ?n0 = "first_day ts options after"
  have len: "length (seconds_by_month_day schedule) = 32" using assms(4) by simp
  obtain i where i: "i < 31" "seconds_by_month_day schedule ! Suc i = xs"
    using assms(6) len by (auto simp: in_set_conv_nth nth_tl)
  obtain j k where j: "1 \<le> j" "j < k" "k \<le> 370" "dt_day (day_of ts (?n0 + j)) = int (Suc i)"
    "dt_day (day_of ts (?n0 + k)) = int (Suc i)"
    using assms(5) [unfolded month_days_ok_def, rule_format, of "int (Suc i)" ?n0] i(1) by auto
  then show ?thesis
    using fixed_offset_next [OF assms(1,2,4,3), of "nat j" "nat k" "hd xs" after "hd xs"] assms(7) i len
    by (simp add: nat_less_iff nat_le_iff Suc_le_eq nat_add_distrib)
qed

section \<open>A concrete calendar\<close>

text \<open>
  A calendar whose months all have 31 days, and clocks with a fixed offset in seconds. It has the documented
  properties the theorems rest on.
\<close>

definition demo_shield :: "(int, unit) time_shield" where
  "demo_shield =
     \<lparr> ts_SUN = 0, ts_SAT = 6, ts_MAX_SEC_PER_DAY = 86399, ts_MS_PER_SEC = 1000, ts_MS_PER_DAY = 86400000,
       ts_ERROR_TIMESTAMP = 9223372036854775807,
       ts_is_valid_time = (\<lambda>t. 0 \<le> lt_hour t \<and> lt_hour t \<le> 23 \<and> 0 \<le> lt_min t \<and> lt_min t \<le> 59 \<and>
                              0 \<le> lt_sec t \<and> lt_sec t \<le> 59),
       ts_sec_of_day = (\<lambda>h m s. h * 3600 + m * 60 + s),
       ts_date_time_of_ms = (\<lambda>ms. let n = ms div 86400000
                                 in \<lparr> dt_year = n div 31, dt_mon = 1, dt_day = n mod 31 + 1 \<rparr>),
       ts_to_timestamp_ms = (\<lambda>y m d. (y * 31 + d - 1) * 86400000),
       ts_day_of_week_date = (\<lambda>y m d. (y * 31 + d + 3) mod 7),
       ts_gmt_to_zone_ms = (\<lambda>ms z. ms), ts_zone_to_gmt_ms = (\<lambda>ms z. ms),
       ts_default_clock = 0, ts_zoned_clock_fixed = Inr, ts_set_zone = (\<lambda>z c. 0),
       ts_has_named_zone = (\<lambda>c. False), ts_zone = (\<lambda>c. ()), ts_offset_at_utc_ms = (\<lambda>c u. c),
       ts_utc_time_ms = (\<lambda>c n. 1000 * int n) \<rparr>"

lemma demo_day_of: "day_of demo_shield n = \<lparr> dt_year = n div 31, dt_mon = 1, dt_day = n mod 31 + 1 \<rparr>"
  by (simp add: day_of_def local_struct_from_ms_def demo_shield_def Let_def)

lemma demo_days_ok: "days_ok demo_shield"
proof -
  have "local_day_start_ms demo_shield m = m div 86400000 * 86400000" for m
    unfolding local_day_start_ms_def local_struct_from_ms_def demo_shield_def Let_def
    by simp (use div_mult_mod_eq [of "m div 86400000" 31] in linarith)
  then show ?thesis
    unfolding days_ok_def by (simp add: demo_shield_def)
qed

lemma demo_weekdays_ok: "weekdays_ok demo_shield"
proof -
  have "n div 31 * 31 + (n mod 31 + 1) + 3 = n + 4" for n :: int
    by (simp add: algebra_simps)
  then show ?thesis
    by (simp add: weekdays_ok_def weekday_of_def demo_day_of) (simp add: demo_shield_def ac_simps)
qed

lemma demo_month_days_ok: "month_days_ok demo_shield"
  unfolding month_days_ok_def
proof (intro allI impI)
  fix n d :: int
  assume d: "1 \<le> d \<and> d \<le> 31"
  define j where "j = (d - n - 2) mod 31 + 1"
  have "(n + j) mod 31 = (n + 1 + (d - n - 2) mod 31) mod 31"
    by (simp add: j_def ac_simps)
  also have "\<dots> = (d - 1) mod 31"
    by (subst mod_add_right_eq) simp
  finally have "(n + j) mod 31 + 1 = d" using d by simp
  moreover have "(n + (j + 31)) mod 31 = (n + j) mod 31"
    by (simp only: mod_add_self2 flip: add.assoc)
  moreover have "1 \<le> j" "j \<le> 31"
    using pos_mod_bound [of 31 "d - n - 2"] by (simp_all add: j_def)
  ultimately show "\<exists>j k. 1 \<le> j \<and> j < k \<and> k \<le> 370 \<and> dt_day (day_of demo_shield (n + j)) = d \<and>
      dt_day (day_of demo_shield (n + k)) = d"
    by (intro exI [of _ j] exI [of _ "j + 31"]) (simp add: demo_day_of)
qed

lemma demo_fixed_offset: "fixed_offset demo_shield options"
  by (simp add: fixed_offset_def demo_shield_def)

lemma demo_zone_ok: "zone_ok demo_shield options"
  by (rule fixed_offset_zone_ok [OF _ demo_fixed_offset]) (simp add: demo_shield_def)

end
