(* ===== verification/Calendar_Scheduler.thy ===== *)
theory Calendar_Scheduler
  imports Task_Process Calendar_Time
begin

text \<open>
  \<^verbatim>\<open>CalendarScheduler\<close> (\<^verbatim>\<open>calendar_scheduler.hpp\<close>): rules that are kept in a core, and one queued task per
  rule in a task manager. The state extends the manager's, so that a rule's task runs inside the
  manager's \<^verbatim>\<open>process()\<close>. Cores and rule states are shared objects in stores; the single-threaded calls
  re-enter one another through user code, and interleavings of several threads are not modelled.
\<close>

section \<open>State\<close>

datatype CalendarObserverEvent =
  created | scheduled | due | before_callback | after_callback | missed | calendar_cancelled

type_synonym CalendarTaskId = u64

record CalendarObserverInfo =
  info_id :: CalendarTaskId
  info_scheduled_task_id :: TaskId
  info_planned_utc_ms :: int
  info_observed_utc_ms :: int
  info_event :: CalendarObserverEvent
  info_run_count :: u64

text \<open>\<^verbatim>\<open>detail::State\<close>.\<close>

record ('u, 'clk) CalState =
  st_id :: CalendarTaskId
  st_options :: "('u, 'clk) CalendarTaskOptions"
  st_provider :: "'u RuleProvider"
  st_callback :: "'u Task"
  st_scheduled_task_id :: TaskId
  st_planned_utc_ms :: int
  st_run_count :: u64
  st_cancelled :: bool

text \<open>
  \<^verbatim>\<open>detail::Core\<close>: the table from ids to states, its order being immaterial, and whether a scheduler still
  owns the core. The manager is the one this state extends.
\<close>

record Core =
  core_tasks :: "(CalendarTaskId \<times> nat) list"
  core_next_id :: u64
  core_closed :: bool
  core_owned :: bool

text \<open>A callable in the manager's queues: user code, or the closure \<^verbatim>\<open>schedule_one\<close> queues.\<close>

datatype 'u CalCallable = User_callable 'u | Calendar_run nat nat

text \<open>
  \<open>cal_state_frames\<close> and \<open>cal_core_frames\<close> count the strong references the running calls hold. \<open>cal_steady\<close> are
  the readings of the steady clock and \<open>cal_reads\<close> the number of readings of any clock so far.
\<close>

record ('u, 'clk) CAL = "'u CalCallable TM" +
  cal_cores :: "nat \<Rightarrow> Core"
  cal_states :: "nat \<Rightarrow> ('u, 'clk) CalState"
  cal_next_state :: nat
  cal_state_frames :: "nat \<Rightarrow> nat"
  cal_core_frames :: "nat \<Rightarrow> nat"
  cal_steady :: "nat \<Rightarrow> time"
  cal_reads :: nat

text \<open>
  User code, as functions on the whole state: rule callbacks and other tasks, time providers, custom rules
  and observers. \<open>kc_bucket_order\<close> is the order in which an \<^verbatim>\<open>unordered_map\<close> is iterated.
\<close>

record ('u, 's) cal_code =
  kc_task :: "'u \<Rightarrow> TaskContext option \<Rightarrow> 's \<Rightarrow> 's \<times> exn option"
  kc_now :: "'u \<Rightarrow> 's \<Rightarrow> (exn + int) \<times> 's"
  kc_next :: "'u \<Rightarrow> int \<Rightarrow> int \<Rightarrow> 's \<Rightarrow> (exn + int option) \<times> 's"
  kc_observer :: "'u \<Rightarrow> CalendarObserverInfo \<Rightarrow> 's \<Rightarrow> 's \<times> exn option"
  kc_bucket_order :: "(CalendarTaskId \<times> nat) list \<Rightarrow> (CalendarTaskId \<times> nat) list"

definition Core_init :: Core where
  "Core_init = \<lparr> core_tasks = [], core_next_id = 1, core_closed = False, core_owned = True \<rparr>"

text \<open>\<open>c\<close> is the address at which the scheduler's core is created.\<close>

definition CalendarScheduler_init :: "nat \<Rightarrow> ('u, 'clk, 'z) CAL_scheme \<Rightarrow> ('u, 'clk, 'z) CAL_scheme" where
  "CalendarScheduler_init c w = w\<lparr>cal_cores := (cal_cores w)(c := Core_init)\<rparr>"

definition update_state ::
  "nat \<Rightarrow> (('u, 'clk) CalState \<Rightarrow> ('u, 'clk) CalState) \<Rightarrow> ('u, 'clk, 'z) CAL_scheme \<Rightarrow> ('u, 'clk, 'z) CAL_scheme" where
  "update_state st f w = w\<lparr>cal_states := (cal_states w)(st := f (cal_states w st))\<rparr>"

definition update_core ::
  "nat \<Rightarrow> (Core \<Rightarrow> Core) \<Rightarrow> ('u, 'clk, 'z) CAL_scheme \<Rightarrow> ('u, 'clk, 'z) CAL_scheme" where
  "update_core c f w = w\<lparr>cal_cores := (cal_cores w)(c := f (cal_cores w c))\<rparr>"

definition find_task :: "nat \<Rightarrow> CalendarTaskId \<Rightarrow> ('u, 'clk, 'z) CAL_scheme \<Rightarrow> nat option" where
  "find_task c i w = map_of (core_tasks (cal_cores w c)) i"

definition erase_task :: "nat \<Rightarrow> CalendarTaskId \<Rightarrow> ('u, 'clk, 'z) CAL_scheme \<Rightarrow> ('u, 'clk, 'z) CAL_scheme" where
  "erase_task c i w = update_core c (\<lambda>k. k\<lparr>core_tasks := filter (\<lambda>p. fst p \<noteq> i) (core_tasks k)\<rparr>) w"

text \<open>\<^verbatim>\<open>emplace\<close> keeps an entry that is there already.\<close>

definition emplace_task :: "nat \<Rightarrow> CalendarTaskId \<Rightarrow> nat \<Rightarrow> ('u, 'clk, 'z) CAL_scheme \<Rightarrow> ('u, 'clk, 'z) CAL_scheme" where
  "emplace_task c i st w =
     (case find_task c i w of
        None \<Rightarrow> update_core c (\<lambda>k. k\<lparr>core_tasks := (i, st) # core_tasks k\<rparr>) w
      | Some _ \<Rightarrow> w)"

text \<open>The strong references of a running call, and the locking of the two weak pointers.\<close>

definition hold_state :: "nat \<Rightarrow> ('u, 'clk, 'z) CAL_scheme \<Rightarrow> ('u, 'clk, 'z) CAL_scheme" where
  "hold_state st w = w\<lparr>cal_state_frames := (cal_state_frames w)(st := cal_state_frames w st + 1)\<rparr>"

definition release_state :: "nat \<Rightarrow> ('u, 'clk, 'z) CAL_scheme \<Rightarrow> ('u, 'clk, 'z) CAL_scheme" where
  "release_state st w = w\<lparr>cal_state_frames := (cal_state_frames w)(st := cal_state_frames w st - 1)\<rparr>"

definition hold_core :: "nat \<Rightarrow> ('u, 'clk, 'z) CAL_scheme \<Rightarrow> ('u, 'clk, 'z) CAL_scheme" where
  "hold_core c w = w\<lparr>cal_core_frames := (cal_core_frames w)(c := cal_core_frames w c + 1)\<rparr>"

definition release_core :: "nat \<Rightarrow> ('u, 'clk, 'z) CAL_scheme \<Rightarrow> ('u, 'clk, 'z) CAL_scheme" where
  "release_core c w = w\<lparr>cal_core_frames := (cal_core_frames w)(c := cal_core_frames w c - 1)\<rparr>"

definition core_alive :: "nat \<Rightarrow> ('u, 'clk, 'z) CAL_scheme \<Rightarrow> bool" where
  "core_alive c w \<longleftrightarrow> core_owned (cal_cores w c) \<or> cal_core_frames w c \<noteq> 0"

definition state_alive :: "nat \<Rightarrow> nat \<Rightarrow> ('u, 'clk, 'z) CAL_scheme \<Rightarrow> bool" where
  "state_alive c st w \<longleftrightarrow> st \<in> snd ` set (core_tasks (cal_cores w c)) \<or> cal_state_frames w st \<noteq> 0"

section \<open>Clocks, rules and observers\<close>

definition steady_now :: "('u, 'clk, 'z) CAL_scheme \<Rightarrow> time \<times> ('u, 'clk, 'z) CAL_scheme" where
  "steady_now w = (cal_steady w (cal_reads w), w\<lparr>cal_reads := cal_reads w + 1\<rparr>)"

definition clock_utc_time_ms ::
  "('clk, 'zone) time_shield \<Rightarrow> 'clk \<Rightarrow> ('u, 'clk, 'z) CAL_scheme \<Rightarrow> int \<times> ('u, 'clk, 'z) CAL_scheme" where
  "clock_utc_time_ms ts clk w = (ts_utc_time_ms ts clk (cal_reads w), w\<lparr>cal_reads := cal_reads w + 1\<rparr>)"

definition now_utc_ms ::
  "('clk, 'zone) time_shield \<Rightarrow> ('u, ('u, 'clk, 'z) CAL_scheme) cal_code \<Rightarrow> ('u, 'clk) CalendarTaskOptions
     \<Rightarrow> ('u, 'clk, 'z) CAL_scheme \<Rightarrow> (exn + int) \<times> ('u, 'clk, 'z) CAL_scheme" where
  "now_utc_ms ts kc options w =
     (case cto_now_provider options of
        Some u \<Rightarrow> kc_now kc u w
      | None \<Rightarrow> map_prod Inr id (clock_utc_time_ms ts (cto_clock options) w))"

definition safe_now_utc_ms ::
  "('clk, 'zone) time_shield \<Rightarrow> ('u, ('u, 'clk, 'z) CAL_scheme) cal_code \<Rightarrow> ('u, 'clk) CalendarTaskOptions
     \<Rightarrow> ('u, 'clk, 'z) CAL_scheme \<Rightarrow> int \<times> ('u, 'clk, 'z) CAL_scheme" where
  "safe_now_utc_ms ts kc options w =
     (case now_utc_ms ts kc options w of
        (Inr t, w) \<Rightarrow> (t, w)
      | (Inl x, w) \<Rightarrow> clock_utc_time_ms ts (cto_clock options) w)"

text \<open>Calling a \<^verbatim>\<open>RuleProvider\<close>.\<close>

fun next_time ::
  "('clk, 'zone) time_shield \<Rightarrow> ('u, ('u, 'clk, 'z) CAL_scheme) cal_code \<Rightarrow> 'u RuleProvider
     \<Rightarrow> ('u, 'clk) CalendarTaskOptions \<Rightarrow> int \<Rightarrow> int \<Rightarrow> ('u, 'clk, 'z) CAL_scheme
     \<Rightarrow> (exn + int option) \<times> ('u, 'clk, 'z) CAL_scheme" where
  "next_time ts kc (Daily seconds) options after now w = (Inr (daily_next ts seconds options after), w)"
| "next_time ts kc (Weekly schedule) options after now w = (Inr (weekly_next ts schedule options after), w)"
| "next_time ts kc (Monthly schedule) options after now w = (Inr (monthly_next ts schedule options after), w)"
| "next_time ts kc (Custom provider) options after now w = kc_next kc provider after now w"

text \<open>The two \<^verbatim>\<open>emit\<close> overloads; what an observer throws is dropped.\<close>

definition emit_info ::
  "('u, ('u, 'clk, 'z) CAL_scheme) cal_code \<Rightarrow> nat \<Rightarrow> CalendarObserverEvent \<Rightarrow> int \<Rightarrow> int \<Rightarrow> TaskId \<Rightarrow> u64
     \<Rightarrow> ('u, 'clk, 'z) CAL_scheme \<Rightarrow> ('u, 'clk, 'z) CAL_scheme" where
  "emit_info kc st event planned observed scheduled_task_id run_count w =
     (case cto_observer (st_options (cal_states w st)) of
        None \<Rightarrow> w
      | Some u \<Rightarrow>
          fst (kc_observer kc u
            \<lparr> info_id = st_id (cal_states w st), info_scheduled_task_id = scheduled_task_id,
              info_planned_utc_ms = planned, info_observed_utc_ms = observed, info_event = event,
              info_run_count = run_count \<rparr> w))"

definition emit_state ::
  "('u, ('u, 'clk, 'z) CAL_scheme) cal_code \<Rightarrow> nat \<Rightarrow> CalendarObserverEvent \<Rightarrow> int \<Rightarrow> int \<Rightarrow> TaskId
     \<Rightarrow> ('u, 'clk, 'z) CAL_scheme \<Rightarrow> ('u, 'clk, 'z) CAL_scheme" where
  "emit_state kc st event planned observed scheduled_task_id w =
     emit_info kc st event planned observed scheduled_task_id (st_run_count (cal_states w st)) w"

section \<open>Cancellation\<close>

definition is_state_cancelled :: "nat \<Rightarrow> CalendarTaskId \<Rightarrow> ('u, 'clk, 'z) CAL_scheme \<Rightarrow> bool" where
  "is_state_cancelled c i w =
     (case find_task c i w of
        None \<Rightarrow> True
      | Some st \<Rightarrow> st_cancelled (cal_states w st) \<or> core_closed (cal_cores w c))"

definition mark_completed :: "nat \<Rightarrow> nat \<Rightarrow> ('u, 'clk, 'z) CAL_scheme \<Rightarrow> ('u, 'clk, 'z) CAL_scheme" where
  "mark_completed c st w =
     (let w = update_state st (\<lambda>s. s\<lparr>st_cancelled := True\<rparr>) w in erase_task c (st_id (cal_states w st)) w)"

definition cancel_on_core ::
  "('clk, 'zone) time_shield \<Rightarrow> ('u, ('u, 'clk, 'z) CAL_scheme) cal_code \<Rightarrow> nat \<Rightarrow> CalendarTaskId
     \<Rightarrow> ('u, 'clk, 'z) CAL_scheme \<Rightarrow> bool \<times> ('u, 'clk, 'z) CAL_scheme" where
  "cancel_on_core ts kc c i w =
     (if i = 0 then (False, w)
      else case find_task c i w of
        None \<Rightarrow> (False, w)
      | Some st \<Rightarrow>
          if st_cancelled (cal_states w st) then (False, w)
          else let w = hold_state st (update_state st (\<lambda>s. s\<lparr>st_cancelled := True\<rparr>) w);
                   task_id = st_scheduled_task_id (cal_states w st);
                   planned = st_planned_utc_ms (cal_states w st);
                   run_count = st_run_count (cal_states w st);
                   w = erase_task c i w;
                   w = (if task_id \<noteq> 0 then snd (cancel task_id w) else w);
                   (now, w) = safe_now_utc_ms ts kc (st_options (cal_states w st)) w;
                   w = emit_info kc st calendar_cancelled planned now task_id run_count w
               in (True, release_state st w))"

text \<open>
  One turn of the loop over the cancelled states. The arguments of \<^verbatim>\<open>emit\<close> are evaluated in an unspecified
  order; here the clock is read first.
\<close>

definition finish_cancelled ::
  "('clk, 'zone) time_shield \<Rightarrow> ('u, ('u, 'clk, 'z) CAL_scheme) cal_code \<Rightarrow> nat
     \<Rightarrow> ('u, 'clk, 'z) CAL_scheme \<Rightarrow> ('u, 'clk, 'z) CAL_scheme" where
  "finish_cancelled ts kc st w =
     (let task_id = st_scheduled_task_id (cal_states w st);
          w = (if task_id \<noteq> 0 then snd (cancel task_id w) else w);
          (now, w) = safe_now_utc_ms ts kc (st_options (cal_states w st)) w;
          s = cal_states w st
      in emit_info kc st calendar_cancelled (st_planned_utc_ms s) now (st_scheduled_task_id s) (st_run_count s) w)"

definition cancel_all_on_core ::
  "('clk, 'zone) time_shield \<Rightarrow> ('u, ('u, 'clk, 'z) CAL_scheme) cal_code \<Rightarrow> nat \<Rightarrow> bool
     \<Rightarrow> ('u, 'clk, 'z) CAL_scheme \<Rightarrow> nat \<times> ('u, 'clk, 'z) CAL_scheme" where
  "cancel_all_on_core ts kc c close_core w =
     (if close_core \<and> core_closed (cal_cores w c) \<and> core_tasks (cal_cores w c) = [] then (0, w)
      else let w = (if close_core then update_core c (\<lambda>k. k\<lparr>core_closed := True\<rparr>) w else w);
               states = map snd (kc_bucket_order kc (core_tasks (cal_cores w c)));
               w = fold (\<lambda>st w. hold_state st (update_state st (\<lambda>s. s\<lparr>st_cancelled := True\<rparr>) w)) states w;
               w = update_core c (\<lambda>k. k\<lparr>core_tasks := []\<rparr>) w;
               w = fold (finish_cancelled ts kc) states w
           in (length states, fold release_state states w))"

definition calendar_cancel ::
  "('clk, 'zone) time_shield \<Rightarrow> ('u, ('u, 'clk, 'z) CAL_scheme) cal_code \<Rightarrow> nat \<Rightarrow> CalendarTaskId
     \<Rightarrow> ('u, 'clk, 'z) CAL_scheme \<Rightarrow> bool \<times> ('u, 'clk, 'z) CAL_scheme" where
  "calendar_cancel ts kc c i w = map_prod id (release_core c) (cancel_on_core ts kc c i (hold_core c w))"

definition calendar_cancel_all ::
  "('clk, 'zone) time_shield \<Rightarrow> ('u, ('u, 'clk, 'z) CAL_scheme) cal_code \<Rightarrow> nat
     \<Rightarrow> ('u, 'clk, 'z) CAL_scheme \<Rightarrow> nat \<times> ('u, 'clk, 'z) CAL_scheme" where
  "calendar_cancel_all ts kc c w =
     map_prod id (release_core c) (cancel_all_on_core ts kc c False (hold_core c w))"

definition CalendarScheduler_destroy ::
  "('clk, 'zone) time_shield \<Rightarrow> ('u, ('u, 'clk, 'z) CAL_scheme) cal_code \<Rightarrow> nat
     \<Rightarrow> ('u, 'clk, 'z) CAL_scheme \<Rightarrow> ('u, 'clk, 'z) CAL_scheme" where
  "CalendarScheduler_destroy ts kc c w =
     update_core c (\<lambda>k. k\<lparr>core_owned := False\<rparr>)
       (release_core c (snd (cancel_all_on_core ts kc c True (hold_core c w))))"

section \<open>Scheduling an occurrence\<close>

record PlannedDue =
  pd_planned_utc_ms :: int
  pd_immediate :: bool

definition first_planned_due ::
  "('clk, 'zone) time_shield \<Rightarrow> ('u, ('u, 'clk, 'z) CAL_scheme) cal_code \<Rightarrow> nat \<Rightarrow> int
     \<Rightarrow> ('u, 'clk, 'z) CAL_scheme \<Rightarrow> (exn + PlannedDue option) \<times> ('u, 'clk, 'z) CAL_scheme" where
  "first_planned_due ts kc st observed_now w =
     (let options = st_options (cal_states w st); provider = st_provider (cal_states w st);
          future = (\<lambda>w. case next_time ts kc provider options observed_now observed_now w of
                      (Inl x, w) \<Rightarrow> (Inl x, w)
                    | (Inr None, w) \<Rightarrow> (Inr None, w)
                    | (Inr (Some t), w) \<Rightarrow>
                        (Inr (Some \<lparr>pd_planned_utc_ms = t, pd_immediate = (t \<le> observed_now)\<rparr>), w))
      in case cto_last_due_utc_ms options of
           None \<Rightarrow> future w
         | Some last_due \<Rightarrow>
             (case next_time ts kc provider options last_due observed_now w of
                (Inl x, w) \<Rightarrow> (Inl x, w)
              | (Inr None, w) \<Rightarrow> (Inr None, w)
              | (Inr (Some missed_run), w) \<Rightarrow>
                  if missed_run \<le> observed_now
                  then let w = emit_state kc st missed missed_run observed_now 0 w
                       in if cto_missed_policy options = Missed_run_once_immediately
                          then (Inr (Some \<lparr>pd_planned_utc_ms = missed_run, pd_immediate = True\<rparr>), w)
                          else future w
                  else (Inr (Some \<lparr>pd_planned_utc_ms = missed_run, pd_immediate = False\<rparr>), w)))"

definition schedule_one ::
  "('u, ('u, 'clk, 'z) CAL_scheme) cal_code \<Rightarrow> nat \<Rightarrow> nat \<Rightarrow> int \<Rightarrow> int \<Rightarrow> bool
     \<Rightarrow> ('u, 'clk, 'z) CAL_scheme \<Rightarrow> bool \<times> ('u, 'clk, 'z) CAL_scheme" where
  "schedule_one kc c st planned observed_now immediate w =
     (let delay_ms = (if immediate \<or> planned \<le> observed_now then 0 else planned - observed_now);
          (now1, w) = steady_now w;
          steady_due = now1 + milliseconds delay_ms;
          (now2, w) = steady_now w;
          (task_id, w) = add_task_at now2 steady_due (ContextModel (Calendar_run c st))
                           \<lparr>opt_priority = cto_priority (st_options (cal_states w st))\<rparr> w
      in if task_id = 0 then (False, w)
         else if find_task c (st_id (cal_states w st)) w = None \<or> st_cancelled (cal_states w st) \<or>
                 core_closed (cal_cores w c)
         then (False, snd (cancel task_id w))
         else let w = update_state st (\<lambda>s. s\<lparr>st_scheduled_task_id := task_id, st_planned_utc_ms := planned\<rparr>) w
              in (True, emit_state kc st scheduled planned observed_now task_id w))"

section \<open>Running a due rule\<close>

text \<open>The result is the exception that leaves the function, if any.\<close>

definition schedule_after_run ::
  "('clk, 'zone) time_shield \<Rightarrow> ('u, ('u, 'clk, 'z) CAL_scheme) cal_code \<Rightarrow> nat \<Rightarrow> nat \<Rightarrow> int \<Rightarrow> int
     \<Rightarrow> ('u, 'clk, 'z) CAL_scheme \<Rightarrow> ('u, 'clk, 'z) CAL_scheme \<times> exn option" where
  "schedule_after_run ts kc c st previous_planned observed_now w =
     (let options = st_options (cal_states w st); provider = st_provider (cal_states w st);
          finish = (\<lambda>w. (mark_completed c st w, None));
          plan = (\<lambda>t immediate w.
                    case schedule_one kc c st t observed_now immediate w of
                      (ok, w) \<Rightarrow> if ok then (w, None) else finish w)
      in case next_time ts kc provider options previous_planned observed_now w of
           (Inl x, w) \<Rightarrow> (w, Some x)
         | (Inr None, w) \<Rightarrow> finish w
         | (Inr (Some t), w) \<Rightarrow>
             if t \<le> observed_now
             then let w = emit_state kc st missed t observed_now 0 w
                  in if cto_overlap_policy options = Overlap_queue_one_after_current then plan t True w
                     else (case next_time ts kc provider options observed_now observed_now w of
                             (Inl x, w) \<Rightarrow> (w, Some x)
                           | (Inr None, w) \<Rightarrow> finish w
                           | (Inr (Some t'), w) \<Rightarrow> plan t' (t' \<le> observed_now) w)
             else plan t False w)"

definition rule_gone :: "nat \<Rightarrow> nat \<Rightarrow> ('u, 'clk, 'z) CAL_scheme \<Rightarrow> bool" where
  "rule_gone c st w \<longleftrightarrow>
     find_task c (st_id (cal_states w st)) w = None \<or> st_cancelled (cal_states w st) \<or> core_closed (cal_cores w c)"

text \<open>\<^verbatim>\<open>run_due\<close> after its callback has returned.\<close>

definition after_callback_returned ::
  "('clk, 'zone) time_shield \<Rightarrow> ('u, ('u, 'clk, 'z) CAL_scheme) cal_code \<Rightarrow> nat \<Rightarrow> nat \<Rightarrow> TaskContext
     \<Rightarrow> int \<Rightarrow> TaskId \<Rightarrow> u64 \<Rightarrow> ('u, 'clk, 'z) CAL_scheme \<Rightarrow> ('u, 'clk, 'z) CAL_scheme \<times> exn option" where
  "after_callback_returned ts kc c st context planned task_id run_count w =
     (let (after_now, w) = safe_now_utc_ms ts kc (st_options (cal_states w st)) w;
          (run_count, w) =
            (if rule_gone c st w \<or> TaskContext_is_cancelled context w
             then (run_count, update_state st (\<lambda>s. s\<lparr>st_cancelled := True\<rparr>) w)
             else let w = update_state st (\<lambda>s. s\<lparr>st_run_count := st_run_count s + 1\<rparr>) w
                  in (st_run_count (cal_states w st), w));
          w = emit_info kc st after_callback planned after_now task_id run_count w
      in if TaskContext_is_cancelled context w \<or> is_state_cancelled c (st_id (cal_states w st)) w
         then (emit_info kc st calendar_cancelled planned after_now task_id run_count (mark_completed c st w), None)
         else schedule_after_run ts kc c st planned after_now w)"

definition run_due ::
  "('clk, 'zone) time_shield \<Rightarrow> ('u, ('u, 'clk, 'z) CAL_scheme) cal_code \<Rightarrow> nat \<Rightarrow> nat \<Rightarrow> TaskContext
     \<Rightarrow> ('u, 'clk, 'z) CAL_scheme \<Rightarrow> ('u, 'clk, 'z) CAL_scheme \<times> exn option" where
  "run_due ts kc c st context w =
     (if rule_gone c st w then (w, None)
      else let planned = st_planned_utc_ms (cal_states w st);
               task_id = st_scheduled_task_id (cal_states w st);
               run_count = st_run_count (cal_states w st);
               w = update_state st (\<lambda>s. s\<lparr>st_scheduled_task_id := 0\<rparr>) w;
               (observed_now, w) = safe_now_utc_ms ts kc (st_options (cal_states w st)) w;
               w = emit_info kc st due planned observed_now task_id run_count w;
               w = emit_info kc st before_callback planned observed_now task_id run_count w
           in case Task_call_context (kc_task kc) (st_callback (cal_states w st)) context w of
                (w, Some x) \<Rightarrow>
                  let (now, w) = safe_now_utc_ms ts kc (st_options (cal_states w st)) w;
                      w = emit_info kc st after_callback planned now task_id run_count w
                  in (mark_completed c st w, Some x)
              | (w, None) \<Rightarrow> after_callback_returned ts kc c st context planned task_id run_count w)"

text \<open>The closure \<^verbatim>\<open>schedule_one\<close> queues, and the effect of any callable in the manager's queues.\<close>

definition calendar_task ::
  "('clk, 'zone) time_shield \<Rightarrow> ('u, ('u, 'clk, 'z) CAL_scheme) cal_code \<Rightarrow> nat \<Rightarrow> nat \<Rightarrow> TaskContext
     \<Rightarrow> ('u, 'clk, 'z) CAL_scheme \<Rightarrow> ('u, 'clk, 'z) CAL_scheme \<times> exn option" where
  "calendar_task ts kc c st context w =
     (if \<not> core_alive c w \<or> \<not> state_alive c st w then (w, None)
      else map_prod (release_core c \<circ> release_state st) id
             (run_due ts kc c st context (hold_state st (hold_core c w))))"

fun run_calendar_callable ::
  "('clk, 'zone) time_shield \<Rightarrow> ('u, ('u, 'clk, 'z) CAL_scheme) cal_code \<Rightarrow> 'u CalCallable
     \<Rightarrow> TaskContext option \<Rightarrow> ('u, 'clk, 'z) CAL_scheme \<Rightarrow> ('u, 'clk, 'z) CAL_scheme \<times> exn option" where
  "run_calendar_callable ts kc (User_callable u) context w = kc_task kc u context w"
| "run_calendar_callable ts kc (Calendar_run c st) context w =
     calendar_task ts kc c st (case context of None \<Rightarrow> Inert_context | Some ctx \<Rightarrow> ctx) w"

section \<open>Adding a rule\<close>

definition next_calendar_id_step :: "u64 \<Rightarrow> CalendarTaskId \<times> u64" where
  "next_calendar_id_step m_next_id =
     (let (i, m1) = fetch_add m_next_id in if i = 0 then fetch_add m1 else (i, m1))"

interpretation calendar_ids: id_source next_calendar_id_step
  by unfold_locales (simp_all add: next_calendar_id_step_def fetch_add_def)

definition next_calendar_id ::
  "nat \<Rightarrow> ('u, 'clk, 'z) CAL_scheme \<Rightarrow> CalendarTaskId \<times> ('u, 'clk, 'z) CAL_scheme" where
  "next_calendar_id c w =
     (let (i, m) = next_calendar_id_step (core_next_id (cal_cores w c))
      in (i, update_core c (\<lambda>k. k\<lparr>core_next_id := m\<rparr>) w))"

text \<open>The outcome \<^verbatim>\<open>return 0\<close> after the state has entered the table.\<close>

definition reject_rule ::
  "('clk, 'zone) time_shield \<Rightarrow> ('u, ('u, 'clk, 'z) CAL_scheme) cal_code \<Rightarrow> nat \<Rightarrow> nat
     \<Rightarrow> ('u, 'clk, 'z) CAL_scheme \<Rightarrow> CalendarTaskId \<times> ('u, 'clk, 'z) CAL_scheme" where
  "reject_rule ts kc c st w = (0, snd (cancel_on_core ts kc c (st_id (cal_states w st)) w))"

definition register_state ::
  "nat \<Rightarrow> 'u RuleProvider \<Rightarrow> 'u Task \<Rightarrow> ('u, 'clk) CalendarTaskOptions
     \<Rightarrow> ('u, 'clk, 'z) CAL_scheme \<Rightarrow> nat \<times> ('u, 'clk, 'z) CAL_scheme" where
  "register_state c provider callback options w =
     (let st = cal_next_state w;
          w = hold_state st (w\<lparr>cal_next_state := Suc st\<rparr>);
          (i, w) = next_calendar_id c w;
          w = update_state st (\<lambda>_. \<lparr> st_id = i, st_options = options, st_provider = provider,
                                     st_callback = callback, st_scheduled_task_id = 0,
                                     st_planned_utc_ms = 0, st_run_count = 0, st_cancelled = False \<rparr>) w
      in (st, emplace_task c i st w))"

definition add_rule ::
  "('clk, 'zone) time_shield \<Rightarrow> ('u, ('u, 'clk, 'z) CAL_scheme) cal_code \<Rightarrow> nat \<Rightarrow> 'u RuleProvider
     \<Rightarrow> 'u Task \<Rightarrow> ('u, 'clk) CalendarTaskOptions \<Rightarrow> ('u, 'clk, 'z) CAL_scheme
     \<Rightarrow> CalendarTaskId \<times> ('u, 'clk, 'z) CAL_scheme" where
  "add_rule ts kc c provider callback options w =
     (if \<not> Task_bool callback then (0, w)
      else if core_closed (cal_cores w c) \<or> is_closed w then (0, w)
      else let (st, w) = register_state c provider callback options (hold_core c w);
               (observed_now, w) = safe_now_utc_ms ts kc options w;
               w = emit_state kc st created 0 observed_now 0 w;
               (r, w) =
                 (case first_planned_due ts kc st observed_now w of
                    (Inl x, w) \<Rightarrow> reject_rule ts kc c st w
                  | (Inr None, w) \<Rightarrow> reject_rule ts kc c st w
                  | (Inr (Some planned), w) \<Rightarrow>
                      (case schedule_one kc c st (pd_planned_utc_ms planned) observed_now (pd_immediate planned) w of
                         (ok, w) \<Rightarrow>
                           if ok then (st_id (cal_states w st), w) else reject_rule ts kc c st w))
           in (r, release_core c (release_state st w)))"

definition add_daily_task ::
  "('clk, 'zone) time_shield \<Rightarrow> ('u, ('u, 'clk, 'z) CAL_scheme) cal_code \<Rightarrow> nat \<Rightarrow> int \<Rightarrow> 'u Task
     \<Rightarrow> ('u, 'clk) CalendarTaskOptions \<Rightarrow> ('u, 'clk, 'z) CAL_scheme \<Rightarrow> CalendarTaskId \<times> ('u, 'clk, 'z) CAL_scheme" where
  "add_daily_task ts kc c second callback options w =
     (if \<not> Task_bool callback \<or> \<not> valid_second_of_day ts second then (0, w)
      else add_rule ts kc c (Daily (normalize_seconds ts [second])) callback options w)"

definition add_daily_task_at ::
  "('clk, 'zone) time_shield \<Rightarrow> ('u, ('u, 'clk, 'z) CAL_scheme) cal_code \<Rightarrow> nat \<Rightarrow> LocalTime \<Rightarrow> 'u Task
     \<Rightarrow> ('u, 'clk) CalendarTaskOptions \<Rightarrow> ('u, 'clk, 'z) CAL_scheme \<Rightarrow> CalendarTaskId \<times> ('u, 'clk, 'z) CAL_scheme" where
  "add_daily_task_at ts kc c t callback options w =
     (if \<not> is_valid_time_of_day ts t then (0, w)
      else add_daily_task ts kc c (second_of_day ts t) callback options w)"

definition add_weekly_schedule ::
  "('clk, 'zone) time_shield \<Rightarrow> ('u, ('u, 'clk, 'z) CAL_scheme) cal_code \<Rightarrow> nat \<Rightarrow> WeeklySchedule \<Rightarrow> 'u Task
     \<Rightarrow> ('u, 'clk) CalendarTaskOptions \<Rightarrow> ('u, 'clk, 'z) CAL_scheme \<Rightarrow> CalendarTaskId \<times> ('u, 'clk, 'z) CAL_scheme" where
  "add_weekly_schedule ts kc c schedule callback options w =
     (case normalize_weekly ts schedule of (has_any, schedule) \<Rightarrow>
        if \<not> Task_bool callback \<or> \<not> has_any then (0, w)
        else add_rule ts kc c (Weekly schedule) callback options w)"

definition add_weekly_task ::
  "('clk, 'zone) time_shield \<Rightarrow> ('u, ('u, 'clk, 'z) CAL_scheme) cal_code \<Rightarrow> nat \<Rightarrow> Weekday \<Rightarrow> int \<Rightarrow> 'u Task
     \<Rightarrow> ('u, 'clk) CalendarTaskOptions \<Rightarrow> ('u, 'clk, 'z) CAL_scheme \<Rightarrow> CalendarTaskId \<times> ('u, 'clk, 'z) CAL_scheme" where
  "add_weekly_task ts kc c day_of_week second callback options w =
     (if \<not> Task_bool callback \<or> \<not> valid_weekday ts day_of_week \<or> \<not> valid_second_of_day ts second then (0, w)
      else add_weekly_schedule ts kc c
             (WeeklySchedule_init\<lparr>seconds_by_weekday :=
                push_at (nat day_of_week) second (seconds_by_weekday WeeklySchedule_init)\<rparr>)
             callback options w)"

definition add_weekly_task_at ::
  "('clk, 'zone) time_shield \<Rightarrow> ('u, ('u, 'clk, 'z) CAL_scheme) cal_code \<Rightarrow> nat \<Rightarrow> Weekday \<Rightarrow> LocalTime \<Rightarrow> 'u Task
     \<Rightarrow> ('u, 'clk) CalendarTaskOptions \<Rightarrow> ('u, 'clk, 'z) CAL_scheme \<Rightarrow> CalendarTaskId \<times> ('u, 'clk, 'z) CAL_scheme" where
  "add_weekly_task_at ts kc c day_of_week t callback options w =
     (if \<not> is_valid_time_of_day ts t then (0, w)
      else add_weekly_task ts kc c day_of_week (second_of_day ts t) callback options w)"

definition add_monthly_schedule ::
  "('clk, 'zone) time_shield \<Rightarrow> ('u, ('u, 'clk, 'z) CAL_scheme) cal_code \<Rightarrow> nat \<Rightarrow> MonthlySchedule \<Rightarrow> 'u Task
     \<Rightarrow> ('u, 'clk) CalendarTaskOptions \<Rightarrow> ('u, 'clk, 'z) CAL_scheme \<Rightarrow> CalendarTaskId \<times> ('u, 'clk, 'z) CAL_scheme" where
  "add_monthly_schedule ts kc c schedule callback options w =
     (case normalize_monthly ts schedule of (has_any, schedule) \<Rightarrow>
        if \<not> Task_bool callback \<or> \<not> has_any then (0, w)
        else add_rule ts kc c (Monthly schedule) callback options w)"

definition add_monthly_task_at ::
  "('clk, 'zone) time_shield \<Rightarrow> ('u, ('u, 'clk, 'z) CAL_scheme) cal_code \<Rightarrow> nat \<Rightarrow> int \<Rightarrow> LocalTime \<Rightarrow> 'u Task
     \<Rightarrow> ('u, 'clk) CalendarTaskOptions \<Rightarrow> ('u, 'clk, 'z) CAL_scheme \<Rightarrow> CalendarTaskId \<times> ('u, 'clk, 'z) CAL_scheme" where
  "add_monthly_task_at ts kc c month_day t callback options w =
     (if \<not> is_valid_time_of_day ts t then (0, w)
      else add_monthly_schedule ts kc c (MonthlySchedule_add_time ts month_day t MonthlySchedule_init)
             callback options w)"

text \<open>A custom rule; \<open>None\<close> is an empty \<^verbatim>\<open>NextTimeProvider\<close>.\<close>

definition add_custom_calendar_task ::
  "('clk, 'zone) time_shield \<Rightarrow> ('u, ('u, 'clk, 'z) CAL_scheme) cal_code \<Rightarrow> nat \<Rightarrow> 'u option \<Rightarrow> 'u Task
     \<Rightarrow> ('u, 'clk) CalendarTaskOptions \<Rightarrow> ('u, 'clk, 'z) CAL_scheme \<Rightarrow> CalendarTaskId \<times> ('u, 'clk, 'z) CAL_scheme" where
  "add_custom_calendar_task ts kc c next_time_provider callback options w =
     (case next_time_provider of
        None \<Rightarrow> (0, w)
      | Some u \<Rightarrow>
          if \<not> Task_bool callback then (0, w) else add_rule ts kc c (Custom u) callback options w)"

text \<open>
  The overloads that take a callable instead of a \<^verbatim>\<open>Task\<close>. The callable takes a context or not, and it may be
  null when it is a function pointer or a \<^verbatim>\<open>std::function\<close>.
\<close>

datatype 'u Callback = Plain_callback "'u option" | Context_callback "'u option"

fun Task_of :: "'u Callback \<Rightarrow> 'u Task" where
  "Task_of (Plain_callback f) = Task_from_function f"
| "Task_of (Context_callback f) = Task_from_context_function f"

definition add_daily_task_fn ::
  "('clk, 'zone) time_shield \<Rightarrow> ('u, ('u, 'clk, 'z) CAL_scheme) cal_code \<Rightarrow> nat \<Rightarrow> int \<Rightarrow> 'u Callback
     \<Rightarrow> ('u, 'clk) CalendarTaskOptions \<Rightarrow> ('u, 'clk, 'z) CAL_scheme \<Rightarrow> CalendarTaskId \<times> ('u, 'clk, 'z) CAL_scheme" where
  "add_daily_task_fn ts kc c second callback options w =
     add_daily_task ts kc c second (Task_of callback) options w"

definition add_daily_task_at_fn ::
  "('clk, 'zone) time_shield \<Rightarrow> ('u, ('u, 'clk, 'z) CAL_scheme) cal_code \<Rightarrow> nat \<Rightarrow> LocalTime \<Rightarrow> 'u Callback
     \<Rightarrow> ('u, 'clk) CalendarTaskOptions \<Rightarrow> ('u, 'clk, 'z) CAL_scheme \<Rightarrow> CalendarTaskId \<times> ('u, 'clk, 'z) CAL_scheme" where
  "add_daily_task_at_fn ts kc c t callback options w =
     add_daily_task_at ts kc c t (Task_of callback) options w"

definition add_weekly_task_fn ::
  "('clk, 'zone) time_shield \<Rightarrow> ('u, ('u, 'clk, 'z) CAL_scheme) cal_code \<Rightarrow> nat \<Rightarrow> Weekday \<Rightarrow> int \<Rightarrow> 'u Callback
     \<Rightarrow> ('u, 'clk) CalendarTaskOptions \<Rightarrow> ('u, 'clk, 'z) CAL_scheme \<Rightarrow> CalendarTaskId \<times> ('u, 'clk, 'z) CAL_scheme" where
  "add_weekly_task_fn ts kc c day_of_week second callback options w =
     add_weekly_task ts kc c day_of_week second (Task_of callback) options w"

definition add_weekly_task_at_fn ::
  "('clk, 'zone) time_shield \<Rightarrow> ('u, ('u, 'clk, 'z) CAL_scheme) cal_code \<Rightarrow> nat \<Rightarrow> Weekday \<Rightarrow> LocalTime \<Rightarrow> 'u Callback
     \<Rightarrow> ('u, 'clk) CalendarTaskOptions \<Rightarrow> ('u, 'clk, 'z) CAL_scheme \<Rightarrow> CalendarTaskId \<times> ('u, 'clk, 'z) CAL_scheme" where
  "add_weekly_task_at_fn ts kc c day_of_week t callback options w =
     add_weekly_task_at ts kc c day_of_week t (Task_of callback) options w"

definition add_weekly_schedule_fn ::
  "('clk, 'zone) time_shield \<Rightarrow> ('u, ('u, 'clk, 'z) CAL_scheme) cal_code \<Rightarrow> nat \<Rightarrow> WeeklySchedule \<Rightarrow> 'u Callback
     \<Rightarrow> ('u, 'clk) CalendarTaskOptions \<Rightarrow> ('u, 'clk, 'z) CAL_scheme \<Rightarrow> CalendarTaskId \<times> ('u, 'clk, 'z) CAL_scheme" where
  "add_weekly_schedule_fn ts kc c schedule callback options w =
     add_weekly_schedule ts kc c schedule (Task_of callback) options w"

definition add_monthly_schedule_fn ::
  "('clk, 'zone) time_shield \<Rightarrow> ('u, ('u, 'clk, 'z) CAL_scheme) cal_code \<Rightarrow> nat \<Rightarrow> MonthlySchedule \<Rightarrow> 'u Callback
     \<Rightarrow> ('u, 'clk) CalendarTaskOptions \<Rightarrow> ('u, 'clk, 'z) CAL_scheme \<Rightarrow> CalendarTaskId \<times> ('u, 'clk, 'z) CAL_scheme" where
  "add_monthly_schedule_fn ts kc c schedule callback options w =
     add_monthly_schedule ts kc c schedule (Task_of callback) options w"

definition add_monthly_task_at_fn ::
  "('clk, 'zone) time_shield \<Rightarrow> ('u, ('u, 'clk, 'z) CAL_scheme) cal_code \<Rightarrow> nat \<Rightarrow> int \<Rightarrow> LocalTime \<Rightarrow> 'u Callback
     \<Rightarrow> ('u, 'clk) CalendarTaskOptions \<Rightarrow> ('u, 'clk, 'z) CAL_scheme \<Rightarrow> CalendarTaskId \<times> ('u, 'clk, 'z) CAL_scheme" where
  "add_monthly_task_at_fn ts kc c month_day t callback options w =
     add_monthly_task_at ts kc c month_day t (Task_of callback) options w"

definition add_custom_calendar_task_fn ::
  "('clk, 'zone) time_shield \<Rightarrow> ('u, ('u, 'clk, 'z) CAL_scheme) cal_code \<Rightarrow> nat \<Rightarrow> 'u option \<Rightarrow> 'u Callback
     \<Rightarrow> ('u, 'clk) CalendarTaskOptions \<Rightarrow> ('u, 'clk, 'z) CAL_scheme \<Rightarrow> CalendarTaskId \<times> ('u, 'clk, 'z) CAL_scheme" where
  "add_custom_calendar_task_fn ts kc c next_time_provider callback options w =
     add_custom_calendar_task ts kc c next_time_provider (Task_of callback) options w"

end
