(* ===== verification/Calendar_Rules.thy ===== *)
theory Calendar_Rules
  imports Calendar_Scheduler Task_Frame
begin

text \<open>
  What every operation of a calendar scheduler keeps: the tables stay well formed, a cancelled rule stays
  cancelled, a closed core stays closed. User code may call every operation and so keeps them too; on that
  assumption the relation \<open>keeps\<close> holds between the states before and after any call, whole
  \<^verbatim>\<open>process()\<close> calls of the manager included.
\<close>

section \<open>The invariant and the relation\<close>

text \<open>Every entry of a table is a state that exists and knows the id it is filed under.\<close>

definition cal_table_ok :: "('u, 'clk, 'z) CAL_scheme \<Rightarrow> nat \<Rightarrow> bool" where
  "cal_table_ok w c \<longleftrightarrow>
     distinct (map fst (core_tasks (cal_cores w c))) \<and>
     (\<forall>(i, st) \<in> set (core_tasks (cal_cores w c)).
        i \<noteq> 0 \<and> st < cal_next_state w \<and> st_id (cal_states w st) = i)"

definition cal_inv :: "('u, 'clk, 'z) CAL_scheme \<Rightarrow> bool" where
  "cal_inv w \<longleftrightarrow> (\<forall>c. cal_table_ok w c)"

text \<open>A state's id, rule and options are set when it is created; it is cancelled once and for all.\<close>

definition same_rule :: "('u, 'clk) CalState \<Rightarrow> ('u, 'clk) CalState \<Rightarrow> bool" where
  "same_rule s s' \<longleftrightarrow>
     st_id s' = st_id s \<and> st_options s' = st_options s \<and> st_provider s' = st_provider s \<and>
     st_callback s' = st_callback s \<and> (st_cancelled s \<longrightarrow> st_cancelled s')"

definition ahead :: "('u, 'clk, 'z) CAL_scheme \<Rightarrow> ('u, 'clk, 'z) CAL_scheme \<Rightarrow> bool" where
  "ahead w w' \<longleftrightarrow>
     cal_next_state w \<le> cal_next_state w' \<and>
     (\<forall>st < cal_next_state w. same_rule (cal_states w st) (cal_states w' st)) \<and>
     (\<forall>c. core_closed (cal_cores w c) \<longrightarrow> core_closed (cal_cores w' c))"

definition keeps :: "('u, 'clk, 'z) CAL_scheme \<Rightarrow> ('u, 'clk, 'z) CAL_scheme \<Rightarrow> bool" where
  "keeps w w' \<longleftrightarrow> ahead w w' \<and> (cal_inv w \<longrightarrow> cal_inv w')"

definition code_keeps :: "('u, ('u, 'clk, 'z) CAL_scheme) cal_code \<Rightarrow> bool" where
  "code_keeps kc \<longleftrightarrow>
     (\<forall>u ctx w. keeps w (fst (kc_task kc u ctx w))) \<and>
     (\<forall>u w. keeps w (snd (kc_now kc u w))) \<and>
     (\<forall>u after now w. keeps w (snd (kc_next kc u after now w))) \<and>
     (\<forall>u info w. keeps w (fst (kc_observer kc u info w)))"

lemma code_keepsD:
  assumes "code_keeps kc"
  shows "keeps w (fst (kc_task kc u ctx w))" "keeps w (snd (kc_now kc u w))"
    "keeps w (snd (kc_next kc u after now w))" "keeps w (fst (kc_observer kc u info w))"
  using assms by (auto simp: code_keeps_def)

section \<open>The relation composes\<close>

lemma same_rule_refl [simp]: "same_rule s s"
  by (simp add: same_rule_def)

lemma same_rule_trans: "same_rule s s' \<Longrightarrow> same_rule s' s'' \<Longrightarrow> same_rule s s''"
  by (simp add: same_rule_def)

lemma ahead_trans: "ahead w w' \<Longrightarrow> ahead w' w'' \<Longrightarrow> ahead w w''"
  unfolding ahead_def by (meson le_trans less_le_trans same_rule_trans)

lemma keeps_trans [trans]: "keeps w w' \<Longrightarrow> keeps w' w'' \<Longrightarrow> keeps w w''"
  unfolding keeps_def using ahead_trans by blast

text \<open>Only the cores, the states and their number matter.\<close>

lemma keeps_same:
  assumes "cal_cores w' = cal_cores w" "cal_states w' = cal_states w" "cal_next_state w' = cal_next_state w"
  shows "keeps w w'"
  using assms by (simp add: keeps_def ahead_def cal_inv_def cal_table_ok_def)

lemma keeps_refl [simp]: "keeps w w"
  by (rule keeps_same) simp_all

lemma cal_extend:
  "cal_cores (TM.extend t (TM.more w)) = cal_cores w" "cal_states (TM.extend t (TM.more w)) = cal_states w"
  "cal_next_state (TM.extend t (TM.more w)) = cal_next_state w"
  "cal_state_frames (TM.extend t (TM.more w)) = cal_state_frames w"
  "cal_core_frames (TM.extend t (TM.more w)) = cal_core_frames w"
  "cal_steady (TM.extend t (TM.more w)) = cal_steady w" "cal_reads (TM.extend t (TM.more w)) = cal_reads w"
  by (cases w, simp add: TM.defs)+

lemma cal_more:
  assumes "TM.more w' = TM.more w"
  shows "cal_cores w' = cal_cores w" "cal_states w' = cal_states w" "cal_next_state w' = cal_next_state w"
    "cal_state_frames w' = cal_state_frames w" "cal_core_frames w' = cal_core_frames w"
    "cal_steady w' = cal_steady w" "cal_reads w' = cal_reads w"
  using assms by (metis cal_extend)+

lemma keeps_more: "TM.more w' = TM.more w \<Longrightarrow> keeps w w'"
  by (rule keeps_same) (erule cal_more)+

interpretation cal: tm_rider keeps
  by unfold_locales (rule keeps_more, assumption, rule keeps_trans, assumption+)

section \<open>Small steps\<close>

lemma keeps_frames [simp]:
  "keeps w (hold_state st w)" "keeps w (release_state st w)" "keeps w (hold_core c w)" "keeps w (release_core c w)"
  "keeps w (snd (steady_now w))" "keeps w (snd (clock_utc_time_ms ts clk w))"
  by (simp_all add: keeps_same hold_state_def release_state_def hold_core_def release_core_def steady_now_def
      clock_utc_time_ms_def)

lemma cal_inv_states:
  assumes "cal_cores w' = cal_cores w" "cal_next_state w' = cal_next_state w"
    "\<And>st. st_id (cal_states w' st) = st_id (cal_states w st)"
  shows "cal_inv w' \<longleftrightarrow> cal_inv w"
  by (simp add: cal_inv_def cal_table_ok_def assms)

lemma keeps_update_state:
  assumes "\<And>s. same_rule s (f s)"
  shows "keeps w (update_state st f w)"
proof -
  have "st_id (f s) = st_id s" for s using assms by (simp add: same_rule_def)
  then have "cal_inv (update_state st f w) \<longleftrightarrow> cal_inv w"
    by (intro cal_inv_states) (simp_all add: update_state_def)
  then show ?thesis using assms by (simp add: keeps_def ahead_def update_state_def)
qed

text \<open>Entries only disappear from a table, and a core may close.\<close>

lemma keeps_update_core:
  assumes "\<And>k. core_tasks (f k) = filter P (core_tasks k)" "\<And>k. core_closed k \<Longrightarrow> core_closed (f k)"
  shows "keeps w (update_core c f w)"
  using assms
  by (auto simp: keeps_def ahead_def update_core_def cal_inv_def cal_table_ok_def distinct_map_filter)

lemma keeps_erase_task [simp]: "keeps w (erase_task c i w)"
  unfolding erase_task_def by (rule keeps_update_core [where P = "\<lambda>p. fst p \<noteq> i"]) simp_all

lemma keeps_cancel_flag [simp]: "keeps w (update_state st (\<lambda>s. s\<lparr>st_cancelled := True\<rparr>) w)"
  by (rule keeps_update_state) (simp add: same_rule_def)

lemma keeps_mark_completed [simp]: "keeps w (mark_completed c st w)"
  unfolding mark_completed_def Let_def by (rule keeps_trans [OF keeps_cancel_flag keeps_erase_task])

lemma keeps_tm_cancel [simp]: "keeps w (snd (cancel i w))"
  by (rule cal.rider) (rule tm_more_cancel)

lemma keeps_now:
  assumes "code_keeps kc"
  shows "keeps w (snd (safe_now_utc_ms ts kc options w))"
proof -
  have now: "keeps w (snd (now_utc_ms ts kc options w))"
    using assms by (auto simp: now_utc_ms_def code_keepsD split: option.split)
  then show ?thesis
    by (auto simp: safe_now_utc_ms_def split: prod.split sum.split) (metis keeps_frames(6) keeps_trans snd_conv)+
qed

lemma keeps_next_time:
  "code_keeps kc \<Longrightarrow> keeps w (snd (next_time ts kc p options after now w))"
  by (cases p) (simp_all add: code_keepsD)

lemma keeps_emit: "code_keeps kc \<Longrightarrow> keeps w (emit_info kc st event planned now task_id n w)"
  by (simp add: emit_info_def code_keepsD split: option.split)

lemma keeps_emit_state: "code_keeps kc \<Longrightarrow> keeps w (emit_state kc st event planned now task_id w)"
  by (simp add: emit_state_def keeps_emit)

section \<open>Every operation keeps the relation\<close>

text \<open>The steps as rules that extend a chain by one call.\<close>

named_theorems keeps_steps \<open>a chain of calls extended by one\<close>

lemma keeps_chain [keeps_steps]:
  "keeps w w' \<Longrightarrow> keeps w (hold_state st w')" "keeps w w' \<Longrightarrow> keeps w (release_state st w')"
  "keeps w w' \<Longrightarrow> keeps w (hold_core c w')" "keeps w w' \<Longrightarrow> keeps w (release_core c w')"
  "keeps w w' \<Longrightarrow> keeps w (snd (steady_now w'))" "keeps w w' \<Longrightarrow> keeps w (erase_task c i w')"
  "keeps w w' \<Longrightarrow> keeps w (update_state st (\<lambda>s. s\<lparr>st_cancelled := True\<rparr>) w')"
  "keeps w w' \<Longrightarrow> keeps w (mark_completed c st w')" "keeps w w' \<Longrightarrow> keeps w (snd (cancel tid w'))"
  by (erule keeps_trans, simp)+

lemma keeps_chain_code [keeps_steps]:
  "code_keeps kc \<Longrightarrow> keeps w w' \<Longrightarrow> keeps w (snd (safe_now_utc_ms ts kc options w'))"
  "code_keeps kc \<Longrightarrow> keeps w w' \<Longrightarrow> keeps w (snd (next_time ts kc p options after now w'))"
  "code_keeps kc \<Longrightarrow> keeps w w' \<Longrightarrow> keeps w (emit_info kc st event planned now tid n w')"
  "code_keeps kc \<Longrightarrow> keeps w w' \<Longrightarrow> keeps w (emit_state kc st event planned now tid w')"
  by (erule keeps_trans, erule keeps_now keeps_next_time keeps_emit keeps_emit_state)+

lemma keeps_chain_fields [keeps_steps]:
  "keeps w w' \<Longrightarrow> keeps w (update_state st (\<lambda>s. s\<lparr>st_scheduled_task_id := tid, st_planned_utc_ms := t\<rparr>) w')"
  "keeps w w' \<Longrightarrow> keeps w (update_state st (\<lambda>s. s\<lparr>st_scheduled_task_id := tid\<rparr>) w')"
  "keeps w w' \<Longrightarrow> keeps w (update_state st (\<lambda>s. s\<lparr>st_run_count := st_run_count s + 1\<rparr>) w')"
  by (erule keeps_trans, rule keeps_update_state, simp add: same_rule_def)+

lemma keeps_chain_core [keeps_steps]:
  "keeps w w' \<Longrightarrow> keeps w (update_core c (\<lambda>k. k\<lparr>core_closed := True\<rparr>) w')"
  "keeps w w' \<Longrightarrow> keeps w (update_core c (\<lambda>k. k\<lparr>core_owned := False\<rparr>) w')"
  "keeps w w' \<Longrightarrow> keeps w (update_core c (\<lambda>k. k\<lparr>core_tasks := []\<rparr>) w')"
  by (erule keeps_trans, rule keeps_update_core [where P = "\<lambda>_. True"], simp, simp)+
    (erule keeps_trans, rule keeps_update_core [where P = "\<lambda>_. False"], simp, simp)

lemma keeps_cancel_on_core [keeps_steps]:
  assumes "code_keeps kc" "keeps w w'"
  shows "keeps w (snd (cancel_on_core ts kc c i w'))"
  using assms unfolding cancel_on_core_def Let_def split_def
  by (auto split: option.split intro!: keeps_steps)

lemma keeps_finish_cancelled [keeps_steps]:
  assumes "code_keeps kc" "keeps w w'"
  shows "keeps w (finish_cancelled ts kc st w')"
  using assms unfolding finish_cancelled_def Let_def split_def by (auto intro!: keeps_steps)

lemma keeps_fold [keeps_steps]:
  assumes "keeps w w'" "\<And>st w w'. keeps w w' \<Longrightarrow> keeps w (f st w')"
  shows "keeps w (fold f sts w')"
  using assms(1) by (induction sts arbitrary: w') (simp_all add: assms(2))

lemma keeps_cancel_all_on_core [keeps_steps]:
  assumes "code_keeps kc" "keeps w w'"
  shows "keeps w (snd (cancel_all_on_core ts kc c close_core w'))"
  using assms unfolding cancel_all_on_core_def Let_def by (auto intro!: keeps_steps)

lemma keeps_calendar_cancel [keeps_steps]:
  assumes "code_keeps kc" "keeps w w'"
  shows "keeps w (snd (calendar_cancel ts kc c i w'))" "keeps w (snd (calendar_cancel_all ts kc c w'))"
    "keeps w (CalendarScheduler_destroy ts kc c w')"
  using assms unfolding calendar_cancel_def calendar_cancel_all_def CalendarScheduler_destroy_def
  by (auto intro!: keeps_steps)

lemma keeps_first_planned_due [keeps_steps]:
  assumes "code_keeps kc" "keeps w w'"
  shows "keeps w (snd (first_planned_due ts kc st now w'))"
  using assms unfolding first_planned_due_def Let_def split_def
  by (auto split: option.split sum.split intro!: keeps_steps)

lemma keeps_add_task_at [keeps_steps]:
  "keeps w w' \<Longrightarrow> keeps w (snd (add_task_at now d task options w'))"
  by (erule keeps_trans, rule keeps_more) (simp add: add_task_at_def tm_more_post_at)

lemma keeps_schedule_one [keeps_steps]:
  assumes "code_keeps kc" "keeps w w'"
  shows "keeps w (snd (schedule_one kc c st planned now immediate w'))"
  using assms unfolding schedule_one_def Let_def split_def by (auto intro!: keeps_steps)

lemma keeps_schedule_after_run [keeps_steps]:
  assumes "code_keeps kc" "keeps w w'"
  shows "keeps w (fst (schedule_after_run ts kc c st previous now w'))"
  using assms unfolding schedule_after_run_def Let_def split_def
  by (auto split: option.split sum.split intro!: keeps_steps)

lemma keeps_after_callback [keeps_steps]:
  assumes "code_keeps kc" "keeps w w'"
  shows "keeps w (fst (after_callback_returned ts kc c st context planned tid n w'))"
  using assms unfolding after_callback_returned_def Let_def split_def by (auto intro!: keeps_steps)

lemma keeps_callback [keeps_steps]:
  "code_keeps kc \<Longrightarrow> keeps w w' \<Longrightarrow> keeps w (fst (Task_call_context (kc_task kc) t context w'))"
  by (erule keeps_trans, rule cal.Task_call_rides) (simp add: code_keepsD)

lemma keeps_run_due [keeps_steps]:
  assumes "code_keeps kc" "keeps w w'"
  shows "keeps w (fst (run_due ts kc c st context w'))"
  using assms unfolding run_due_def Let_def split_def by (auto split: option.split intro!: keeps_steps)

lemma keeps_calendar_task [keeps_steps]:
  assumes "code_keeps kc" "keeps w w'"
  shows "keeps w (fst (calendar_task ts kc c st context w'))"
  using assms unfolding calendar_task_def by (auto intro!: keeps_steps)

lemma keeps_run_callable:
  "code_keeps kc \<Longrightarrow> keeps w (fst (run_calendar_callable ts kc f context w))"
  by (cases f) (auto simp: code_keepsD intro!: keeps_steps)

lemma keeps_process:
  assumes "code_keeps kc" "\<And>h x w. keeps w (fst (hrun h x w))"
  shows "keeps w (snd (process (run_calendar_callable ts kc) hrun now nows m w))"
  by (rule cal.process_rides) (simp_all add: keeps_run_callable assms)

text \<open>A new state gets a fresh reference and a nonzero id that is not in the table.\<close>

lemma keeps_register_state [keeps_steps]:
  assumes "keeps w w'"
  shows "keeps w (snd (register_state c provider callback options w'))"
proof -
  have "fst (next_calendar_id_step n) \<noteq> 0" for n by (rule calendar_ids.fst_gen_nonzero)
  then have "cal_inv (snd (register_state c provider callback options w'))" if "cal_inv w'"
    using that
    by (fastforce simp: cal_inv_def cal_table_ok_def register_state_def next_calendar_id_def emplace_task_def find_task_def
        hold_state_def update_core_def update_state_def Let_def split_def map_of_eq_None_iff
        split: option.split)
  moreover have "ahead w' (snd (register_state c provider callback options w'))"
    by (auto simp: ahead_def register_state_def next_calendar_id_def emplace_task_def find_task_def
        hold_state_def update_core_def update_state_def Let_def split_def split: option.split)
  ultimately show ?thesis
    using assms keeps_trans by (auto simp: keeps_def intro: ahead_trans)
qed

lemma keeps_reject_rule [keeps_steps]:
  "code_keeps kc \<Longrightarrow> keeps w w' \<Longrightarrow> keeps w (snd (reject_rule ts kc c st w'))"
  unfolding reject_rule_def by (auto intro!: keeps_steps)

lemma keeps_add_rule [keeps_steps]:
  assumes "code_keeps kc" "keeps w w'"
  shows "keeps w (snd (add_rule ts kc c provider callback options w'))"
  using assms unfolding add_rule_def Let_def split_def
  by (auto split: option.split sum.split intro!: keeps_steps)

lemma keeps_add [keeps_steps]:
  assumes "code_keeps kc" "keeps w w'"
  shows "keeps w (snd (add_daily_task ts kc c second callback options w'))"
    "keeps w (snd (add_weekly_schedule ts kc c ws callback options w'))"
    "keeps w (snd (add_monthly_schedule ts kc c ms callback options w'))"
    "keeps w (snd (add_custom_calendar_task ts kc c next callback options w'))"
  using assms
  by (auto simp: add_daily_task_def add_weekly_schedule_def add_monthly_schedule_def add_custom_calendar_task_def split_def
      split: option.split intro!: keeps_steps)

end
