(* ===== verification/Calendar_Theorems.thy ===== *)
theory Calendar_Theorems
  imports Calendar_Rules Calendar_Next
begin

text \<open>
  The correctness of the calendar scheduler: which occurrence a rule runs next, that a rule goes on, that a
  cancelled one does not, what exceptions do to it, and how a run is followed by the next one.
\<close>

section \<open>Runs of a program that uses schedulers\<close>

text \<open>
  Any sequence of calls: operations of schedulers, \<^verbatim>\<open>process()\<close> and other operations of the manager, and user
  code by itself. The manager's exception handler is user code too.
\<close>

inductive cal_run ::
  "('clk, 'zone) time_shield \<Rightarrow> ('u, ('u, 'clk, 'z) CAL_scheme) cal_code \<Rightarrow> ('u, 'clk, 'z) CAL_scheme
     \<Rightarrow> ('u, 'clk, 'z) CAL_scheme \<Rightarrow> bool"
  for ts kc where
  run_none: "cal_run ts kc w w"
| run_add: "cal_run ts kc w w' \<Longrightarrow> cal_run ts kc w (snd (add_rule ts kc c provider callback options w'))"
| run_cancel: "cal_run ts kc w w' \<Longrightarrow> cal_run ts kc w (snd (calendar_cancel ts kc c i w'))"
| run_cancel_all: "cal_run ts kc w w' \<Longrightarrow> cal_run ts kc w (snd (calendar_cancel_all ts kc c w'))"
| run_destroy: "cal_run ts kc w w' \<Longrightarrow> cal_run ts kc w (CalendarScheduler_destroy ts kc c w')"
| run_process: "cal_run ts kc w w' \<Longrightarrow> (\<forall>h x w. keeps w (fst (hrun h x w))) \<Longrightarrow>
    cal_run ts kc w (snd (process (run_calendar_callable ts kc) hrun now nows m w'))"
| run_manager: "cal_run ts kc w w' \<Longrightarrow> TM.more w'' = TM.more w' \<Longrightarrow> cal_run ts kc w w''"
| run_user: "cal_run ts kc w w' \<Longrightarrow> cal_run ts kc w (fst (kc_task kc u ctx w'))"

lemma cal_run_keeps: "cal_run ts kc w w' \<Longrightarrow> code_keeps kc \<Longrightarrow> keeps w w'"
proof (induction rule: cal_run.induct)
  case (run_process w w' hrun now_ms nows m)
  have "keeps w' (snd (process (run_calendar_callable ts kc) hrun now_ms nows m w'))"
    by (rule keeps_process) (use run_process in auto)
  with run_process.IH [OF run_process.prems] show ?case by (rule keeps_trans)
next
  case (run_manager w w' w'')
  show ?case by (rule keeps_trans [OF run_manager.IH [OF run_manager.prems] keeps_more [OF run_manager.hyps(2)]])
next
  case (run_user w w' u ctx)
  show ?case by (rule keeps_trans [OF run_user.IH [OF run_user.prems] code_keepsD(1) [OF run_user.prems]])
qed (simp_all add: keeps_steps)

text \<open>
  C32: in every run the tables of all cores are well formed: an id stands there at most once, it is not zero,
  and the state filed under it exists and carries that id.
\<close>

theorem calendar_tables_typed:
  assumes "code_keeps kc" "cal_inv w" "cal_run ts kc w w'"
  shows "distinct (map fst (core_tasks (cal_cores w' c))) \<and>
         (\<forall>(i, st) \<in> set (core_tasks (cal_cores w' c)).
            i \<noteq> 0 \<and> st < cal_next_state w' \<and> st_id (cal_states w' st) = i)"
  using cal_run_keeps [OF assms(3,1)] assms(2) by (simp add: keeps_def cal_inv_def cal_table_ok_def)

section \<open>The next occurrence\<close>

lemma next_time_rule_next: "rule_ok ts p \<Longrightarrow> next_time ts kc p options after now w = (Inr (rule_next ts p options after), w)"
  by (cases p) simp_all

text \<open>
  C26: asked for the next time after an instant, a daily, weekly or monthly rule gives the earliest of its
  occurrences after that instant, over all days there are; it gives none only when there is none within the
  days the search looks at. This holds in named zones too, with gaps and folds.
\<close>

theorem next_occurrence_earliest:
  assumes "days_ok ts" "zone_ok ts options" "weekdays_ok ts" "rule_ok ts p"
  shows "\<exists>r. next_time ts kc p options after now w = (Inr r, w) \<and>
     (case r of
        Some u \<Rightarrow> after < u \<and> (\<exists>n. occurs_on ts p options n u) \<and>
                  (\<forall>n v. occurs_on ts p options n v \<and> after < v \<longrightarrow> u \<le> v)
      | None \<Rightarrow> \<forall>n v. occurs_on ts p options n v \<and> after < v \<longrightarrow>
                       first_day ts options after + int (rule_window p) < n)"
  using next_is_earliest [OF assms(1,2,4,3)] by (simp add: next_time_rule_next [OF assms(4)])

text \<open>
  C31: with a clock of a fixed offset a rule never ends: a daily rule on any valid second, and every weekly or
  monthly schedule that is accepted, has a next time after every instant.
\<close>

theorem rule_never_ends:
  fixes options :: "('u, 'clk) CalendarTaskOptions"
  assumes "days_ok ts" "fixed_offset ts options" "weekdays_ok ts" "month_days_ok ts"
  shows "(valid_second_of_day ts s \<longrightarrow>
            (\<exists>u. next_time ts kc (Daily (normalize_seconds ts [s])) options after now w = (Inr (Some u), w))) \<and>
         (length (seconds_by_weekday ws) = 7 \<and> normalize_weekly ts ws = (True, ws') \<longrightarrow>
            (\<exists>u. next_time ts kc (Weekly ws') options after now w = (Inr (Some u), w))) \<and>
         (length (seconds_by_month_day ms) = 32 \<and> normalize_monthly ts ms = (True, ms') \<longrightarrow>
            (\<exists>u. next_time ts kc (Monthly ms') options after now w = (Inr (Some u), w)))"
proof (intro conjI impI)
  assume "valid_second_of_day ts s"
  then have "normalize_seconds ts [s] \<noteq> []"
    using set_normalize_seconds [of ts "[s]"] by force
  then show "\<exists>u. next_time ts kc (Daily (normalize_seconds ts [s])) options after now w = (Inr (Some u), w)"
    using daily_never_ends [OF assms(1-3) seconds_ok_normalize, of "[s]" after] by simp
next
  assume w: "length (seconds_by_weekday ws) = 7 \<and> normalize_weekly ts ws = (True, ws')"
  then have "rule_ok ts (Weekly ws' :: 'u RuleProvider)" by (elim conjE) (rule rule_ok_weekly)
  moreover have "\<exists>xs \<in> set (seconds_by_weekday ws'). xs \<noteq> []"
    using w by (auto simp: normalize_weekly_def normalize_each_eq)
  ultimately show "\<exists>u. next_time ts kc (Weekly ws') options after now w = (Inr (Some u), w)"
    using weekly_never_ends [OF assms(1-3), of ws' _ after] by auto
next
  assume m: "length (seconds_by_month_day ms) = 32 \<and> normalize_monthly ts ms = (True, ms')"
  then have "rule_ok ts (Monthly ms' :: 'u RuleProvider)" by (elim conjE) (rule rule_ok_monthly)
  moreover have "\<exists>xs \<in> set (tl (seconds_by_month_day ms')). xs \<noteq> []"
    using m by (auto simp: normalize_monthly_def normalize_each_eq)
  ultimately show "\<exists>u. next_time ts kc (Monthly ms') options after now w = (Inr (Some u), w)"
    using monthly_never_ends [OF assms(1-3) _ assms(4), of ms' _ after] by auto
qed

section \<open>A cancelled rule never runs again\<close>

lemma cancelled_silent: "st_cancelled (cal_states w st) \<Longrightarrow> calendar_task ts kc c st ctx w = (w, None)"
proof -
  have "release_core c (release_state st (hold_state st (hold_core c w))) = w"
    by (simp add: release_core_def release_state_def hold_state_def hold_core_def)
  then show "st_cancelled (cal_states w st) \<Longrightarrow> ?thesis"
    by (simp add: calendar_task_def run_due_def rule_gone_def hold_state_def hold_core_def)
qed

lemma stays_cancelled:
  "keeps w w' \<Longrightarrow> st < cal_next_state w \<Longrightarrow> st_cancelled (cal_states w st) \<Longrightarrow> st_cancelled (cal_states w' st)"
  by (simp add: keeps_def ahead_def same_rule_def)

lemma run_silent:
  assumes "cal_run ts kc w w'" "code_keeps kc" "st < cal_next_state w" "st_cancelled (cal_states w st)"
  shows "calendar_task ts kc c st ctx w' = (w', None)"
  using assms cal_run_keeps stays_cancelled by (blast intro: cancelled_silent)

text \<open>A chain of calls that begins in a state where the rule is cancelled.\<close>

lemma chain_cancelled:
  assumes "keeps w1 w2" "keeps w w1" "st < cal_next_state w" "st_cancelled (cal_states w1 st)"
  shows "st_cancelled (cal_states w2 st) \<and> st < cal_next_state w2"
  using assms by (auto simp: keeps_def ahead_def same_rule_def)

lemma cancel_on_core_cancels:
  assumes kc: "code_keeps kc" and st: "find_task c i w = Some st" "st < cal_next_state w"
    and "fst (cancel_on_core ts kc c i w)"
  shows "st_cancelled (cal_states (snd (cancel_on_core ts kc c i w)) st) \<and>
         st < cal_next_state (snd (cancel_on_core ts kc c i w))"
proof -
  define w1 where "w1 = hold_state st (update_state st (\<lambda>s. s\<lparr>st_cancelled := True\<rparr>) w)"
  have "keeps w1 (snd (cancel_on_core ts kc c i w))"
    using assms by (auto simp: cancel_on_core_def Let_def split_def simp flip: w1_def split: if_splits intro!: keeps_steps)
  moreover have "keeps w w1" by (auto simp: w1_def intro!: keeps_steps)
  ultimately show ?thesis
    by (rule chain_cancelled [OF _ _ st(2)]) (simp add: w1_def hold_state_def update_state_def)
qed

lemma fold_cancels:
  "st_cancelled (cal_states (fold (\<lambda>st w. hold_state st (update_state st (\<lambda>s. s\<lparr>st_cancelled := True\<rparr>) w)) sts w) st)
     \<longleftrightarrow> st \<in> set sts \<or> st_cancelled (cal_states w st)"
  by (induction sts arbitrary: w) (auto simp: hold_state_def update_state_def)

lemma cancel_all_on_core_cancels:
  assumes kc: "code_keeps kc" "\<forall>xs. set (kc_bucket_order kc xs) = set xs"
    and st: "(i, st) \<in> set (core_tasks (cal_cores w c))" "st < cal_next_state w"
  shows "st_cancelled (cal_states (snd (cancel_all_on_core ts kc c close_core w)) st) \<and>
         st < cal_next_state (snd (cancel_all_on_core ts kc c close_core w))"
proof -
  define w0 where "w0 = (if close_core then update_core c (\<lambda>k. k\<lparr>core_closed := True\<rparr>) w else w)"
  define sts where "sts = map snd (kc_bucket_order kc (core_tasks (cal_cores w0 c)))"
  define w1 where "w1 = fold (\<lambda>st w. hold_state st (update_state st (\<lambda>s. s\<lparr>st_cancelled := True\<rparr>) w)) sts w0"
  have "core_tasks (cal_cores w0 c) = core_tasks (cal_cores w c)" by (simp add: w0_def update_core_def)
  then have "st \<in> set sts" using kc(2) st(1) by (force simp: sts_def)
  then have "st_cancelled (cal_states w1 st)" by (simp add: w1_def fold_cancels)
  moreover have "keeps w w1" by (auto simp: w1_def w0_def intro!: keeps_steps)
  moreover have "keeps w1 (snd (cancel_all_on_core ts kc c close_core w))"
    using st(1) kc(1) unfolding cancel_all_on_core_def Let_def
    by (auto simp flip: w0_def sts_def w1_def intro!: keeps_steps)
  ultimately show ?thesis using chain_cancelled st(2) by blast
qed

lemma table_entry: "cal_inv w \<Longrightarrow> (i, st) \<in> set (core_tasks (cal_cores w c)) \<Longrightarrow>
    find_task c i w = Some st \<and> st < cal_next_state w \<and> st_id (cal_states w st) = i \<and> i \<noteq> 0"
  by (force simp: cal_inv_def cal_table_ok_def find_task_def)

lemma hold_core_simps [simp]:
  "cal_cores (hold_core c w) = cal_cores w" "cal_next_state (hold_core c' w) = cal_next_state w"
  "find_task c i (hold_core c' w) = find_task c i w" "cal_cores (release_core c w) = cal_cores w"
  "cal_states (hold_core c w) = cal_states w" "cal_states (release_core c w) = cal_states w"
  "cal_next_state (release_core c' w) = cal_next_state w" "find_task c i (release_core c' w) = find_task c i w"
  by (simp_all add: hold_core_def release_core_def find_task_def)

text \<open>
  C27: once a rule has been cancelled, by \<^verbatim>\<open>cancel\<close>, by \<^verbatim>\<open>cancel_all\<close> or by the destruction of its scheduler,
  its task does nothing any more: whatever runs in between, a task of the rule that the manager still calls
  returns at once, runs no callback, emits nothing and queues nothing.
\<close>

theorem cancelled_rule_silent:
  assumes kc: "code_keeps kc" "\<forall>xs. set (kc_bucket_order kc xs) = set xs"
    and w: "cal_inv w" "(i, st) \<in> set (core_tasks (cal_cores w c))"
  shows "(fst (calendar_cancel ts kc c i w) \<and> cal_run ts kc (snd (calendar_cancel ts kc c i w)) w' \<longrightarrow>
            calendar_task ts kc c st ctx w' = (w', None)) \<and>
         (cal_run ts kc (snd (calendar_cancel_all ts kc c w)) w' \<longrightarrow>
            calendar_task ts kc c st ctx w' = (w', None)) \<and>
         (cal_run ts kc (CalendarScheduler_destroy ts kc c w) w' \<longrightarrow>
            calendar_task ts kc c st ctx w' = (w', None))"
proof -
  have st: "find_task c i w = Some st" "st < cal_next_state w" using table_entry [OF w] by auto
  have "calendar_task ts kc c st ctx w' = (w', None)"
    if "fst (calendar_cancel ts kc c i w)" "cal_run ts kc (snd (calendar_cancel ts kc c i w)) w'"
    using cancel_on_core_cancels [OF kc(1), of c i "hold_core c w" st ts] st that
    by (intro run_silent [OF that(2) kc(1)]) (auto simp: calendar_cancel_def)
  moreover have "calendar_task ts kc c st ctx w' = (w', None)"
    if "cal_run ts kc (snd (calendar_cancel_all ts kc c w)) w'"
    using cancel_all_on_core_cancels [OF kc, of i st "hold_core c w" c ts False] st w(2)
    by (intro run_silent [OF that kc(1)]) (auto simp: calendar_cancel_all_def)
  moreover have "calendar_task ts kc c st ctx w' = (w', None)"
    if "cal_run ts kc (CalendarScheduler_destroy ts kc c w) w'"
    using cancel_all_on_core_cancels [OF kc, of i st "hold_core c w" c ts True] st w(2)
    by (intro run_silent [OF that kc(1)]) (auto simp: CalendarScheduler_destroy_def update_core_def)
  ultimately show ?thesis by blast
qed

section \<open>Exceptions\<close>

lemma mark_completed_gone:
  "st_cancelled (cal_states (mark_completed c st w) st) \<and>
   find_task c (st_id (cal_states (mark_completed c st w) st)) (mark_completed c st w) = None"
  by (auto simp: mark_completed_def update_state_def erase_task_def update_core_def find_task_def Let_def
      map_of_eq_None_iff)

lemma release_frames_simps [simp]:
  "cal_states (release_state st w) = cal_states w" "find_task c i (release_state st w) = find_task c i w"
  "cal_next_state (release_state st w) = cal_next_state w" "cal_states (hold_state st w) = cal_states w"
  "cal_next_state (hold_state st w) = cal_next_state w" "rule_gone c s (hold_state st w) = rule_gone c s w"
  "rule_gone c s (hold_core c' w) = rule_gone c s w"
  by (simp_all add: release_state_def hold_state_def find_task_def hold_core_def rule_gone_def)

lemma keeps_st_callback:
  "keeps w w' \<Longrightarrow> st < cal_next_state w \<Longrightarrow> st_callback (cal_states w' st) = st_callback (cal_states w st)"
  by (simp add: keeps_def ahead_def same_rule_def)

text \<open>The state in which the callback is called, and the run from there.\<close>

definition before_run ::
  "('clk, 'zone) time_shield \<Rightarrow> ('u, ('u, 'clk, 'z) CAL_scheme) cal_code \<Rightarrow> nat \<Rightarrow> ('u, 'clk, 'z) CAL_scheme
     \<Rightarrow> ('u, 'clk, 'z) CAL_scheme" where
  "before_run ts kc st w =
     (let planned = st_planned_utc_ms (cal_states w st); task_id = st_scheduled_task_id (cal_states w st);
          run_count = st_run_count (cal_states w st);
          w = update_state st (\<lambda>s. s\<lparr>st_scheduled_task_id := 0\<rparr>) w;
          (now, w) = safe_now_utc_ms ts kc (st_options (cal_states w st)) w
      in emit_info kc st before_callback planned now task_id run_count (emit_info kc st due planned now task_id run_count w))"

lemma run_due_unfold:
  "\<not> rule_gone c st w \<Longrightarrow> run_due ts kc c st ctx w =
     (let planned = st_planned_utc_ms (cal_states w st); task_id = st_scheduled_task_id (cal_states w st);
          run_count = st_run_count (cal_states w st); w1 = before_run ts kc st w
      in case Task_call_context (kc_task kc) (st_callback (cal_states w1 st)) ctx w1 of
           (w, Some x) \<Rightarrow>
             let (now, w) = safe_now_utc_ms ts kc (st_options (cal_states w st)) w
             in (mark_completed c st (emit_info kc st after_callback planned now task_id run_count w), Some x)
         | (w, None) \<Rightarrow> after_callback_returned ts kc c st ctx planned task_id run_count w)"
  by (simp add: run_due_def before_run_def Let_def split_def)

text \<open>
  C29: when a rule's callback throws, the exception leaves the task as it is, the rule is out of the table,
  and it never runs again.
\<close>

theorem callback_exception_completes:
  assumes kc: "code_keeps kc" and st: "st < cal_next_state w" "core_alive c w" "state_alive c st w"
    and live: "\<not> rule_gone c st w"
    and throws: "\<forall>w'. snd (Task_call_context (kc_task kc) (st_callback (cal_states w st)) ctx w') = Some x"
  shows "snd (calendar_task ts kc c st ctx w) = Some x \<and>
         find_task c (st_id (cal_states w st)) (fst (calendar_task ts kc c st ctx w)) = None \<and>
         (cal_run ts kc (fst (calendar_task ts kc c st ctx w)) w' \<longrightarrow>
            calendar_task ts kc c st ctx' w' = (w', None))"
proof -
  let ?r = "calendar_task ts kc c st ctx w" and ?w0 = "hold_state st (hold_core c w)"
  let ?b = "before_run ts kc st ?w0"
  have "keeps w ?b" using kc by (auto simp: before_run_def Let_def split_def intro!: keeps_steps)
  then have "snd (Task_call_context (kc_task kc) (st_callback (cal_states ?b st)) ctx ?b) = Some x"
    by (subst keeps_st_callback [OF _ st(1)]) (use throws in auto)
  then obtain w1 where "run_due ts kc c st ctx ?w0 = (mark_completed c st w1, Some x)"
    using live by (auto simp: run_due_unfold Let_def split_def)
  then have r: "?r = (release_core c (release_state st (mark_completed c st w1)), Some x)"
    using st(2,3) by (simp add: calendar_task_def state_alive_def hold_core_def)
  have k: "keeps w (fst ?r)" using kc by (auto intro!: keeps_steps)
  then have "st_id (cal_states (fst ?r) st) = st_id (cal_states w st)" "st < cal_next_state (fst ?r)"
    using st(1) by (auto simp: keeps_def ahead_def same_rule_def)
  then show ?thesis
    using mark_completed_gone [of c st w1] run_silent [OF _ kc, of ts "fst ?r" w' st c ctx'] by (simp add: r)
qed

lemma emit_quiet: "cto_observer (st_options (cal_states w st)) = None \<Longrightarrow> emit_info kc st event planned now tid n w = w"
  by (simp add: emit_info_def)

text \<open>An observer that only observes: it leaves the state alone, and what it throws is dropped anyway.\<close>

definition observer_passive ::
  "('u, ('u, 'clk, 'z) CAL_scheme) cal_code \<Rightarrow> ('u, 'clk) CalendarTaskOptions \<Rightarrow> bool" where
  "observer_passive kc options \<longleftrightarrow>
     (\<forall>u info w. cto_observer options = Some u \<longrightarrow> fst (kc_observer kc u info w) = w)"

lemma emit_passive:
  "observer_passive kc (st_options (cal_states w st)) \<Longrightarrow> emit_info kc st event planned now tid n w = w"
  by (simp add: emit_info_def observer_passive_def split: option.split)

lemma now_quiet:
  "cto_now_provider options = None \<Longrightarrow> safe_now_utc_ms ts kc options w = clock_utc_time_ms ts (cto_clock options) w"
  by (simp add: safe_now_utc_ms_def now_utc_ms_def clock_utc_time_ms_def)

lemma is_cancelled_updates [simp]:
  "TaskContext_is_cancelled ctx (w\<lparr>cal_states := f\<rparr>) = TaskContext_is_cancelled ctx w"
  "TaskContext_is_cancelled ctx (w\<lparr>cal_reads := n\<rparr>) = TaskContext_is_cancelled ctx w"
  by (cases ctx; simp add: is_cancelled_for_context_def split: option.split)+

text \<open>
  C30: a custom rule that throws after a run is neither completed nor scheduled: the exception leaves the task,
  the rule stays in the table as a live one, and nothing is queued for it.
\<close>

theorem provider_exception_strands_rule:
  assumes "find_task c (st_id (cal_states w st)) w = Some st" "\<not> rule_gone c st w"
    and "st_provider (cal_states w st) = Custom u" "st_callback (cal_states w st) = NoArgModel f"
    and "cto_observer (st_options (cal_states w st)) = None" "cto_now_provider (st_options (cal_states w st)) = None"
    and "\<not> TaskContext_is_cancelled ctx w"
    and "\<forall>w. kc_task kc f None w = (w, None)" "\<forall>after now w. kc_next kc u after now w = (Inl x, w)"
  shows "\<exists>w'. run_due ts kc c st ctx w = (w', Some x) \<and> \<not> rule_gone c st w' \<and>
              st_scheduled_task_id (cal_states w' st) = 0 \<and> TM.truncate w' = TM.truncate w"
proof -
  let ?w1 = "(w\<lparr>cal_states := (cal_states w)(st := (cal_states w st)\<lparr>st_scheduled_task_id := 0\<rparr>), cal_reads := Suc (cal_reads w)\<rparr>)"
  have "before_run ts kc st w = ?w1"
    using assms by (simp add: before_run_def now_quiet emit_quiet clock_utc_time_ms_def update_state_def Let_def)
  then have "run_due ts kc c st ctx w =
      after_callback_returned ts kc c st ctx (st_planned_utc_ms (cal_states w st))
        (st_scheduled_task_id (cal_states w st)) (st_run_count (cal_states w st)) ?w1"
    using assms by (simp add: run_due_unfold Let_def)
  moreover have "\<exists>w'. after_callback_returned ts kc c st ctx planned tid n ?w1 = (w', Some x) \<and> \<not> rule_gone c st w' \<and>
              st_scheduled_task_id (cal_states w' st) = 0 \<and> TM.truncate w' = TM.truncate w" for planned tid n
    using assms
    by (auto simp: after_callback_returned_def schedule_after_run_def now_quiet emit_quiet clock_utc_time_ms_def Let_def
        rule_gone_def is_state_cancelled_def update_state_def find_task_def TM.defs split: option.splits)
  ultimately show ?thesis by simp
qed

section \<open>A run is followed by the next one\<close>

text \<open>The manager's operations do not look at what extends it.\<close>

lemma tm_ops_states:
  "next_id (w\<lparr>cal_states := f\<rparr>) = map_prod id (\<lambda>w. w\<lparr>cal_states := f\<rparr>) (next_id w)" "next_seq (w\<lparr>cal_states := f\<rparr>) = map_prod id (\<lambda>w. w\<lparr>cal_states := f\<rparr>) (next_seq w)"
  "make_control i v p (w\<lparr>cal_states := f\<rparr>) = map_prod id (\<lambda>w. w\<lparr>cal_states := f\<rparr>) (make_control i v p w)"
  "index_emplace i r (w\<lparr>cal_states := f\<rparr>) = (index_emplace i r w)\<lparr>cal_states := f\<rparr>" "push_back_ready e (w\<lparr>cal_states := f\<rparr>) = (push_back_ready e w)\<lparr>cal_states := f\<rparr>"
  "push_delayed e (w\<lparr>cal_states := f\<rparr>) = (push_delayed e w)\<lparr>cal_states := f\<rparr>" "increment_ready_count (w\<lparr>cal_states := f\<rparr>) = (increment_ready_count w)\<lparr>cal_states := f\<rparr>"
  "increment_pending_count (w\<lparr>cal_states := f\<rparr>) = (increment_pending_count w)\<lparr>cal_states := f\<rparr>"
  "notify_work_available (w\<lparr>cal_states := f\<rparr>) = (notify_work_available w)\<lparr>cal_states := f\<rparr>"
  by (simp_all add: next_id_def next_seq_def make_control_def set_control_def index_emplace_def push_back_ready_def
      push_delayed_def increment_ready_count_def increment_pending_count_def notify_work_available_def Let_def split_def
      split: option.split)

lemma add_task_at_states:
  "add_task_at now d task options (w\<lparr>cal_states := f\<rparr>) = map_prod id (\<lambda>w. w\<lparr>cal_states := f\<rparr>) (add_task_at now d task options w)"
  by (simp add: add_task_at_def post_at_def notify_if_accepted_def enqueue_ready_locked_def enqueue_delayed_locked_def
      tm_ops_states Let_def split_def map_prod_def)

lemma tm_ops_reads:
  "next_id (w\<lparr>cal_reads := n\<rparr>) = map_prod id (\<lambda>w. w\<lparr>cal_reads := n\<rparr>) (next_id w)" "next_seq (w\<lparr>cal_reads := n\<rparr>) = map_prod id (\<lambda>w. w\<lparr>cal_reads := n\<rparr>) (next_seq w)"
  "make_control i v p (w\<lparr>cal_reads := n\<rparr>) = map_prod id (\<lambda>w. w\<lparr>cal_reads := n\<rparr>) (make_control i v p w)"
  "index_emplace i r (w\<lparr>cal_reads := n\<rparr>) = (index_emplace i r w)\<lparr>cal_reads := n\<rparr>" "push_back_ready e (w\<lparr>cal_reads := n\<rparr>) = (push_back_ready e w)\<lparr>cal_reads := n\<rparr>"
  "push_delayed e (w\<lparr>cal_reads := n\<rparr>) = (push_delayed e w)\<lparr>cal_reads := n\<rparr>" "increment_ready_count (w\<lparr>cal_reads := n\<rparr>) = (increment_ready_count w)\<lparr>cal_reads := n\<rparr>"
  "increment_pending_count (w\<lparr>cal_reads := n\<rparr>) = (increment_pending_count w)\<lparr>cal_reads := n\<rparr>"
  "notify_work_available (w\<lparr>cal_reads := n\<rparr>) = (notify_work_available w)\<lparr>cal_reads := n\<rparr>"
  by (simp_all add: next_id_def next_seq_def make_control_def set_control_def index_emplace_def push_back_ready_def
      push_delayed_def increment_ready_count_def increment_pending_count_def notify_work_available_def Let_def split_def
      split: option.split)

lemma add_task_at_reads:
  "add_task_at now d task options (w\<lparr>cal_reads := n\<rparr>) = map_prod id (\<lambda>w. w\<lparr>cal_reads := n\<rparr>) (add_task_at now d task options w)"
  by (simp add: add_task_at_def post_at_def notify_if_accepted_def enqueue_ready_locked_def enqueue_delayed_locked_def
      tm_ops_reads Let_def split_def map_prod_def)

lemma add_task_at_nonzero:
  "Task_bool task \<Longrightarrow> \<not> tm_closed w \<Longrightarrow> fst (add_task_at now d task options w) \<noteq> 0"
  using task_ids.fst_gen_nonzero [of "tm_next_id w"]
  by (auto simp: add_task_at_def post_at_def notify_if_accepted_def enqueue_ready_locked_def enqueue_delayed_locked_def
      next_id_def Let_def split_def)

lemma schedule_one_quiet:
  assumes "\<not> rule_gone c st w" "observer_passive kc (st_options (cal_states w st))" "\<not> tm_closed w"
    and add: "add_task_at (cal_steady w (cal_reads w + 1))
      (cal_steady w (cal_reads w) + milliseconds (if immediate \<or> t \<le> now then 0 else t - now))
      (ContextModel (Calendar_run c st)) \<lparr>opt_priority = cto_priority (st_options (cal_states w st))\<rparr> w = (i, w')"
  shows "i \<noteq> 0 \<and> schedule_one kc c st t now immediate w =
     (True, w'\<lparr>cal_states := (cal_states w)(st := (cal_states w st)\<lparr>st_scheduled_task_id := i, st_planned_utc_ms := t\<rparr>),
               cal_reads := cal_reads w + 2\<rparr>)"
proof -
  have i: "i \<noteq> 0" using add_task_at_nonzero [OF _ assms(3), of "ContextModel (Calendar_run c st)"] add by (metis Task_bool_simps(3) fst_conv)
  have "TM.more w' = TM.more w"
    using tm_more_post_at add by (metis add_task_at_def snd_conv)
  note same = cal_more [OF this]
  show ?thesis
    using assms(1,2) add i
    by (simp add: schedule_one_def steady_now_def add_task_at_states add_task_at_reads Let_def rule_gone_def find_task_def
        emit_state_def emit_passive update_state_def same)
qed

text \<open>
  What a run at \<open>now\<close> is followed by, when the occurrence it ran was planned for \<open>previous\<close> and the rule's
  provider, asked for the time after \<open>a\<close> at \<open>n\<close>, answers or throws \<open>nx a n\<close>.
\<close>

definition plan_after ::
  "(int \<Rightarrow> int \<Rightarrow> exn + int option) \<Rightarrow> CalendarOverlapPolicy \<Rightarrow> int \<Rightarrow> int \<Rightarrow> exn + int option" where
  "plan_after nx policy previous now =
     (case nx previous now of
        Inr (Some t) \<Rightarrow> if t \<le> now \<and> policy = Overlap_skip then nx now now else Inr (Some t)
      | r \<Rightarrow> r)"

text \<open>
  A provider whose answer is a function of its arguments: every built-in rule, and a custom one that leaves
  the state alone, whether it answers or throws.
\<close>

definition provider_answers ::
  "('clk, 'zone) time_shield \<Rightarrow> ('u, ('u, 'clk, 'z) CAL_scheme) cal_code \<Rightarrow> ('u, 'clk) CalState
     \<Rightarrow> (int \<Rightarrow> int \<Rightarrow> exn + int option) \<Rightarrow> bool" where
  "provider_answers ts kc s nx \<longleftrightarrow>
     (\<forall>after now w. next_time ts kc (st_provider s) (st_options s) after now w = (nx after now, w))"

lemma rule_next_after: "days_ok ts \<Longrightarrow> rule_ok ts p \<Longrightarrow> rule_next ts p options after = Some u \<Longrightarrow> after < u"
  by (auto simp: rule_next_find find_Some_iff acceptable_def simp del: upt_Suc)

lemma provider_later:
  assumes "provider_answers ts kc s nx" "days_ok ts" "rule_ok ts (st_provider s)" "nx after now = Inr (Some u)"
  shows "after < u"
proof -
  have "Inr (rule_next ts (st_provider s) (st_options s) after) = nx after now"
    using assms(1) next_time_rule_next [OF assms(3), of kc "st_options s" after now undefined]
    by (simp add: provider_answers_def)
  then show ?thesis using rule_next_after [OF assms(2,3)] assms(4) by simp
qed

lemma plan_after_future:
  assumes "plan_after nx Overlap_skip previous now = Inr (Some t)" "\<forall>u. nx now now = Inr (Some u) \<longrightarrow> now < u"
  shows "now < t"
  using assms by (auto simp: plan_after_def split: sum.splits option.splits if_splits)

text \<open>The rule in the state after its callback has returned, and what is planned then.\<close>

definition rule_active :: "nat \<Rightarrow> nat \<Rightarrow> ('u, 'clk, 'z) CAL_scheme \<Rightarrow> bool" where
  "rule_active c st w \<longleftrightarrow> find_task c (st_id (cal_states w st)) w = Some st \<and> \<not> rule_gone c st w"

lemma schedule_after_run_quiet:
  assumes "provider_answers ts kc (cal_states w st) nx" "observer_passive kc (st_options (cal_states w st))"
  shows "schedule_after_run ts kc c st previous now w =
     (case plan_after nx (cto_overlap_policy (st_options (cal_states w st))) previous now of
        Inl x \<Rightarrow> (w, Some x)
      | Inr None \<Rightarrow> (mark_completed c st w, None)
      | Inr (Some t) \<Rightarrow> (case schedule_one kc c st t now (t \<le> now) w of
                    (ok, w) \<Rightarrow> (if ok then w else mark_completed c st w, None)))"
proof -
  have "schedule_one kc c st t now True w = schedule_one kc c st t now (t \<le> now) w" if "t \<le> now" for t
    using that by simp
  then show ?thesis
    using assms
    by (cases "cto_overlap_policy (st_options (cal_states w st))")
      (auto simp: schedule_after_run_def plan_after_def provider_answers_def emit_state_def emit_passive Let_def
        not_le split_def split: option.split sum.split)
qed

lemma reads_states_commute: "w\<lparr>cal_reads := n, cal_states := f\<rparr> = w\<lparr>cal_states := f, cal_reads := n\<rparr>"
  for w :: "('u, 'clk, 'z) CAL_scheme"
  by (cases w) simp

lemma after_callback_quiet:
  assumes "rule_active c st w2" "\<not> TaskContext_is_cancelled ctx w2"
    and "observer_passive kc (st_options (cal_states w2 st))"
    and "safe_now_utc_ms ts kc (st_options (cal_states w2 st)) w2 = (now, w2\<lparr>cal_reads := r\<rparr>)"
  shows "after_callback_returned ts kc c st ctx planned tid n w2 =
     schedule_after_run ts kc c st planned now
       (w2\<lparr>cal_states := (cal_states w2)(st := (cal_states w2 st)\<lparr>st_run_count := st_run_count (cal_states w2 st) + 1\<rparr>),
           cal_reads := r\<rparr>)"
  using assms
  by (simp add: after_callback_returned_def Let_def emit_passive update_state_def
      rule_active_def rule_gone_def is_state_cancelled_def find_task_def reads_states_commute)

text \<open>Scheduling the occurrence \<open>t\<close> in the state in which only the rule's own fields and the clock have moved.\<close>

lemma schedule_planned:
  assumes "rule_active c st w'" "\<not> tm_closed w2"
    and w': "w' = w2\<lparr>cal_states := (cal_states w2)(st := s3), cal_reads := r\<rparr>"
    and options: "st_options s3 = options" "observer_passive kc options"
    and add: "add_task_at (cal_steady w2 (r + 1))
               (cal_steady w2 r + milliseconds (if t \<le> now then 0 else t - now))
               (ContextModel (Calendar_run c st)) \<lparr>opt_priority = cto_priority options\<rparr> w2 = (i, w3)"
  shows "i \<noteq> 0 \<and> schedule_one kc c st t now (t \<le> now) w' =
    (True, w3\<lparr>cal_states := (cal_states w2)(st := s3\<lparr>st_scheduled_task_id := i, st_planned_utc_ms := t\<rparr>),
              cal_reads := r + 2\<rparr>)"
proof -
  have "i \<noteq> 0 \<and> schedule_one kc c st t now (t \<le> now) w' =
    (True, (w3\<lparr>cal_states := cal_states w', cal_reads := cal_reads w'\<rparr>)
       \<lparr>cal_states := (cal_states w')(st := (cal_states w' st)\<lparr>st_scheduled_task_id := i, st_planned_utc_ms := t\<rparr>),
        cal_reads := cal_reads w' + 2\<rparr>)"
  proof (rule schedule_one_quiet)
    show "add_task_at (cal_steady w' (cal_reads w' + 1))
        (cal_steady w' (cal_reads w') + milliseconds (if t \<le> now \<or> t \<le> now then 0 else t - now))
        (ContextModel (Calendar_run c st)) \<lparr>opt_priority = cto_priority (st_options (cal_states w' st))\<rparr> w' =
        (i, w3\<lparr>cal_states := cal_states w', cal_reads := cal_reads w'\<rparr>)"
      using options(1) add by (cases "t \<le> now"; simp add: w' add_task_at_states add_task_at_reads)
  qed (use assms(1,2) options in \<open>simp_all add: rule_active_def w'\<close>)
  then show ?thesis by (simp add: w')
qed

text \<open>
  C28: what follows a run whose callback returns and leaves the rule active. Let \<open>nx\<close> be what the rule's
  provider answers, which holds of every built-in rule and of every custom rule that leaves the state
  alone; let the observer and the now-provider, if there are any, leave the state alone too, and let \<open>now\<close> be the
  time that the now-provider or else the clock gives after the callback. If the provider throws, the exception leaves the
  run and the rule stays active with nothing new in the manager. If there is no next occurrence, the
  rule is completed. Otherwise the rule has exactly one new task in the manager, due when the next
  occurrence is, and remembers it. Its run count is one more. The next occurrence is the one after the
  planned instant, or under the skip policy the one after the present when that one has passed, and then
  it lies in the future: always for a built-in rule, and for a custom rule that answers a later
  time than it is asked for.
\<close>

theorem run_is_followed_by_next:
  assumes live: "\<not> rule_gone c st w"
    and called: "Task_call_context (kc_task kc) (st_callback (cal_states (before_run ts kc st w) st)) ctx
                   (before_run ts kc st w) = (w2, None)"
    and active: "rule_active c st w2" "\<not> TaskContext_is_cancelled ctx w2" "\<not> tm_closed w2"
    and s2: "s2 = cal_states w2 st" "s3 = s2\<lparr>st_run_count := st_run_count s2 + 1\<rparr>"
    and quiet: "provider_answers ts kc s2 nx" "observer_passive kc (st_options s2)"
    and now: "safe_now_utc_ms ts kc (st_options s2) w2 = (now, w2\<lparr>cal_reads := r\<rparr>)"
  shows "case plan_after nx (cto_overlap_policy (st_options s2)) (st_planned_utc_ms (cal_states w st)) now of
     Inl x \<Rightarrow>
       run_due ts kc c st ctx w = (w2\<lparr>cal_states := (cal_states w2)(st := s3), cal_reads := r\<rparr>, Some x) \<and>
       rule_active c st (fst (run_due ts kc c st ctx w))
   | Inr None \<Rightarrow>
       snd (run_due ts kc c st ctx w) = None \<and> rule_gone c st (fst (run_due ts kc c st ctx w)) \<and>
       TM.truncate (fst (run_due ts kc c st ctx w)) = TM.truncate w2
   | Inr (Some t) \<Rightarrow>
       (case add_task_at (cal_steady w2 (r + 1))
               (cal_steady w2 r + milliseconds (if t \<le> now then 0 else t - now))
               (ContextModel (Calendar_run c st)) \<lparr>opt_priority = cto_priority (st_options s2)\<rparr> w2 of
          (i, w3) \<Rightarrow>
            i \<noteq> 0 \<and>
            run_due ts kc c st ctx w =
              (w3\<lparr>cal_states := (cal_states w2)(st := s3\<lparr>st_scheduled_task_id := i, st_planned_utc_ms := t\<rparr>),
                  cal_reads := r + 2\<rparr>, None) \<and>
            (cto_overlap_policy (st_options s2) = Overlap_skip \<and>
              (days_ok ts \<and> rule_ok ts (st_provider s2) \<or> (\<forall>u. nx now now = Inr (Some u) \<longrightarrow> now < u)) \<longrightarrow>
             now < t))"
proof -
  define w' where "w' = w2\<lparr>cal_states := (cal_states w2)(st := s3), cal_reads := r\<rparr>"
  define previous where "previous = st_planned_utc_ms (cal_states w st)"
  let ?plan = "plan_after nx (cto_overlap_policy (st_options s2)) previous now"
  have run: "run_due ts kc c st ctx w = schedule_after_run ts kc c st previous now w'"
    using called after_callback_quiet [OF active(1,2)] quiet(2) now
    by (simp add: run_due_unfold [OF live] Let_def s2 w'_def previous_def)
  have s': "cal_states w' st = s3" "provider_answers ts kc s3 nx" "st_options s3 = st_options s2"
    using quiet(1) by (simp_all add: w'_def s2(2) provider_answers_def)
  have after: "run_due ts kc c st ctx w =
     (case ?plan of
        Inl x \<Rightarrow> (w', Some x)
      | Inr None \<Rightarrow> (mark_completed c st w', None)
      | Inr (Some t) \<Rightarrow> (case schedule_one kc c st t now (t \<le> now) w' of
                    (ok, w) \<Rightarrow> (if ok then w else mark_completed c st w, None)))"
    using schedule_after_run_quiet [of ts kc w' st nx c previous now] s' quiet(2) unfolding run by simp
  have active': "rule_active c st w'"
    using active(1) s2 by (simp add: w'_def rule_active_def rule_gone_def find_task_def)
  consider (throws) x where "?plan = Inl x" | (ends) "?plan = Inr None" | (goes_on) t where "?plan = Inr (Some t)"
    by (cases ?plan) auto
  then show ?thesis
  proof cases
    case (throws x)
    then show ?thesis using active' by (simp add: after previous_def [symmetric]) (simp add: w'_def)
  next
    case ends
    then show ?thesis
      using mark_completed_gone [of c st w']
      by (simp add: after previous_def [symmetric] rule_gone_def)
        (simp add: mark_completed_def w'_def update_state_def erase_task_def update_core_def Let_def TM.defs)
  next
    case (goes_on t)
    obtain i w3 where add: "add_task_at (cal_steady w2 (r + 1))
               (cal_steady w2 r + milliseconds (if t \<le> now then 0 else t - now))
               (ContextModel (Calendar_run c st)) \<lparr>opt_priority = cto_priority (st_options s2)\<rparr> w2 = (i, w3)"
      by fastforce
    note schedule_planned [OF active' active(3) w'_def s'(3) quiet(2) add]
    then have "i \<noteq> 0 \<and> run_due ts kc c st ctx w =
      (w3\<lparr>cal_states := (cal_states w2)(st := s3\<lparr>st_scheduled_task_id := i, st_planned_utc_ms := t\<rparr>),
           cal_reads := r + 2\<rparr>, None)"
      by (simp add: after goes_on)
    moreover have "now < t" if "cto_overlap_policy (st_options s2) = Overlap_skip"
      "days_ok ts \<and> rule_ok ts (st_provider s2) \<or> (\<forall>u. nx now now = Inr (Some u) \<longrightarrow> now < u)"
      using plan_after_future [of nx previous now t] goes_on that provider_later [OF quiet(1)] by auto
    ultimately show ?thesis
      unfolding previous_def [symmetric] goes_on sum.case option.case add prod.case by blast
  qed
qed

end
