(* ===== verification/Calendar_Examples.thy ===== *)
theory Calendar_Examples
  imports Calendar_Theorems
begin

text \<open>
  A scheduler with one daily rule at 09:30, on the concrete calendar of \<open>Calendar_Next\<close>, with a task manager
  that has nothing else to do: the hypotheses of the theorems about the calendar scheduler hold there.
\<close>

definition demo_code :: "(nat, (nat, int) CAL) cal_code" where
  "demo_code = \<lparr> kc_task = (\<lambda>u context w. (w, if u = 9 then Some (User_exn 9) else None)),
     kc_now = (\<lambda>u w. (Inr 0, w)), kc_next = (\<lambda>u after now w. (Inl (User_exn u), w)),
     kc_observer = (\<lambda>u info w. (w, None)), kc_bucket_order = (\<lambda>xs. xs) \<rparr>"

definition demo_rule :: "nat RuleProvider \<Rightarrow> nat \<Rightarrow> (nat, int) CalState" where
  "demo_rule p u = \<lparr> st_id = 1, st_options = default_CalendarTaskOptions demo_shield, st_provider = p,
     st_callback = NoArgModel u, st_scheduled_task_id = 5, st_planned_utc_ms = 34200000, st_run_count = 0,
     st_cancelled = False \<rparr>"

text \<open>The rule has state \<open>0\<close> and id \<open>1\<close> in the core \<open>0\<close>; the clocks show 09:30 of the first day.\<close>

definition demo_world :: "nat RuleProvider \<Rightarrow> nat \<Rightarrow> (nat, int) CAL" where
  "demo_world p u =
     \<lparr> tm_ready = (\<lambda>_. []), tm_heap = [], tm_index = Map.empty, tm_ready_count = 0, tm_pending_count = 0,
       tm_next_id = 6, tm_next_seq = 6, tm_closed = False, tm_notifier = None, tm_handler = None,
       tm_controls = (\<lambda>_. \<lparr> ctl_id = 0, ctl_periodic = False, reschedule_requested = False,
                          reschedule_due = 0, ctl_state = completed \<rparr>),
       tm_next_control = 0, tm_notified = [],
       cal_cores = (\<lambda>_. Core_init)(0 := \<lparr> core_tasks = [(1, 0)], core_next_id = 2, core_closed = False,
                                          core_owned = True \<rparr>),
       cal_states = (\<lambda>_. demo_rule p u), cal_next_state = 1, cal_state_frames = (\<lambda>_. 0), cal_core_frames = (\<lambda>_. 0),
       cal_steady = (\<lambda>n. int n), cal_reads = 34200 \<rparr>"

lemma demo_code_keeps: "code_keeps demo_code"
  by (simp add: code_keeps_def demo_code_def)

lemma demo_inv: "cal_inv (demo_world p u)"
  by (simp add: cal_inv_def cal_table_ok_def demo_world_def demo_rule_def Core_init_def)

lemma demo_next: "daily_next demo_shield [34200] (default_CalendarTaskOptions demo_shield) 34200000 = Some 120600000"
  by (simp add: daily_next_def scan_local_days_def utc_to_local_ms_def local_to_utc_ms_def local_day_start_ms_def
      local_struct_from_ms_def default_CalendarTaskOptions_def demo_shield_def Let_def upt_rec)

lemma demo_rule_ok: "rule_ok demo_shield (Daily [34200] :: nat RuleProvider)"
  by (simp add: seconds_ok_def valid_second_of_day_def demo_shield_def)

theorem next_occurrence_earliest_witness:
  "occurs_on demo_shield (Daily [34200] :: nat RuleProvider) (default_CalendarTaskOptions demo_shield) 5 466200000 \<and>
   (120600000 :: int) \<le> 466200000"
proof -
  have o: "occurs_on demo_shield (Daily [34200] :: nat RuleProvider) (default_CalendarTaskOptions demo_shield) 5 466200000"
    by (simp add: occurs_on_def local_to_utc_ms_def default_CalendarTaskOptions_def) (simp add: demo_shield_def)
  then show ?thesis
    using next_occurrence_earliest [OF demo_days_ok demo_zone_ok demo_weekdays_ok demo_rule_ok,
        of demo_code "default_CalendarTaskOptions demo_shield" 34200000 0 "demo_world (Daily [34200]) 3"]
    by (auto simp: demo_next)
qed

lemma demo_weekly: "normalize_weekly demo_shield (WeeklySchedule_add demo_shield 1 32400 WeeklySchedule_init) =
    (True, \<lparr> seconds_by_weekday = [[], [32400], [], [], [], [], []] \<rparr>)"
  by (simp add: normalize_weekly_def normalize_each_eq normalize_seconds_def WeeklySchedule_add_def WeeklySchedule_init_def
      push_at_def valid_second_of_day_def demo_shield_def numeral_eq_Suc)

lemma demo_monthly: "fst (normalize_monthly demo_shield (MonthlySchedule_add demo_shield 15 43200 MonthlySchedule_init))"
  by (simp add: normalize_monthly_def normalize_each_eq normalize_seconds_def MonthlySchedule_add_def MonthlySchedule_init_def
      push_at_def valid_second_of_day_def demo_shield_def numeral_eq_Suc)

theorem rule_never_ends_witness:
  "(\<exists>u. next_time demo_shield demo_code (Daily (normalize_seconds demo_shield [3600]))
          (default_CalendarTaskOptions demo_shield) 0 0 (demo_world (Custom 7) 3) = (Inr (Some u), demo_world (Custom 7) 3)) \<and>
   (\<exists>u. next_time demo_shield demo_code (Weekly \<lparr> seconds_by_weekday = [[], [32400], [], [], [], [], []] \<rparr>)
          (default_CalendarTaskOptions demo_shield) 0 0 (demo_world (Custom 7) 3) = (Inr (Some u), demo_world (Custom 7) 3)) \<and>
   (\<exists>u. next_time demo_shield demo_code
          (Monthly (snd (normalize_monthly demo_shield (MonthlySchedule_add demo_shield 15 43200 MonthlySchedule_init))))
          (default_CalendarTaskOptions demo_shield) 0 0 (demo_world (Custom 7) 3) = (Inr (Some u), demo_world (Custom 7) 3))"
proof -
  let ?w = "WeeklySchedule_add demo_shield 1 32400 WeeklySchedule_init"
  let ?m = "MonthlySchedule_add demo_shield 15 43200 MonthlySchedule_init"
  have "valid_second_of_day demo_shield 3600" by (simp add: valid_second_of_day_def demo_shield_def)
  moreover have "length (seconds_by_weekday ?w) = 7" "length (seconds_by_month_day ?m) = 32"
    by (simp_all add: WeeklySchedule_add_def WeeklySchedule_init_def MonthlySchedule_add_def MonthlySchedule_init_def push_at_def)
  moreover have "normalize_monthly demo_shield ?m = (True, snd (normalize_monthly demo_shield ?m))"
    using demo_monthly by (simp add: prod_eq_iff)
  ultimately show ?thesis
    using rule_never_ends [OF demo_days_ok demo_fixed_offset demo_weekdays_ok demo_month_days_ok,
        where s = 3600 and kc = demo_code and after = 0 and now = 0 and w = "demo_world (Custom 7) 3" and ws = ?w
          and ws' = "\<lparr> seconds_by_weekday = [[], [32400], [], [], [], [], []] \<rparr>" and ms = ?m
          and ms' = "snd (normalize_monthly demo_shield ?m)" and options = "default_CalendarTaskOptions demo_shield"]
      demo_weekly
    by blast
qed

text \<open>The rule is cancelled while its task 5 is still on its way; the task then does nothing.\<close>

lemma demo_cancel: "fst (calendar_cancel demo_shield demo_code 0 1 (demo_world p u))"
  by (simp add: calendar_cancel_def cancel_on_core_def find_task_def demo_world_def demo_rule_def Let_def split_def hold_core_def)

theorem cancelled_rule_silent_witness:
  "calendar_task demo_shield demo_code 0 0 (Bound_context 5)
     (snd (calendar_cancel demo_shield demo_code 0 1 (demo_world (Custom 7) 3))) =
   (snd (calendar_cancel demo_shield demo_code 0 1 (demo_world (Custom 7) 3)), None) \<and>
   calendar_task demo_shield demo_code 0 0 (Bound_context 5)
     (CalendarScheduler_destroy demo_shield demo_code 0 (demo_world (Custom 7) 3)) =
   (CalendarScheduler_destroy demo_shield demo_code 0 (demo_world (Custom 7) 3), None)"
proof -
  have "\<forall>xs. set (kc_bucket_order demo_code xs) = set xs" by (simp add: demo_code_def)
  moreover have "(1, 0) \<in> set (core_tasks (cal_cores (demo_world (Custom 7) 3) 0))" by (simp add: demo_world_def)
  ultimately show ?thesis
    using cancelled_rule_silent [OF demo_code_keeps _ demo_inv] run_none demo_cancel by blast
qed

theorem calendar_tables_typed_witness:
  "distinct (map fst (core_tasks (cal_cores
     (snd (add_rule demo_shield demo_code 0 (Daily [34200]) (NoArgModel 3) (default_CalendarTaskOptions demo_shield)
             (demo_world (Custom 7) 3))) 0)))"
  using calendar_tables_typed [OF demo_code_keeps demo_inv run_add [OF run_none]] by blast

theorem callback_exception_completes_witness:
  "snd (calendar_task demo_shield demo_code 0 0 (Bound_context 5) (demo_world (Daily [34200]) 9)) = Some (User_exn 9)"
proof -
  let ?w = "demo_world (Daily [34200]) 9"
  have "\<forall>w. snd (Task_call_context (kc_task demo_code) (st_callback (cal_states ?w 0)) (Bound_context 5) w) = Some (User_exn 9)"
    by (simp add: demo_world_def demo_rule_def demo_code_def)
  moreover have "0 < cal_next_state ?w" "core_alive 0 ?w" "state_alive 0 0 ?w" "\<not> rule_gone 0 0 ?w"
    by (simp_all add: demo_world_def core_alive_def state_alive_def rule_gone_def find_task_def demo_rule_def)
  ultimately show ?thesis
    using callback_exception_completes [OF demo_code_keeps] by blast
qed

theorem provider_exception_strands_rule_witness:
  "snd (run_due demo_shield demo_code 0 0 (Bound_context 5) (demo_world (Custom 7) 3)) = Some (User_exn 7)"
proof -
  let ?w = "demo_world (Custom 7) 3"
  have "find_task 0 (st_id (cal_states ?w 0)) ?w = Some 0" "\<not> rule_gone 0 0 ?w" "st_provider (cal_states ?w 0) = Custom 7"
    "st_callback (cal_states ?w 0) = NoArgModel 3" "cto_observer (st_options (cal_states ?w 0)) = None"
    "cto_now_provider (st_options (cal_states ?w 0)) = None" "\<not> TaskContext_is_cancelled (Bound_context 5) ?w"
    by (simp_all add: demo_world_def demo_rule_def find_task_def rule_gone_def default_CalendarTaskOptions_def
        is_cancelled_for_context_def)
  moreover have "\<forall>w. kc_task demo_code 3 None w = (w, None)" "\<forall>after now w. kc_next demo_code 7 after now w = (Inl (User_exn 7), w)"
    by (simp_all add: demo_code_def)
  ultimately have "\<exists>w'. run_due demo_shield demo_code 0 0 (Bound_context 5) ?w = (w', Some (User_exn 7))"
    using provider_exception_strands_rule [where ts = demo_shield and kc = demo_code and w = ?w and c = 0 and st = 0]
    by blast
  then show ?thesis by auto
qed

lemma demo_before_run:
  "before_run demo_shield demo_code 0 (demo_world p u) =
     (demo_world p u)\<lparr>cal_states := (cal_states (demo_world p u))(0 := (demo_rule p u)\<lparr>st_scheduled_task_id := 0\<rparr>),
                      cal_reads := 34201\<rparr>"
  by (simp add: before_run_def demo_world_def demo_rule_def update_state_def safe_now_utc_ms_def now_utc_ms_def
      clock_utc_time_ms_def emit_info_def default_CalendarTaskOptions_def Let_def)

lemma demo_callback: "kc_task demo_code 3 ctx w = (w, None)"
  by (simp add: demo_code_def)

theorem run_is_followed_by_next_witness:
  "st_planned_utc_ms (cal_states (fst (run_due demo_shield demo_code 0 0 (Bound_context 5) (demo_world (Daily [34200]) 3))) 0) =
     120600000"
proof -
  let ?w = "demo_world (Daily [34200]) 3" and ?ctx = "Bound_context 5"
  let ?w2 = "before_run demo_shield demo_code 0 ?w"
  let ?s2 = "cal_states ?w2 0"
  have s2: "?s2 = (demo_rule (Daily [34200]) 3)\<lparr>st_scheduled_task_id := 0\<rparr>" "cal_reads ?w2 = 34201"
    by (simp_all add: demo_before_run)
  have call: "Task_call_context (kc_task demo_code) (st_callback ?s2) ?ctx ?w2 = (?w2, None)"
    using demo_callback by (simp add: s2 demo_rule_def)
  have active: "\<not> rule_gone 0 0 ?w" "rule_active 0 0 ?w2" "\<not> TaskContext_is_cancelled ?ctx ?w2" "\<not> tm_closed ?w2"
    by (simp_all add: rule_active_def rule_gone_def find_task_def demo_before_run)
      (simp_all add: demo_world_def demo_rule_def is_cancelled_for_context_def)
  let ?nx = "\<lambda>(after :: int) (now :: int).
    (Inr (daily_next demo_shield [34200] (default_CalendarTaskOptions demo_shield :: (nat, int) CalendarTaskOptions) after)
      :: exn + int option)"
  have quiet: "provider_answers demo_shield demo_code ?s2 ?nx" "observer_passive demo_code (st_options ?s2)"
    by (simp_all add: s2 demo_rule_def provider_answers_def observer_passive_def default_CalendarTaskOptions_def)
  have now: "safe_now_utc_ms demo_shield demo_code (st_options ?s2) ?w2 = (34201000, ?w2\<lparr>cal_reads := 34202\<rparr>)"
    unfolding s2 by (simp add: safe_now_utc_ms_def now_utc_ms_def clock_utc_time_ms_def s2 demo_rule_def
        default_CalendarTaskOptions_def) (simp add: demo_shield_def)
  have plan: "plan_after ?nx (cto_overlap_policy (st_options ?s2)) (st_planned_utc_ms (cal_states ?w 0)) 34201000 =
      Inr (Some 120600000)"
    unfolding s2 plan_after_def by (simp add: demo_rule_def demo_world_def demo_next)
  from run_is_followed_by_next [OF active(1) call active(2-4) refl refl quiet now] show ?thesis
    unfolding plan sum.case option.case case_prod_beta by simp
qed

end
