(* ===== verification/Task_Live.thy ===== *)
theory Task_Live
  imports Task_Refine Task_Behaviour
begin

text \<open>
  Liveness of the task manager: a \<^verbatim>\<open>process()\<close> call with room for them leaves no due task behind, whatever
  the callbacks do through the manager's operations.
\<close>

section \<open>User code by steps\<close>

lemma by_steps_inv:
  assumes "by_steps act" "tm_inv H S X s"
  shows "tm_inv H S X (act s)"
proof -
  let ?fs = "Frame H Between # map (\<lambda>e. Frame [] (Counting e)) S @ map (\<lambda>e. Frame [] (Calling e)) X"
  let ?g = "\<lparr>sys_tm = s, sys_frames = ?fs, sys_cancel = None\<rparr>"
  have fs: "held ?fs = H" "claimed ?fs = S" "running ?fs = X"
    by (simp_all add: held_def claimed_def running_def comp_def concat_eq_Nil_conv [THEN iffD2]) 
  obtain ls where "tm_run ?g ls (?g\<lparr>sys_tm := act (sys_tm ?g)\<rparr>)"
    using by_stepsE [OF assms(1), of ?g] by auto
  moreover have "sys_inv ?g" using assms(2) fs by (simp add: sys_inv_def)
  ultimately have "sys_inv (?g\<lparr>sys_tm := act (sys_tm ?g)\<rparr>)" by (rule tm_run_inv)
  then show ?thesis using fs by (simp add: sys_inv_def)
qed

lemma by_steps_path:
  assumes "by_steps act"
  shows "ctl_path s (act s)"
proof -
  obtain ls where "tm_run \<lparr>sys_tm = s, sys_frames = [], sys_cancel = None\<rparr> ls
      (\<lparr>sys_tm = s, sys_frames = [], sys_cancel = None\<rparr>\<lparr>sys_tm := act s\<rparr>)"
    using by_stepsE [OF assms, of "\<lparr>sys_tm = s, sys_frames = [], sys_cancel = None\<rparr>"] by auto
  from tm_run_path [OF this] show ?thesis by simp
qed

lemma callback_ok_by_steps: "\<forall>f ctx. by_steps (\<lambda>s. fst (run f ctx s)) \<Longrightarrow> callback_ok run"
  by (auto simp: callback_ok_def intro: by_steps_inv)

lemma handler_ok_by_steps: "\<forall>h x. by_steps (\<lambda>s. fst (hrun h x s)) \<Longrightarrow> handler_ok hrun"
  by (auto simp: handler_ok_def intro: by_steps_inv)

lemma process_loop_path:
  assumes "\<forall>f ctx. by_steps (\<lambda>s. fst (run f ctx s))" "\<forall>h x. by_steps (\<lambda>s. fst (hrun h x s))"
    and "process_loop run hrun nows batch i processed s = (started, r, s')"
  shows "ctl_path s s'"
proof -
  let ?g = "\<lparr>sys_tm = s, sys_frames = [Frame batch Between], sys_cancel = None\<rparr>"
  obtain ls where "tm_run ?g ls (?g\<lparr>sys_tm := s', sys_frames := []\<rparr>)"
    using process_loop_steps [OF assms(1,2), of ?g batch "[]"] assms(3) by simp blast
  from tm_run_path [OF this] show ?thesis by simp
qed

section \<open>The entries of a snapshot\<close>

lemma cancelled_stays:
  "ctl_path s s' \<Longrightarrow> e_control e < tm_next_control s \<Longrightarrow> entry_state s e = cancelled \<Longrightarrow>
     entry_state s' e = cancelled"
  by (simp add: ctl_path_final entry_state_def)

lemma snapshot_entry_ok:
  assumes "tm_inv H S X s" "e \<in> set H"
  shows "e_control e < tm_next_control s" "entry_state s e = ready_snapshot \<or> entry_state s e = cancelled"
proof -
  have "(In_snapshot, e) \<in># located H S X s" using assms(2) by (simp add: located_def)
  then have "entry_ok s (In_snapshot, e)" using placed_inv_entry [OF tm_invD(1) [OF assms(1)]] by blast
  then show "e_control e < tm_next_control s" "entry_state s e = ready_snapshot \<or> entry_state s e = cancelled"
    by (simp_all add: entry_ok_def allowed_def)
qed

lemma restored_entry:
  assumes "tm_inv (rest @ H) S X s" "e \<in> set rest"
  shows "entry_state (restore_unrun rest s) e = queued_ready \<or> entry_state (restore_unrun rest s) e = cancelled"
proof -
  have d: "distinct (map e_control rest)" using located_controls [OF assms(1)] by auto
  have st: "entry_state s e = ready_snapshot \<or> entry_state s e = cancelled"
    using snapshot_entry_ok(2) [OF assms(1)] assms(2) by simp
  have c: "tm_controls (restore_unrun rest s) = marked queued_ready (live_in s ready_snapshot rest) (tm_controls s)"
    using restore_unrun_spec [OF d] by blast
  show ?thesis
  proof (cases "e_control e \<in> e_control ` set (live_in s ready_snapshot rest)")
    case True
    then show ?thesis by (simp add: entry_state_def c marked_def)
  next
    case False
    then have "entry_state s e = cancelled" using st assms(2) by (auto simp: set_live_in)
    then show ?thesis using False by (simp add: entry_state_def c marked_other)
  qed
qed

section \<open>The loop serves every entry\<close>

text \<open>What became of an entry of the snapshot: \<open>r\<close> is the result of the call.\<close>

definition served :: "'f Entry \<Rightarrow> TaskId list \<Rightarrow> exn + nat \<Rightarrow> ('f, 'z) TM_scheme \<Rightarrow> bool" where
  "served e started r s' \<longleftrightarrow>
     e_id e \<in> set started \<or> entry_state s' e = cancelled \<or> (\<exists>x. r = Inl x) \<and> entry_state s' e = queued_ready"

lemma served_mono: "served e started r s' \<Longrightarrow> served e (i # started) r s'"
  by (auto simp: served_def)

lemma process_loop_serves:
  assumes run: "\<forall>f ctx. by_steps (\<lambda>s. fst (run f ctx s))" and hrun: "\<forall>h x. by_steps (\<lambda>s. fst (hrun h x s))"
    and "tm_inv (batch @ H) S X s" "process_loop run hrun nows batch i processed s = (started, r, s')" "e \<in> set batch"
  shows "served e started r s'"
  using assms(3-)
proof (induction batch arbitrary: i processed s started)
  case (Cons a rest)
  obtain ok s1 where start: "start_entry a s = (ok, s1)" by (cases "start_entry a s")
  note inv1 = tm_inv_start_entry [OF Cons.prems(1) [unfolded append_Cons] start]
  show ?case
  proof (cases ok)
    case False
    then have st: "s1 = s" "entry_state s a \<noteq> ready_snapshot"
      using start by (auto simp: start_entry_def transition_entry split: if_splits)
    have loop: "process_loop run hrun nows rest (Suc i) processed s1 = (started, r, s')"
      using Cons.prems(2) start False by simp
    have "entry_state s' a = cancelled"
      using cancelled_stays [OF process_loop_path [OF run hrun loop]] snapshot_entry_ok [OF Cons.prems(1), of a] st
      by simp
    then show ?thesis using Cons.IH [OF _ loop] inv1 False Cons.prems(3) by (auto simp: served_def)
  next
    case True
    then have "tm_inv (rest @ H) S (a # X) (uncount_started a s1)" using inv1 by (simp add: tm_inv_uncount_started)
    note called = tm_inv_task_call [OF callback_ok_by_steps [OF run] this, of "e_task a" "make_context (e_id a)"]
    obtain s2 x where call: "Task_call_context run (e_task a) (make_context (e_id a)) (uncount_started a s1) = (s2, x)"
      by (cases "Task_call_context run (e_task a) (make_context (e_id a)) (uncount_started a s1)")
    have goes_on: "served e started r s'"
      if "tm_inv (rest @ H) S X t" "process_loop run hrun nows rest (Suc i) (Suc processed) t = (st, r, s')"
        "started = e_id a # st" for t st
      using Cons.IH [OF that(1,2)] Cons.prems(3) that(3) by (auto simp: served_def)
    show ?thesis
    proof (cases x)
      case None
      obtain st where "process_loop run hrun nows rest (Suc i) (Suc processed)
          (finish_after_success (fst (nows i)) (snd (nows i)) a s2) = (st, r, s')" "started = e_id a # st"
        using Cons.prems(2) start True call None by (auto split: prod.splits)
      moreover have "tm_inv (rest @ H) S X (finish_after_success (fst (nows i)) (snd (nows i)) a s2)"
        using called call by (simp add: tm_inv_finish_after_success)
      ultimately show ?thesis using goes_on by blast
    next
      case (Some y)
      have inv2: "tm_inv (rest @ H) S X (finish_after_exception a s2)"
        using called call by (simp add: tm_inv_finish_after_exception)
      obtain b s3 where b: "report_exception hrun y (finish_after_exception a s2) = (b, s3)"
        by (cases "report_exception hrun y (finish_after_exception a s2)")
      have s3: "tm_inv (rest @ H) S X s3"
        using tm_inv_report_exception [OF handler_ok_by_steps [OF hrun] inv2, of y] b by simp
      show ?thesis
      proof (cases "b = Inr True")
        case True
        then obtain st where "process_loop run hrun nows rest (Suc i) (Suc processed) s3 = (st, r, s')"
            "started = e_id a # st"
          using Cons.prems(2) start \<open>ok\<close> call Some b by (auto split: prod.splits)
        then show ?thesis using goes_on s3 by blast
      next
        case False
        then have "started = [e_id a] \<and> (\<exists>z. r = Inl z) \<and> s' = restore_unrun rest s3"
          using Cons.prems(2) start \<open>ok\<close> call Some b by (auto split: prod.splits sum.splits bool.splits)
        then show ?thesis using restored_entry [OF s3] Cons.prems(3) by (auto simp: served_def)
      qed
    qed
  qed
qed simp

section \<open>A call with room serves every due task\<close>

lemma length_of_priorities:
  "length (of_priority 0 es) + length (of_priority 1 es) + length (of_priority 2 es) = length es"
proof (induction es)
  case (Cons e es)
  then show ?case using priority_index_cases [of "e_priority e"] by auto
qed simp

lemma snapshot_has_all:
  assumes inv: "tm_inv H S X s" and take: "take_snapshot now n s = (batch, t)"
    and room: "length (live_in s queued_ready (ready_list s)) + size (filter_mset (\<lambda>e. e_due e \<le> now) (live_delayed s)) \<le> n"
    and e: "e \<in> set (live_in s queued_ready (ready_list s)) \<or> e \<in># live_delayed s \<and> e_due e \<le> now"
  shows "e \<in> set batch"
proof -
  define line where "line due = concat (map (\<lambda>q. live_in s queued_ready (tm_ready s q) @ of_priority q due) [0, 1, 2])" for due
  obtain due where due: "mset due = filter_mset (\<lambda>e. e_due e \<le> now) (live_delayed s)" and batch: "batch = take n (line due)"
    using snapshot_spec [OF inv take] unfolding line_def Let_def by blast
  have mem: "x \<in> set (line due) \<longleftrightarrow> x \<in> set (live_in s queued_ready (ready_list s)) \<or> x \<in> set due" for x
    using priority_index_cases [of "e_priority x"] by (auto simp: line_def ready_list_def of_priority_def)
  have "length (line due) = length (live_in s queued_ready (ready_list s)) + length due"
    using length_of_priorities [of due] by (simp add: line_def ready_list_def)
  moreover have "length due = size (filter_mset (\<lambda>e. e_due e \<le> now) (live_delayed s))"
    using due by (metis size_mset)
  ultimately have "batch = line due" using batch room by simp
  moreover have "e \<in> set due" if "e \<in># live_delayed s" "e_due e \<le> now"
  proof -
    have "e \<in># mset due" unfolding due using that by simp
    then show ?thesis by simp
  qed
  ultimately show ?thesis using e mem by blast
qed

text \<open>
  C8: no due task starves. When \<^verbatim>\<open>process()\<close> may run at least as many tasks as are ready or due at its
  entry, then whatever the callbacks do through the operations of the manager, each of those tasks is
  started by this call, or it was cancelled, or an unhandled exception left the call early and the task is
  queued as ready again.
\<close>

theorem due_tasks_served:
  assumes "\<forall>f ctx. by_steps (\<lambda>s. fst (run f ctx s))" "\<forall>h x. by_steps (\<lambda>s. fst (hrun h x s))"
    and "tm_inv H S X s" "process_traced run hrun now nows n s = (started, r, s')"
    and "length (live_in s queued_ready (ready_list s)) + size (filter_mset (\<lambda>e. e_due e \<le> now) (live_delayed s)) \<le> n"
    and "e \<in> set (live_in s queued_ready (ready_list s)) \<or> e \<in># live_delayed s \<and> e_due e \<le> now"
  shows "e_id e \<in> set started \<or> entry_state s' e = cancelled \<or> (\<exists>x. r = Inl x) \<and> entry_state s' e = queued_ready"
proof -
  obtain batch t where snap: "take_snapshot now n s = (batch, t)" by fastforce
  have e: "e \<in> set batch" by (rule snapshot_has_all [OF assms(3) snap assms(5,6)])
  then have "n \<noteq> 0" using take_snapshot_length [of now n s] snap by (cases batch) auto
  then have "process_loop run hrun nows batch 0 0 t = (started, r, s')"
    using assms(4) snap by (simp add: process_traced_def)
  from process_loop_serves [OF assms(1,2) tm_inv_take_snapshot [OF assms(3) snap] this e]
  show ?thesis by (simp add: served_def)
qed

text \<open>Both tasks of \<open>two_tasks\<close> are ready; the first one is started by a call with room for two.\<close>

theorem due_tasks_served_witness:
  "case process_traced (\<lambda>f ctx s. (s, None)) (\<lambda>h x s. (s, None)) 0 (\<lambda>_. (0, 0)) 2 two_tasks of
     (started, r, s') \<Rightarrow> served (hd (ready_list two_tasks)) started r s'"
  (is "case ?p of (started, r, s') \<Rightarrow> _")
proof -
  have ready: "live_in two_tasks queued_ready (ready_list two_tasks) = ready_list two_tasks" "length (ready_list two_tasks) = 2"
    "live_delayed two_tasks = {#}"
    by (simp_all add: two_tasks_eq ready_list_def live_in_def in_state_def entry_state_def live_delayed_def)
  obtain started r s' where p: "?p = (started, r, s')" by (metis prod_cases3)
  have "hd (ready_list two_tasks) \<in> set (ready_list two_tasks)" using ready(2) by (intro hd_in_set) auto
  then have "served (hd (ready_list two_tasks)) started r s'"
    unfolding served_def
    by (intro due_tasks_served [OF _ _ two_tasks_inv p]) (simp_all add: by_steps_id ready)
  then show ?thesis by (simp add: p)
qed

end
