(* ===== verification/Task_Drain.thy ===== *)
theory Task_Drain
  imports Task_Live Task_Frame
begin

text \<open>
  Managers of one-shot tasks whose callables neither throw nor use the manager: what a \<^verbatim>\<open>process()\<close> call does to
  them exactly, and how a loop of calls empties them.
\<close>

section \<open>One-shot tasks and callables that leave the manager alone\<close>

text \<open>
  A callable may notify and change the state that extends the manager; \<open>g f\<close> is what \<open>f\<close> does to the part
  \<open>obs\<close> of that state.
\<close>

definition leaves_manager ::
  "('f, ('f, 'z) TM_scheme) runner \<Rightarrow> ('z \<Rightarrow> 'o) \<Rightarrow> ('f \<Rightarrow> 'o \<Rightarrow> 'o) \<Rightarrow> bool"
where
  "leaves_manager run obs g \<longleftrightarrow> (\<forall>f ctx s. \<exists>z ns. run f ctx s = (TM.more_update (\<lambda>_. z) (s\<lparr>tm_notified := ns\<rparr>), None) \<and>
     obs z = g f (obs (TM.more s)))"

fun task_effect :: "('f \<Rightarrow> 'o \<Rightarrow> 'o) \<Rightarrow> 'f Task \<Rightarrow> 'o \<Rightarrow> 'o" where
  "task_effect g Empty_task = id"
| "task_effect g (NoArgModel f) = g f"
| "task_effect g (ContextModel f) = g f"

text \<open>The live entries, queued or delayed.\<close>

definition live :: "('f, 'z) TM_scheme \<Rightarrow> 'f Entry multiset" where
  "live s = mset (live_in s queued_ready (ready_list s)) + live_delayed s"

definition one_shot :: "('f, 'z) TM_scheme \<Rightarrow> bool" where
  "one_shot s \<longleftrightarrow> tm_inv [] [] [] s \<and> (\<forall>e \<in># live s. \<not> e_periodic e) \<and>
     (\<forall>r. \<not> reschedule_requested (tm_controls s r))"

lemma one_shot_init: "one_shot (TaskManager_init n)"
  using tm_inv_init [of n]
  by (simp add: one_shot_def live_def live_in_def live_delayed_def ready_list_def TaskManager_init_def)

text \<open>The pending count of such a manager is the number of its live entries.\<close>

lemma sum_mset_filter: "(\<Sum>x\<in>#M. if P x then 1 else 0 :: 'a::semiring_1) = of_nat (size (filter_mset P M))"
  by (induction M) simp_all

lemma one_shot_pending:
  assumes "one_shot s"
  shows "pending_count s = of_nat (size (live s))"
proof -
  let ?w = "\<lambda>e. if entry_state s e \<noteq> cancelled then 1 else 0 :: u64"
  have inv: "tm_inv [] [] [] s" using assms by (simp add: one_shot_def)
  note st = located_states [OF inv]
  have "tm_pending_count s = (\<Sum>x \<in># located [] [] [] s. placed_pending s x)"
    using tm_invD(1) [OF inv] by (simp add: placed_inv_def)
  also have "\<dots> = (\<Sum>e \<in># mset (ready_list s). ?w e) + (\<Sum>e \<in># mset (tm_heap s). ?w e)"
    by (simp add: located_def ready_mset_def ready_list_def image_mset.compositionality comp_def pending_weight_def)
  also have "\<dots> = of_nat (size (filter_mset (\<lambda>e. entry_state s e \<noteq> cancelled) (mset (ready_list s)))
      + size (filter_mset (\<lambda>e. entry_state s e \<noteq> cancelled) (mset (tm_heap s))))"
    by (simp only: sum_mset_filter of_nat_add)
  also have "filter_mset (\<lambda>e. entry_state s e \<noteq> cancelled) (mset (ready_list s)) = mset (live_in s queued_ready (ready_list s))"
    unfolding live_in_def mset_filter by (rule filter_mset_cong0) (use st(1) in \<open>auto simp: in_state_def\<close>)
  also have "filter_mset (\<lambda>e. entry_state s e \<noteq> cancelled) (mset (tm_heap s)) = live_delayed s"
    unfolding live_delayed_def by (rule filter_mset_cong0) (use st(2) in \<open>auto simp: in_state_def\<close>)
  finally show ?thesis by (simp add: pending_count_def live_def)
qed

section \<open>One callback\<close>

definition ran_once :: "'z \<Rightarrow> nat list \<Rightarrow> 'f Entry \<Rightarrow> ('f, 'z) TM_scheme \<Rightarrow> ('f, 'z) TM_scheme" where
  "ran_once z ns e s =
     index_erase (e_id e)
       (set_state (e_control e) completed (TM.more_update (\<lambda>_. z) ((decrement_pending_count s)\<lparr>tm_notified := ns\<rparr>)))"

lemma ran_once_fields [simp]:
  "tm_ready (ran_once z ns e s) = tm_ready s" "tm_heap (ran_once z ns e s) = tm_heap s"
  "tm_controls (ran_once z ns e s) = (tm_controls s)(e_control e := (tm_controls s (e_control e))\<lparr>ctl_state := completed\<rparr>)"
  "TM.more (ran_once z ns e s) = z"
  "tm_next_id (ran_once z ns e s) = tm_next_id s" "tm_closed (ran_once z ns e s) = tm_closed s"
  by (simp_all add: ran_once_def index_erase_def set_state_def set_control_def decrement_pending_count_def)

lemma called_once:
  assumes "leaves_manager run obs g" "Task_bool t"
  obtains z ns where "Task_call_context run t ctx s = (TM.more_update (\<lambda>_. z) (s\<lparr>tm_notified := ns\<rparr>), None)"
    "obs z = task_effect g t (obs (TM.more s))"
  using assms by (cases t) (simp_all add: leaves_manager_def, blast+)

lemma set_state_commute:
  "set_state r v (TM.more_update f s) = TM.more_update f (set_state r v s)"
  "set_state r v (s\<lparr>tm_notified := ns\<rparr>) = (set_state r v s)\<lparr>tm_notified := ns\<rparr>"
  "set_state r v (decrement_pending_count s) = decrement_pending_count (set_state r v s)"
  "set_state r v (set_state r w s) = set_state r v s"
  by (simp_all add: set_state_def set_control_def decrement_pending_count_def)

lemma clear_reschedule_none: "\<not> reschedule_requested (tm_controls s r) \<Longrightarrow> clear_reschedule r s = s"
proof -
  assume no: "\<not> reschedule_requested (tm_controls s r)"
  then have "(tm_controls s r)\<lparr>reschedule_requested := False\<rparr> = tm_controls s r" by (cases "tm_controls s r") simp
  then show ?thesis by (simp add: clear_reschedule_def set_control_def)
qed

lemma finish_one_shot:
  assumes "entry_state s e = executing" "\<not> e_periodic e" "\<not> reschedule_requested (tm_controls s (e_control e))"
  shows "finish_after_success n1 n2 e s = index_erase (e_id e) (set_state (e_control e) completed s)"
proof -
  have "clear_reschedule (e_control e) (set_state (e_control e) completed s) = set_state (e_control e) completed s"
    by (rule clear_reschedule_none) (simp add: assms(3) set_state_def set_control_def)
  moreover have "transition (e_control e) executing completed s = (True, set_state (e_control e) completed s)"
    using assms(1) by (simp add: transition_def entry_state_def)
  ultimately show ?thesis using assms by (simp add: finish_after_success_def control_of_def)
qed

lemma process_loop_one:
  assumes run: "leaves_manager run obs g" and e: "entry_state s e = ready_snapshot" "\<not> e_periodic e" "Task_bool (e_task e)"
    and no: "\<not> reschedule_requested (tm_controls s (e_control e))"
  obtains z ns where "obs z = task_effect g (e_task e) (obs (TM.more s))"
    "\<And>hrun. process_loop run hrun nows (e # rest) i k s =
      (case process_loop run hrun nows rest (Suc i) (Suc k) (ran_once z ns e s) of
         (started, r, s') \<Rightarrow> (e_id e # started, r, s'))"
proof -
  let ?s1 = "set_state (e_control e) executing s"
  obtain z ns where z: "Task_call_context run (e_task e) (make_context (e_id e)) (decrement_pending_count ?s1) =
      (TM.more_update (\<lambda>_. z) ((decrement_pending_count ?s1)\<lparr>tm_notified := ns\<rparr>), None)"
    "obs z = task_effect g (e_task e) (obs (TM.more (decrement_pending_count ?s1)))"
    by (rule called_once [OF run e(3)])
  let ?s2 = "TM.more_update (\<lambda>_. z) ((decrement_pending_count ?s1)\<lparr>tm_notified := ns\<rparr>)"
  have "start_entry e s = (True, ?s1)" using e(1) by (simp add: start_entry_def transition_def entry_state_def)
  moreover have "finish_after_success n1 n2 e ?s2 = ran_once z ns e s" for n1 n2
    by (subst finish_one_shot) (use e(2) no in \<open>simp_all add: ran_once_def set_state_commute\<close>,
        simp_all add: entry_state_def set_state_def set_control_def decrement_pending_count_def)
  ultimately have "process_loop run hrun nows (e # rest) i k s =
      (case process_loop run hrun nows rest (Suc i) (Suc k) (ran_once z ns e s) of
         (started, r, s') \<Rightarrow> (e_id e # started, r, s'))" for hrun
    using e(2) z(1) by (simp add: uncount_started_def)
  moreover have "TM.more (decrement_pending_count ?s1) = TM.more s"
    by (simp add: set_state_def set_control_def decrement_pending_count_def)
  ultimately show thesis using that z(2) by simp
qed

section \<open>A whole call\<close>

lemma marked_Cons_completed:
  "e_control e \<notin> e_control ` set es \<Longrightarrow>
     marked v es (c(e_control e := (c (e_control e))\<lparr>ctl_state := v\<rparr>)) = marked v (e # es) c"
  by (auto simp: marked_def fun_eq_iff)

lemma process_loop_all:
  assumes run: "leaves_manager run obs g"
  shows "distinct (map e_control batch) \<Longrightarrow> \<forall>e \<in> set batch. entry_state s e = ready_snapshot \<and> \<not> e_periodic e \<and> Task_bool (e_task e) \<Longrightarrow>
    \<forall>r. \<not> reschedule_requested (tm_controls s r) \<Longrightarrow>
    \<exists>s'. (\<forall>hrun. process_loop run hrun nows batch i k s = (map e_id batch, Inr (k + length batch), s')) \<and>
      tm_ready s' = tm_ready s \<and> tm_heap s' = tm_heap s \<and> tm_controls s' = marked completed batch (tm_controls s) \<and>
      obs (TM.more s') = fold (\<lambda>e. task_effect g (e_task e)) batch (obs (TM.more s)) \<and>
      tm_next_id s' = tm_next_id s \<and> tm_closed s' = tm_closed s"
proof (induction batch arbitrary: s i k)
  case (Cons e rest)
  have e: "entry_state s e = ready_snapshot" "\<not> e_periodic e" "Task_bool (e_task e)"
    "\<not> reschedule_requested (tm_controls s (e_control e))" using Cons.prems(2,3) by simp_all
  obtain z ns where z: "obs z = task_effect g (e_task e) (obs (TM.more s))"
    and one: "\<And>hrun. process_loop run hrun nows (e # rest) i k s =
      (case process_loop run hrun nows rest (Suc i) (Suc k) (ran_once z ns e s) of
         (started, r, s') \<Rightarrow> (e_id e # started, r, s'))"
    by (rule process_loop_one [OF run e, of nows rest i k]) blast
  let ?s = "ran_once z ns e s"
  have apart: "e_control e \<notin> e_control ` set rest" "distinct (map e_control rest)" using Cons.prems(1) by auto
  have "\<forall>a \<in> set rest. entry_state ?s a = ready_snapshot \<and> \<not> e_periodic a \<and> Task_bool (e_task a)"
    using Cons.prems(2) apart(1) by (auto simp: entry_state_def rev_image_eqI)
  moreover have "\<forall>r. \<not> reschedule_requested (tm_controls ?s r)" using Cons.prems(3) by simp
  ultimately obtain s' where s': "\<forall>hrun. process_loop run hrun nows rest (Suc i) (Suc k) ?s = (map e_id rest, Inr (Suc k + length rest), s')"
    "tm_ready s' = tm_ready ?s" "tm_heap s' = tm_heap ?s" "tm_controls s' = marked completed rest (tm_controls ?s)"
    "obs (TM.more s') = fold (\<lambda>e. task_effect g (e_task e)) rest (obs (TM.more ?s))"
    "tm_next_id s' = tm_next_id ?s" "tm_closed s' = tm_closed ?s"
    using Cons.IH [OF apart(2), of ?s "Suc i" "Suc k"] by blast
  show ?case
    using s' by (intro exI [of _ s'])
      (simp add: one z marked_Cons_completed [OF apart(1), of completed "tm_controls s"] del: process_loop.simps)
qed simp

lemma leaves_manager_ok: "leaves_manager run obs g \<Longrightarrow> callback_ok run"
proof -
  assume run: "leaves_manager run obs g"
  have "tm_inv H S X (fst (run f ctx s))" if "tm_inv H S X s" for H S X f ctx s
  proof -
    obtain z ns where "run f ctx s = (TM.more_update (\<lambda>_. z) (s\<lparr>tm_notified := ns\<rparr>), None)"
      using run [unfolded leaves_manager_def, rule_format, of f ctx s] by blast
    then show ?thesis using tm_inv_frame [OF that, of "fst (run f ctx s)"] by (simp add: same_queues_def)
  qed
  then show ?thesis by (simp add: callback_ok_def)
qed

text \<open>Snapshotting marks states only.\<close>

lemma snapshot_controls:
  assumes inv: "tm_inv [] [] [] s" and take: "take_snapshot now n s = (batch, t)"
  shows "reschedule_requested (tm_controls t r) = reschedule_requested (tm_controls s r)"
    "tm_controls t = marked ready_snapshot batch (tm_controls (promote_due_locked now s))"
proof -
  have d: "distinct (map e_control (ready_list (promote_due_locked now s)))"
    using located_controls [OF tm_inv_promote_due [OF inv]] by simp
  have take': "take_ready_batch_locked n (promote_due_locked now s) = (batch, t)" using take by (simp add: take_snapshot_def)
  obtain es where "mset es = filter_mset (\<lambda>e. e_due e \<le> now) (live_delayed s)"
    and es: "tm_controls (promote_due_locked now s) = marked queued_ready es (tm_controls s)"
    using promote_due_spec [OF inv, of now] by blast
  show t: "tm_controls t = marked ready_snapshot batch (tm_controls (promote_due_locked now s))"
    using take_ready_batch_spec [OF d take'] by blast
  show "reschedule_requested (tm_controls t r) = reschedule_requested (tm_controls s r)"
    by (simp add: t es marked_def)
qed

text \<open>The ready queues and due tasks in the order in which the snapshot takes them.\<close>

definition in_line :: "('f, 'z) TM_scheme \<Rightarrow> 'f Entry list \<Rightarrow> 'f Entry list" where
  "in_line s due = concat (map (\<lambda>q. live_in s queued_ready (tm_ready s q) @ of_priority q due) [0, 1, 2])"

lemma mset_of_priorities:
  "mset (of_priority 0 es) + mset (of_priority 1 es) + mset (of_priority 2 es) = mset es"
proof (induction es)
  case (Cons e es)
  then show ?case using priority_index_cases [of "e_priority e"] by (auto simp flip: Cons.IH)
qed simp

lemma mset_in_line: "mset (in_line s due) = mset (live_in s queued_ready (ready_list s)) + mset due"
  using mset_of_priorities [of due] by (simp add: in_line_def ready_list_def ac_simps flip: mset_of_priorities [of due])

lemma split_due: "filter_mset (\<lambda>e. e_due e \<le> now) M + filter_mset (\<lambda>e. now < e_due e) M = M"
  using multiset_partition [of M "\<lambda>e. e_due e \<le> now"] by (simp add: not_le)

lemma one_shot_snapshot:
  assumes os: "one_shot s" and take: "take_snapshot now n s = (batch, t)"
  obtains due where "mset due = filter_mset (\<lambda>e. e_due e \<le> now) (live_delayed s)" "sorted_wrt not_after due"
    "batch = take n (in_line s due)" "live_in t queued_ready (ready_list t) = drop n (in_line s due)"
    "live_delayed t = filter_mset (\<lambda>e. now < e_due e) (live_delayed s)" "mset batch + live t = live s"
    "\<forall>e \<in> set batch. entry_state t e = ready_snapshot \<and> \<not> e_periodic e \<and> Task_bool (e_task e)"
proof -
  have inv: "tm_inv [] [] [] s" using os by (simp add: one_shot_def)
  obtain due where due: "mset due = filter_mset (\<lambda>e. e_due e \<le> now) (live_delayed s)" "sorted_wrt not_after due"
    "batch = take n (in_line s due)" "live_in t queued_ready (ready_list t) = drop n (in_line s due)"
    "live_delayed t = filter_mset (\<lambda>e. now < e_due e) (live_delayed s)"
    using snapshot_spec [OF inv take] unfolding in_line_def Let_def by blast
  have "mset batch + mset (live_in t queued_ready (ready_list t)) = mset (in_line s due)"
    unfolding due(3,4) by (metis append_take_drop_id mset_append)
  then have "mset batch + live t = mset (live_in s queued_ready (ready_list s)) + mset due + live_delayed t"
    by (simp add: live_def mset_in_line flip: add.assoc)
  then have all: "mset batch + live t = live s"
    unfolding due(1,5) by (simp add: live_def split_due add.assoc)
  moreover have "entry_state t e = ready_snapshot \<and> \<not> e_periodic e \<and> Task_bool (e_task e)" if e: "e \<in> set batch" for e
  proof -
    have "e \<in># mset batch + live t" using e by simp
    then have "\<not> e_periodic e" using os unfolding all by (simp add: one_shot_def)
    moreover have "(In_snapshot, e) \<in># located (batch @ []) [] [] t" using e by (simp add: located_def)
    then have "entry_ok t (In_snapshot, e)" by (rule placed_inv_entry [OF tm_invD(1) [OF tm_inv_take_snapshot [OF inv take]]])
    moreover have "entry_state t e = ready_snapshot"
      using e by (simp add: entry_state_def snapshot_controls(2) [OF inv take] marked_def)
    ultimately show ?thesis by (simp add: entry_ok_def)
  qed
  ultimately show thesis using that due by blast
qed

lemma one_shot_process:
  assumes run: "leaves_manager run obs g" and os: "one_shot s" and "n \<noteq> 0"
    and call: "process_traced run hrun now nows n s = (started, r, s')"
  obtains batch due where "mset due = filter_mset (\<lambda>e. e_due e \<le> now) (live_delayed s)"
    "batch = take n (in_line s due)" "live_in s' queued_ready (ready_list s') = drop n (in_line s due)"
    "live_delayed s' = filter_mset (\<lambda>e. now < e_due e) (live_delayed s)" "mset batch + live s' = live s"
    "started = map e_id batch" "r = Inr (length batch)" "one_shot s'"
    "obs (TM.more s') = fold (\<lambda>e. task_effect g (e_task e)) batch (obs (TM.more s))"
proof -
  have inv: "tm_inv [] [] [] s" and no: "\<forall>r. \<not> reschedule_requested (tm_controls s r)"
    using os by (simp_all add: one_shot_def)
  obtain batch t where take: "take_snapshot now n s = (batch, t)" by fastforce
  obtain due where due: "mset due = filter_mset (\<lambda>e. e_due e \<le> now) (live_delayed s)" "batch = take n (in_line s due)"
    "live_in t queued_ready (ready_list t) = drop n (in_line s due)"
    "live_delayed t = filter_mset (\<lambda>e. now < e_due e) (live_delayed s)" "mset batch + live t = live s"
    "\<forall>e \<in> set batch. entry_state t e = ready_snapshot \<and> \<not> e_periodic e \<and> Task_bool (e_task e)"
    using one_shot_snapshot [OF os take] by blast
  have invt: "tm_inv (batch @ []) [] [] t" by (rule tm_inv_take_snapshot [OF inv take])
  have d: "distinct (map e_control batch)" "e_control ` set batch \<inter> e_control ` set (ready_list t @ tm_heap t) = {}"
    using located_controls [OF invt] by auto
  have "\<forall>r. \<not> reschedule_requested (tm_controls t r)" using no by (simp add: snapshot_controls(1) [OF inv take])
  from process_loop_all [OF run d(1) due(6) this, of nows 0 0] obtain u where
    eq: "\<And>hr. process_loop run hr nows batch 0 0 t = (map e_id batch, Inr (length batch), u)"
    and u: "tm_ready u = tm_ready t" "tm_heap u = tm_heap t" "tm_controls u = marked completed batch (tm_controls t)"
      "obs (TM.more u) = fold (\<lambda>e. task_effect g (e_task e)) batch (obs (TM.more t))"
    by auto
  have s': "started = map e_id batch" "r = Inr (length batch)" "s' = u"
    using call take \<open>n \<noteq> 0\<close> by (simp_all add: process_traced_def eq)
  note fields = u [folded s'(3)]
  have same: "entry_state s' e = entry_state t e" if "e \<in> set (ready_list t @ tm_heap t)" for e
  proof -
    have "e_control e \<notin> e_control ` set batch" using d(2) imageI [OF that, of e_control] by blast
    then show ?thesis using fields by (simp add: entry_state_def marked_other)
  qed
  have "ready_list s' = ready_list t" using fields by (simp add: ready_list_def)
  then have ready: "live_in s' queued_ready (ready_list s') = live_in t queued_ready (ready_list t)"
    using same by (auto simp: live_in_def in_state_def intro!: filter_cong)
  have delayed: "live_delayed s' = live_delayed t"
    unfolding live_delayed_def using fields same by (auto simp: in_state_def intro!: filter_mset_cong)
  have "tm_inv [] [] [] (snd (snd (process_loop run (\<lambda>h x s. (s, None)) nows batch 0 0 t)))"
    by (rule tm_inv_process_loop [OF leaves_manager_ok [OF run] _ invt]) (simp add: handler_ok_def)
  then have "tm_inv [] [] [] s'" by (simp add: eq s'(3))
  moreover have "live s' = live t" by (simp add: live_def ready delayed)
  then have "\<forall>e \<in># live s'. \<not> e_periodic e"
    using os unfolding one_shot_def due(5) [symmetric] by simp
  moreover have "\<forall>r. \<not> reschedule_requested (tm_controls s' r)"
    using no fields by (simp add: marked_def snapshot_controls(1) [OF inv take])
  ultimately have "one_shot s'" by (simp add: one_shot_def)
  moreover have "TM.more t = TM.more s" using tm_more_take_snapshot [of now n s] take by simp
  ultimately show thesis
    using that [OF due(1,2)] due(3,4,5) s'(1,2) ready delayed fields by (simp add: live_def)
qed

section \<open>Accepting one-shot tasks\<close>

text \<open>What an accepted task adds to the live entries.\<close>

definition accepted :: "'f Task \<Rightarrow> TaskPriority \<Rightarrow> time option \<Rightarrow> ('f, 'z) TM_scheme \<Rightarrow> ('f, 'z) TM_scheme \<Rightarrow> bool" where
  "accepted t p due s s' \<longleftrightarrow> one_shot s' \<and> TM.more s' = TM.more s \<and> tm_closed s' = tm_closed s \<and>
     tm_next_id s' = tm_next_id s + 1 \<and>
     (\<exists>e. e_task e = t \<and> e_priority e = p \<and>
        (case due of
           None \<Rightarrow> (\<forall>q < 3. live_in s' queued_ready (tm_ready s' q) = live_in s queued_ready (tm_ready s q) @ of_priority q [e]) \<and>
                   live_delayed s' = live_delayed s
         | Some d \<Rightarrow> e_due e = d \<and> (\<forall>q < 3. live_in s' queued_ready (tm_ready s' q) = live_in s queued_ready (tm_ready s q)) \<and>
                   live_delayed s' = add_mset e (live_delayed s)))"

text \<open>The new block is none of those the entries of the manager use.\<close>

lemma old_controls:
  assumes "tm_inv H S X s" "e \<in> set (ready_list s @ tm_heap s)"
  shows "e_control e < tm_next_control s"
  using assms placed_inv_entry [OF tm_invD(1) [OF assms(1)], of "(In_ready, e)"]
    placed_inv_entry [OF tm_invD(1) [OF assms(1)], of "(In_heap, e)"]
  by (auto simp: located_in_place in_place_def ready_list_def entry_ok_def image_iff)


lemma old_states:
  assumes "tm_inv H S X s" "tm_controls s' = (tm_controls s)(tm_next_control s := c)" "x \<in> set (ready_list s @ tm_heap s)"
  shows "in_state s' v x = in_state s v x"
  using old_controls [OF assms(1,3)] assms(2) by (simp add: in_state_def entry_state_def)

lemma accepted_ready:
  assumes os: "one_shot s" and inv: "tm_inv [] [] [] s'"
    and e: "e_control e = tm_next_control s" "\<not> e_periodic e"
    and c: "tm_controls s' = (tm_controls s)(e_control e := c)" "ctl_state c = queued_ready" "\<not> reschedule_requested c"
    and q: "tm_ready s' = tm_ready (push_back_ready e s)" "tm_heap s' = tm_heap s"
    and more: "TM.more s' = TM.more s" "tm_closed s' = tm_closed s" "tm_next_id s' = tm_next_id s + 1"
  shows "accepted (e_task e) (e_priority e) None s s'"
proof -
  note old = old_states [OF _ c(1) [unfolded e(1)]]
  have invs: "tm_inv [] [] [] s" using os by (simp add: one_shot_def)
  have new: "in_state s' queued_ready e" using c by (simp add: in_state_def entry_state_def)
  have ready: "live_in s' queued_ready (tm_ready s' q) = live_in s queued_ready (tm_ready s q) @ of_priority q [e]" if "q < 3" for q
  proof -
    have "filter (in_state s' queued_ready) (tm_ready s q) = filter (in_state s queued_ready) (tm_ready s q)"
      by (rule filter_cong [OF refl], rule old [OF invs]) (use that in \<open>auto simp: ready_list_def less_Suc_eq numeral_3_eq_3 numeral_2_eq_2\<close>)
    then show ?thesis using new by (simp add: q push_back_ready_def live_in_def of_priority_def Let_def)
  qed
  have delayed: "live_delayed s' = live_delayed s"
    unfolding live_delayed_def q by (rule filter_mset_cong0, rule old [OF invs]) simp
  have "live s' = add_mset e (live s)"
    using priority_index_cases [of "e_priority e"] ready [of 0] ready [of 1] ready [of 2]
    by (auto simp: live_def ready_list_def delayed of_priority_def)
  then have "one_shot s'" using os inv e(2) c by (auto simp: one_shot_def)
  then show ?thesis using ready delayed more by (auto simp: accepted_def intro!: exI [of _ e])
qed

lemma accepted_delayed:
  assumes os: "one_shot s" and inv: "tm_inv [] [] [] s'"
    and e: "e_control e = tm_next_control s" "\<not> e_periodic e"
    and c: "tm_controls s' = (tm_controls s)(e_control e := c)" "ctl_state c = queued_delayed" "\<not> reschedule_requested c"
    and q: "tm_ready s' = tm_ready s" "tm_heap s' = tm_heap (push_delayed e s)"
    and more: "TM.more s' = TM.more s" "tm_closed s' = tm_closed s" "tm_next_id s' = tm_next_id s + 1"
  shows "accepted (e_task e) (e_priority e) (Some (e_due e)) s s'"
proof -
  note old = old_states [OF _ c(1) [unfolded e(1)]]
  have invs: "tm_inv [] [] [] s" using os by (simp add: one_shot_def)
  have new: "in_state s' queued_delayed e" using c by (simp add: in_state_def entry_state_def)
  have ready: "live_in s' queued_ready (tm_ready s' q) = live_in s queued_ready (tm_ready s q)" if "q < 3" for q
    unfolding live_in_def q
    by (rule filter_cong [OF refl], rule old [OF invs]) (use that in \<open>auto simp: ready_list_def less_Suc_eq numeral_3_eq_3 numeral_2_eq_2\<close>)
  have "filter_mset (in_state s' queued_delayed) (mset (tm_heap s)) = live_delayed s"
    unfolding live_delayed_def by (rule filter_mset_cong0, rule old [OF invs]) simp
  then have delayed: "live_delayed s' = add_mset e (live_delayed s)"
    using new by (simp add: live_delayed_def q push_delayed_def delayed.mset_push)
  have "live s' = add_mset e (live s)"
    using ready [of 0] ready [of 1] ready [of 2] by (simp add: live_def ready_list_def delayed)
  then have "one_shot s'" using os inv e(2) c by (auto simp: one_shot_def)
  then show ?thesis using ready delayed more by (auto simp: accepted_def intro!: exI [of _ e])
qed

lemma accepted_enqueue_ready:
  assumes os: "one_shot s" and nz: "tm_next_id s \<noteq> 0" and t: "Task_bool t"
  shows "accepted t (opt_priority opt) None s (snd (enqueue_ready_locked t opt s))"
proof -
  define e where "e = \<lparr> e_id = tm_next_id s, e_seq = tm_next_seq s, e_priority = opt_priority opt,
      e_due = 0, e_periodic = False, e_interval = 0, e_schedule = fixed_delay, e_planned_due = 0,
      e_control = tm_next_control s, e_task = t \<rparr>"
  have inv: "tm_inv [] [] [] s" using os by (simp add: one_shot_def)
  note fresh = fresh_unindexed [OF tm_invD(1) [OF inv] nz]
  have "accepted (e_task e) (e_priority e) None s (snd (enqueue_ready_locked t opt s))"
    by (rule accepted_ready [OF os tm_inv_enqueue_ready_locked [OF inv nz t], where c =
          "\<lparr> ctl_id = tm_next_id s, ctl_periodic = False, reschedule_requested = False,
             reschedule_due = 0, ctl_state = queued_ready \<rparr>"])
      (simp_all add: e_def enqueue_ready_locked_def tm_update_defs task_ids.gen_nonzero [OF nz] index_emplace_def fresh)
  then show ?thesis by (simp add: e_def)
qed

lemma accepted_enqueue_delayed:
  assumes os: "one_shot s" and nz: "tm_next_id s \<noteq> 0" and t: "Task_bool t"
  shows "accepted t (opt_priority opt) (Some due) s (snd (enqueue_delayed_locked due t opt s))"
proof -
  define e where "e = \<lparr> e_id = tm_next_id s, e_seq = tm_next_seq s, e_priority = opt_priority opt,
      e_due = due, e_periodic = False, e_interval = 0, e_schedule = fixed_delay, e_planned_due = 0,
      e_control = tm_next_control s, e_task = t \<rparr>"
  have inv: "tm_inv [] [] [] s" using os by (simp add: one_shot_def)
  note fresh = fresh_unindexed [OF tm_invD(1) [OF inv] nz]
  have "accepted (e_task e) (e_priority e) (Some (e_due e)) s (snd (enqueue_delayed_locked due t opt s))"
    by (rule accepted_delayed [OF os tm_inv_enqueue_delayed_locked [OF inv nz t], where c =
          "\<lparr> ctl_id = tm_next_id s, ctl_periodic = False, reschedule_requested = False,
             reschedule_due = 0, ctl_state = queued_delayed \<rparr>"])
      (simp_all add: e_def enqueue_delayed_locked_def tm_update_defs task_ids.gen_nonzero [OF nz] index_emplace_def fresh)
  then show ?thesis by (simp add: e_def)
qed

lemma live_notify [simp]:
  "live_in (notify_work_available s) v es = live_in s v es" "live_delayed (notify_work_available s) = live_delayed s"
  "ready_list (notify_work_available s) = ready_list s" "live (notify_work_available s) = live s"
  by (simp_all add: live_def live_in_def live_delayed_def ready_list_def in_state_def [abs_def] entry_state_def)

lemma accepted_notify: "accepted t p due s s' \<Longrightarrow> accepted t p due s (notify_work_available s')"
  by (cases due) (simp_all add: accepted_def one_shot_def tm_inv_notify hub_frame)

lemma accepted_post:
  assumes os: "one_shot s" and nz: "tm_next_id s \<noteq> 0" and t: "Task_bool t" and "\<not> tm_closed s"
  shows "accepted t (opt_priority opt) None s (snd (post t opt s))"
proof -
  have "fst (enqueue_ready_locked t opt s) = tm_next_id s"
    using os nz by (auto simp: one_shot_def intro: enqueue_ready_locked_eq)
  then show ?thesis
    using accepted_notify [OF accepted_enqueue_ready [OF os nz t, of opt]] assms
    by (simp add: post_def enqueue_ready_def notify_if_accepted_def case_prod_beta)
qed

lemma accepted_post_at:
  assumes os: "one_shot s" and nz: "tm_next_id s \<noteq> 0" and t: "Task_bool t" and "\<not> tm_closed s"
  shows "accepted t (opt_priority opt) (if due \<le> now then None else Some due) s (snd (post_at now due t opt s))"
proof -
  have "fst (enqueue_ready_locked t opt s) = tm_next_id s" "fst (enqueue_delayed_locked due t opt s) = tm_next_id s"
    using nz by (simp_all add: enqueue_ready_locked_def enqueue_delayed_locked_def next_id_def task_ids.gen_nonzero
        next_seq_def make_control_def Let_def)
  then show ?thesis
    using accepted_notify [OF accepted_enqueue_ready [OF os nz t, of opt]]
      accepted_notify [OF accepted_enqueue_delayed [OF os nz t, of opt due]] assms
    by (simp add: post_at_def notify_if_accepted_def case_prod_beta)
qed

lemma live_queues: "live s = mset (live_in s queued_ready (tm_ready s 0)) + mset (live_in s queued_ready (tm_ready s 1)) +
   mset (live_in s queued_ready (tm_ready s 2)) + live_delayed s"
  by (simp add: live_def ready_list_def)

lemma accepted_live:
  assumes "accepted t p due s s'"
  obtains e where "e_task e = t" "e_priority e = p" "live s' = add_mset e (live s)"
    "live_delayed s' = (if due = None then live_delayed s else add_mset e (live_delayed s))"
    "\<And>d. due = Some d \<Longrightarrow> e_due e = d"
    "\<And>q. q < 3 \<Longrightarrow> live_in s' queued_ready (tm_ready s' q) =
       live_in s queued_ready (tm_ready s q) @ (if due = None then of_priority q [e] else [])"
proof -
  obtain e where e: "e_task e = t" "e_priority e = p" "\<forall>d. due = Some d \<longrightarrow> e_due e = d"
    and q: "\<forall>q < 3. live_in s' queued_ready (tm_ready s' q) =
        live_in s queued_ready (tm_ready s q) @ (if due = None then of_priority q [e] else [])"
    and d: "live_delayed s' = (if due = None then live_delayed s else add_mset e (live_delayed s))"
    using assms by (auto simp: accepted_def split: option.splits)
  have "live s' = add_mset e (live s)"
    using q e(2) by (cases p; cases due) (simp_all add: live_queues d of_priority_def)
  then show thesis using that e q d by blast
qed

lemma one_shot_extend_init: "one_shot (TM.extend (TaskManager_init n) z)" "live (TM.extend (TaskManager_init n) z) = {#}"
proof -
  have "tm_inv [] [] [] (TM.extend (TaskManager_init n) z)"
    by (simp add: tm_inv_def located_def ready_mset_def queues_ok_def is_heap_def TaskManager_init_def TM.extend_def
        placed_inv_def listed_def)
  then show "one_shot (TM.extend (TaskManager_init n) z)" "live (TM.extend (TaskManager_init n) z) = {#}"
    by (simp_all add: one_shot_def live_def live_in_def live_delayed_def ready_list_def TaskManager_init_def TM.extend_def)
qed

section \<open>A loop of calls\<close>

text \<open>Asking for the next deadline prunes the heap only.\<close>

lemma one_shot_next_deadline:
  assumes "one_shot s"
  shows "one_shot (snd (next_deadline s))" "live (snd (next_deadline s)) = live s"
    "live_delayed (snd (next_deadline s)) = live_delayed s" "TM.more (snd (next_deadline s)) = TM.more s"
proof -
  let ?s = "prune_delayed_top_locked s"
  have inv: "tm_inv [] [] [] s" using assms by (simp add: one_shot_def)
  have same: "tm_ready ?s = tm_ready s" "tm_controls ?s = tm_controls s" "TM.more ?s = TM.more s"
    by (simp_all add: prune_delayed_top_locked_def)
  have delayed: "live_delayed ?s = live_delayed s" using inv by (simp add: tm_inv_def queues_ok_def prune_delayed_spec(3))
  moreover have l: "live ?s = live s"
    by (simp add: live_def delayed ready_list_def live_in_def in_state_def [abs_def] entry_state_def same)
  moreover have "one_shot ?s" using assms tm_inv_prune [OF inv] by (simp add: one_shot_def l same)
  ultimately show "one_shot (snd (next_deadline s))" "live (snd (next_deadline s)) = live s"
    "live_delayed (snd (next_deadline s)) = live_delayed s" "TM.more (snd (next_deadline s)) = TM.more s"
    by (simp_all add: next_deadline_def Let_def same(3))
qed

lemma one_shot_recommend:
  assumes "one_shot s"
  shows "one_shot (snd (recommend_wait_for_ms now cap s))" "live (snd (recommend_wait_for_ms now cap s)) = live s"
    "live_delayed (snd (recommend_wait_for_ms now cap s)) = live_delayed s"
    "TM.more (snd (recommend_wait_for_ms now cap s)) = TM.more s"
  using one_shot_next_deadline [OF assms] assms
  by (auto simp: recommend_wait_for_ms_def recommend_wait_for_def split: prod.splits option.splits)

text \<open>A call with room for everything, at a time by which everything is due, leaves nothing.\<close>

lemma one_shot_process_room:
  assumes run: "leaves_manager run obs g" and os: "one_shot s" and room: "n \<noteq> 0" "size (live s) \<le> n"
    and call: "process run hrun now nows n s = (r, s')"
  obtains due where "mset due = filter_mset (\<lambda>e. e_due e \<le> now) (live_delayed s)" "r = Inr (length (in_line s due))"
    "one_shot s'" "mset (in_line s due) + live s' = live s" "live s' = filter_mset (\<lambda>e. now < e_due e) (live_delayed s)"
    "live_delayed s' = live s'" "obs (TM.more s') = fold (task_effect g) (map e_task (in_line s due)) (obs (TM.more s))"
proof -
  obtain started where "process_traced run hrun now nows n s = (started, r, s')"
    using call by (cases "process_traced run hrun now nows n s") (simp add: process_def)
  from one_shot_process [OF run os room(1) this] obtain batch due where
    b: "mset due = filter_mset (\<lambda>e. e_due e \<le> now) (live_delayed s)"
    "batch = take n (in_line s due)" "live_in s' queued_ready (ready_list s') = drop n (in_line s due)"
    "live_delayed s' = filter_mset (\<lambda>e. now < e_due e) (live_delayed s)" "mset batch + live s' = live s"
    "r = Inr (length batch)" "one_shot s'" "obs (TM.more s') = fold (\<lambda>e. task_effect g (e_task e)) batch (obs (TM.more s))"
    by blast
  have "mset (in_line s due) \<subseteq># live s"
    unfolding mset_in_line b(1) live_def by (intro mset_subset_eq_mono_add) simp_all
  then have "length (in_line s due) \<le> n" using size_mset_mono room(2) by fastforce
  then have "batch = in_line s due" "live s' = live_delayed s'" using b(2,3) by (simp_all add: live_def)
  then show thesis using that [OF b(1)] b(4-8) by (simp add: fold_map comp_def)
qed

end
