(* ===== verification/Example_Base.thy ===== *)
theory Example_Base
  imports Endpoint Event_Types
begin

text \<open>
  What the example programs of the repository (\<^verbatim>\<open>src/examples\<close>) share: the state of a program that uses
  one bus is the state of the bus and its endpoints, extended by what the program has printed and by
  its local variables. A program is a list of statements; an exception that leaves a statement
  ends it.
\<close>

section \<open>Output\<close>

text \<open>The values given to \<^verbatim>\<open>std::cout\<close>, in order; how a stream formats a number is left out.
  A decimal is its digits and how many of them follow the point.\<close>

datatype Shown = Text string | Count nat | Decimal int nat

definition endl :: Shown where
  "endl = Text [CHR 0x0A]"

record ('v, 'u, 'h, 'l) DEMO = "('v, 'u, 'h) EPS" +
  cout :: "Shown list"
  locals :: 'l

definition print :: "Shown list \<Rightarrow> ('v, 'u, 'h, 'l, 'z) DEMO_scheme \<Rightarrow> ('v, 'u, 'h, 'l, 'z) DEMO_scheme" where
  "print xs s = s\<lparr>cout := cout s @ xs\<rparr>"

text \<open>A new bus without subscribers in a program that has not printed anything.\<close>

definition demo_init :: "(nat \<Rightarrow> time) \<Rightarrow> 'l \<Rightarrow> ('v, 'u, 'h, 'l) DEMO" where
  "demo_init clock l =
     \<lparr> w_strong = (\<lambda>_. 0), w_clock = clock, w_reads = 0, bus_callbacks = Map.empty, bus_queue = [],
       bus_awaiters = [], bus_handler = None, bus_next_subscription = 1, bus_request_ids = 1, bus_notifier = None,
       bus_notified = [], aw_store = Map.empty, aw_next_object = 1, aw_tokens = [], aw_futures = [],
       eps_store = (\<lambda>_. \<lparr> ep_guard = None, ep_closed = True, ep_awaiters = [] \<rparr>),
       cout = [], locals = l \<rparr>"

text \<open>\<^verbatim>\<open>std::to_string\<close>.\<close>

fun to_string :: "nat \<Rightarrow> string" where
  "to_string n = (if n < 10 then [char_of (48 + n)] else to_string (n div 10) @ [char_of (48 + n mod 10)])"

declare to_string.simps [simp del]

text \<open>
  \<^verbatim>\<open>what()\<close> of a standard exception, the texts of the standard's own ones as in libstdc++; \<open>None\<close> for
  an object that is none.
\<close>

fun exn_what :: "exn \<Rightarrow> string option" where
  "exn_what (Logic_error m) = Some m"
| "exn_what (Invalid_argument m) = Some m"
| "exn_what (Runtime_error m) = Some m"
| "exn_what Bad_function_call = Some ''bad_function_call''"
| "exn_what Bad_cast = Some ''std::bad_cast''"
| "exn_what (Request_timeout i) = Some (''event_hub request timed out: '' @ to_string (unat i))"
| "exn_what (User_exn u) = None"

section \<open>Statements\<close>

type_synonym 's stmt = "'s \<Rightarrow> exn option \<times> 's"

fun run_stmts :: "'s stmt list \<Rightarrow> 's stmt" where
  "run_stmts [] s = (None, s)"
| "run_stmts (c # cs) s = (case c s of (Some x, s) \<Rightarrow> (Some x, s) | (None, s) \<Rightarrow> run_stmts cs s)"

definition simple :: "('s \<Rightarrow> 's) \<Rightarrow> 's stmt" where
  "simple f s = (None, f s)"

text \<open>User code that does nothing: what the programs below have no callables of.\<close>

definition no_code :: "('v, 'u, 'h, 's) user_code" where
  "no_code = \<lparr> uc_call = (\<lambda>u v s. (s, None)), uc_listener = (\<lambda>u v s. (s, None)), uc_pred = (\<lambda>u v s. (Inr True, s)),
     uc_thunk = (\<lambda>u s. (s, None)), uc_handler = (\<lambda>h x s. (s, None)), uc_get_id = (\<lambda>v. 0), uc_set_id = (\<lambda>i v. v) \<rparr>"

text \<open>\<^verbatim>\<open>bus.process()\<close> as a statement.\<close>

definition do_process ::
  "('v, 'u, 'h, ('v, 'u, 'h, 'z) EPS_scheme) user_code \<Rightarrow> ('v, 'u, 'h, 'z) EPS_scheme stmt"
where
  "do_process uc s =
     (case bus_process (run_callable uc) (uc_handler uc) (awaiter_ops uc) s of
        (Inl (x, n), s) \<Rightarrow> (Some x, s)
      | (Inr n, s) \<Rightarrow> (None, s))"

section \<open>Evaluation\<close>

text \<open>
  Programs are run by the simplifier, with the tables of the state kept as chains of updates. Erasing
  records keeps this form. A statement is not looked at before the state it runs in is known.
\<close>

lemma run_stmts_weak_cong: "s = t \<Longrightarrow> run_stmts cs s = run_stmts cs t"
  by simp

lemma simple_weak_cong: "s = t \<Longrightarrow> simple f s = simple f t"
  by simp

text \<open>A case distinction on a result and a state, with the state known before a branch is looked at.\<close>

lemma case_result_option:
  "(case p of (None, s) \<Rightarrow> f s | (Some x, s) \<Rightarrow> g x s) =
     (let r = p in case fst r of None \<Rightarrow> f (snd r) | Some x \<Rightarrow> g x (snd r))"
  by (simp add: Let_def split: prod.splits option.splits)

lemma case_result_sum:
  "(case p of (Inl x, s) \<Rightarrow> h x s | (Inr y, s) \<Rightarrow> k y s) =
     (let r = p in case fst r of Inl x \<Rightarrow> h x (snd r) | Inr y \<Rightarrow> k y (snd r))"
  by (simp add: Let_def split: prod.splits sum.splits)

lemmas demo_congs = run_stmts_weak_cong simple_weak_cong let_weak_cong

definition map_bind :: "('a \<Rightarrow> 'b option) \<Rightarrow> ('k \<rightharpoonup> 'a) \<Rightarrow> ('k \<rightharpoonup> 'b)" where
  "map_bind f m = (\<lambda>k. Option.bind (m k) f)"

lemma map_bind_simps:
  "map_bind f Map.empty = Map.empty" "map_bind f (m(k := v)) = (map_bind f m)(k := Option.bind v f)"
  by (auto simp: map_bind_def)

lemma unsubscribe_map_bind:
  "unsubscribe i s = s\<lparr>bus_callbacks := map_bind (erase_records (\<lambda>r. cb_id r = i)) (bus_callbacks s)\<rparr>"
  "unsubscribe_all q s = s\<lparr>bus_callbacks := map_bind (erase_records (\<lambda>r. cb_owner r = q)) (bus_callbacks s)\<rparr>"
  by (simp_all add: unsubscribe_def unsubscribe_all_def map_bind_def)

lemmas bus_eval = unsubscribe_map_bind map_bind_simps erase_records_def next_subscription_id_def records_of_def
  push_record_def subscribe_def unsubscribe_all_type_def bus_report_exception_def report_exception_noexcept_def
  call_record_def enter_guard_def leave_guard_def dispatch_def register_awaiter_def poll_awaiters_def emit_def
  bus_enqueue_def bus_post_def restore_unprocessed_events_def bus_process_def bus_pending_count_def
  bus_has_pending_def bus_clear_pending_def bus_notify_work_available_def bus_set_exception_handler_def
  clock_now_def null_object_def lock_object_def unlock_object_def next_request_id_def fetch_add_def
  RequestIdGenerator_next_def invalid_request_id_def subscribe_listener_def

lemmas awaiter_eval = AwaitOptions_init_def set_timeout_ms_def timeout_ms_def milliseconds_def aw_get_def aw_put_def
  aw_is_active_def aw_cancel_def aw_release_def token_cancelled_def complete_future_def call_fn_def
  call_pred_def aw_match_def hold_awaiter_def handle_event_def run_callable_def aw_expire_def poll_timeout_def
  awaiter_ops_def make_object_def EventAwaiter_init_def subscribe_internal_def aw_create_def

lemmas endpoint_eval = ep_update_def EventEndpoint_init_def ep_weak_guard_def ep_is_closed_def cancel_awaiters_def
  ep_unsubscribe_all_def reset_guard_def ep_close_def ep_destroy_def ep_subscribe_def ep_subscribe_guarded_def
  ep_subscribe_listener_def ep_subscribe_guarded_listener_def ep_unsubscribe_type_def ep_unsubscribe_def
  ep_emit_def ep_post_def ep_prune_awaiters_def make_awaiter_def await_once_def await_next_def await_each_def
  await_every_def ep_next_request_id_def request_def

lemmas node_eval = EventNode_init_def node_close_def node_destroy_def node_is_closed_def node_listen_def
  node_subscribe_def node_unsubscribe_def node_unsubscribe_type_def node_emit_def node_post_def

lemmas demo_eval = bus_eval awaiter_eval endpoint_eval simple_def do_process_def demo_init_def print_def no_code_def
  cancellation_defs Let_def endl_def case_result_option case_result_sum

end
