(* ===== verification/Example_Bus.thy ===== *)
theory Example_Bus
  imports Example_Base
begin

text \<open>
  The example programs around one bus. User code is the program's callables, by name; events are a
  datatype per program, a type id per event class; endpoints are the numbers 1, 2 and so on in the order of
  their declarations, and are destroyed at the end. Each program comes with what it prints.
\<close>

section \<open>\<^verbatim>\<open>basic.cpp\<close>\<close>

datatype basic_event = UserLoggedInEvent string | TaskQueuedEvent string

abbreviation UserLoggedIn_type :: type_id where "UserLoggedIn_type \<equiv> 1"
abbreviation TaskQueued_type :: type_id where "TaskQueued_type \<equiv> 2"

datatype basic_fn = On_logged_in | On_queued

type_synonym basic_state = "(basic_event, basic_fn, unit, SubscriptionId) DEMO"

fun basic_call :: "basic_fn \<Rightarrow> basic_event \<Rightarrow> basic_state \<Rightarrow> basic_state \<times> exn option" where
  "basic_call On_logged_in (UserLoggedInEvent name) s = (print [Text ''user logged in: '', Text name, endl] s, None)"
| "basic_call On_queued (TaskQueuedEvent task_id) s = (print [Text ''task queued: '', Text task_id, endl] s, None)"
| "basic_call _ _ s = (s, None)"

definition basic_code :: "(basic_event, basic_fn, unit, basic_state) user_code" where
  "basic_code = no_code\<lparr>uc_call := basic_call\<rparr>"

definition basic_main :: "basic_state stmt" where
  "basic_main = run_stmts
    [ simple (EventEndpoint_init 1),
      simple (\<lambda>s. snd (ep_subscribe UserLoggedIn_type 1 (Some (User_fn On_logged_in)) s)),
      simple (\<lambda>s. let (i, s) = ep_subscribe TaskQueued_type 1 (Some (User_fn On_queued)) s in s\<lparr>locals := i\<rparr>),
      ep_emit basic_code UserLoggedIn_type (UserLoggedInEvent ''alice''),
      simple (ep_post TaskQueued_type (TaskQueuedEvent ''build-docs'')),
      simple (\<lambda>s. print [Text ''pending before process: '', Count (bus_pending_count s), endl] s),
      do_process basic_code,
      simple (\<lambda>s. ep_unsubscribe (locals s) s),
      simple (ep_post TaskQueued_type (TaskQueuedEvent ''will-not-print'')),
      do_process basic_code,
      simple (ep_post TaskQueued_type (TaskQueuedEvent ''will-be-cleared'')),
      simple (\<lambda>s. print [Text ''pending before clear: '', Count (bus_pending_count s), endl] s),
      simple bus_clear_pending,
      simple (\<lambda>s. print [Text ''pending after clear: '', Count (bus_pending_count s), endl] s),
      simple (ep_destroy 1) ]"

lemma basic_prints:
  "cout (snd (basic_main (demo_init clock 0))) =
     [Text ''user logged in: '', Text ''alice'', endl, Text ''pending before process: '', Count 1, endl,
      Text ''task queued: '', Text ''build-docs'', endl, Text ''pending before clear: '', Count 1, endl,
      Text ''pending after clear: '', Count 0, endl]"
  by (simp add: basic_main_def basic_code_def demo_eval cong: demo_congs)

section \<open>\<^verbatim>\<open>exception_handling.cpp\<close>\<close>

datatype command_event = CommandEvent string

abbreviation Command_type :: type_id where "Command_type \<equiv> 1"

datatype command_fn = Fail_on_fail | Observe | Fail_always

datatype command_handler = Print_exception

type_synonym command_state = "(command_event, command_fn, command_handler, unit) DEMO"

fun command_call :: "command_fn \<Rightarrow> command_event \<Rightarrow> command_state \<Rightarrow> command_state \<times> exn option" where
  "command_call Fail_on_fail (CommandEvent name) s =
     (if name = ''fail'' then (s, Some (Runtime_error ''command failed'')) else (s, None))"
| "command_call Observe (CommandEvent name) s = (print [Text ''observed command: '', Text name, endl] s, None)"
| "command_call Fail_always (CommandEvent name) s = (s, Some (Runtime_error ''unhandled command failed''))"

text \<open>The handler rethrows and catches \<^verbatim>\<open>std::exception\<close>; another object leaves it.\<close>

fun command_handle :: "command_handler \<Rightarrow> exn \<Rightarrow> command_state \<Rightarrow> command_state \<times> exn option" where
  "command_handle Print_exception x s =
     (case exn_what x of
        Some m \<Rightarrow> (print [Text ''handled exception: '', Text m, endl] s, None)
      | None \<Rightarrow> (s, Some x))"

definition command_code :: "(command_event, command_fn, command_handler, command_state) user_code" where
  "command_code = no_code\<lparr>uc_call := command_call, uc_handler := command_handle\<rparr>"

definition command_handled :: "command_state stmt" where
  "command_handled = run_stmts
    [ simple (EventEndpoint_init 1),
      simple (bus_set_exception_handler (Some Print_exception)),
      simple (\<lambda>s. snd (ep_subscribe Command_type 1 (Some (User_fn Fail_on_fail)) s)),
      simple (\<lambda>s. snd (ep_subscribe Command_type 1 (Some (User_fn Observe)) s)),
      simple (ep_post Command_type (CommandEvent ''fail'')),
      simple (ep_post Command_type (CommandEvent ''ok'')),
      do_process command_code,
      simple (ep_destroy 1) ]"

text \<open>The part of \<^verbatim>\<open>main\<close> about the second bus, on that bus; the output goes on.\<close>

definition command_rethrown :: "command_state stmt" where
  "command_rethrown = run_stmts
    [ simple (EventEndpoint_init 1),
      simple (\<lambda>s. snd (ep_subscribe Command_type 1 (Some (User_fn Fail_always)) s)),
      simple (ep_post Command_type (CommandEvent ''fail'')),
      (\<lambda>s. case do_process command_code s of
             (None, s) \<Rightarrow> (None, s)
           | (Some x, s) \<Rightarrow>
               (case exn_what x of
                  Some m \<Rightarrow> (None, print [Text ''rethrown exception: '', Text m, endl] s)
                | None \<Rightarrow> (Some x, s))),
      simple (ep_destroy 1) ]"

definition exception_handling_main :: "(nat \<Rightarrow> time) \<Rightarrow> exn option \<times> Shown list" where
  "exception_handling_main clock =
     (case command_handled (demo_init clock ()) of
        (Some x, s) \<Rightarrow> (Some x, cout s)
      | (None, s) \<Rightarrow>
          (case command_rethrown (demo_init clock ()\<lparr>cout := cout s\<rparr>) of (x, s) \<Rightarrow> (x, cout s)))"

lemma exception_handling_prints:
  "exception_handling_main clock = (None,
     [Text ''handled exception: '', Text ''command failed'', endl, Text ''observed command: '', Text ''fail'', endl,
      Text ''observed command: '', Text ''ok'', endl, Text ''rethrown exception: '', Text ''unhandled command failed'', endl])"
  by (simp add: exception_handling_main_def command_handled_def command_rethrown_def command_code_def demo_eval cong: demo_congs)

section \<open>\<^verbatim>\<open>request_response.cpp\<close>\<close>

datatype price_fn = Answer_price | Show_price | Answer_balance | Show_balance

text \<open>The balance a reply callback is given is an event here like the others, though it is never posted.\<close>

datatype price_event =
    PriceRequest RequestId string
  | PriceResult RequestId string Shown
  | BalanceRequest string "price_fn Reply"
  | BalanceResult Shown

abbreviation PriceRequest_type :: type_id where "PriceRequest_type \<equiv> 1"
abbreviation PriceResult_type :: type_id where "PriceResult_type \<equiv> 2"
abbreviation BalanceRequest_type :: type_id where "BalanceRequest_type \<equiv> 3"

type_synonym price_state = "(price_event, price_fn, unit, unit) DEMO"

fun price_show :: "price_fn \<Rightarrow> price_event \<Rightarrow> price_state \<Rightarrow> price_state \<times> exn option" where
  "price_show Show_price (PriceResult i symbol price) s = (print [Text symbol, Text '' price: '', price, endl] s, None)"
| "price_show Show_balance (BalanceResult balance) s = (print [Text ''balance: '', balance, endl] s, None)"
| "price_show _ _ s = (s, None)"

fun price_call :: "price_fn \<Rightarrow> price_event \<Rightarrow> price_state \<Rightarrow> price_state \<times> exn option" where
  "price_call Answer_price (PriceRequest i symbol) s =
     (ep_post PriceResult_type (PriceResult i symbol (Decimal 12345 2)) s, None)"
| "price_call Answer_balance (BalanceRequest account reply) s =
     Reply_call price_show reply (BalanceResult (if account = ''demo'' then Decimal 10000 0 else Decimal 1000 0)) s"
| "price_call f v s = price_show f v s"

fun price_get_id :: "price_event \<Rightarrow> RequestId" where
  "price_get_id (PriceRequest i symbol) = i"
| "price_get_id (PriceResult i symbol price) = i"
| "price_get_id _ = invalid_request_id"

fun price_set_id :: "RequestId \<Rightarrow> price_event \<Rightarrow> price_event" where
  "price_set_id i (PriceRequest _ symbol) = PriceRequest i symbol"
| "price_set_id i (PriceResult _ symbol price) = PriceResult i symbol price"
| "price_set_id i v = v"

definition price_code :: "(price_event, price_fn, unit, price_state) user_code" where
  "price_code = no_code\<lparr>uc_call := price_call, uc_get_id := price_get_id, uc_set_id := price_set_id\<rparr>"

definition request_response_main :: "price_state stmt" where
  "request_response_main = run_stmts
    [ simple (EventEndpoint_init 1),
      simple (EventEndpoint_init 2),
      simple (\<lambda>s. snd (ep_subscribe PriceRequest_type 2 (Some (User_fn Answer_price)) s)),
      simple (\<lambda>s. snd (request price_code PriceRequest_type PriceResult_type 1 (PriceRequest invalid_request_id ''EURUSD'')
                (Some (User_fn Show_price)) AwaitOptions_init s)),
      do_process price_code,
      do_process price_code,
      simple (\<lambda>s. snd (ep_subscribe BalanceRequest_type 2 (Some (User_fn Answer_balance)) s)),
      simple (ep_post BalanceRequest_type (BalanceRequest ''demo'' (Reply_from (Some Show_balance)))),
      do_process price_code,
      simple (ep_destroy 2),
      simple (ep_destroy 1) ]"

lemma request_response_prints:
  "cout (snd (request_response_main (demo_init clock ()))) =
     [Text ''EURUSD'', Text '' price: '', Decimal 12345 2, endl, Text ''balance: '', Decimal 10000 0, endl]"
  by (simp add: request_response_main_def price_code_def Reply_call_def Reply_from_def demo_eval cong: demo_congs)

section \<open>\<^verbatim>\<open>event_and_listener.cpp\<close>\<close>

text \<open>Events with metadata: the payload is an \<open>Event\<close> whose data are the members of the class.\<close>

datatype settings_data = Reloaded_data string | Failed_data string string

abbreviation SettingsReloaded_type :: type_id where "SettingsReloaded_type \<equiv> 1"
abbreviation SettingsReloadFailed_type :: type_id where "SettingsReloadFailed_type \<equiv> 2"

definition SettingsReloadedEvent :: "string \<Rightarrow> settings_data Event" where
  "SettingsReloadedEvent file = event_hub_event SettingsReloaded_type ''SettingsReloadedEvent'' (Reloaded_data file)"

definition SettingsReloadFailedEvent :: "string \<Rightarrow> string \<Rightarrow> settings_data Event" where
  "SettingsReloadFailedEvent file reason =
     event_hub_event SettingsReloadFailed_type ''SettingsReloadFailedEvent'' (Failed_data file reason)"

datatype settings_listener = AuditListener

type_synonym settings_state = "(settings_data Event, settings_listener, unit, unit) DEMO"

definition audit_on_event :: "settings_data Event \<Rightarrow> settings_state \<Rightarrow> settings_state" where
  "audit_on_event event s =
     (case event_as SettingsReloaded_type event of
        Some reloaded \<Rightarrow>
          (case ev_data reloaded of
             Reloaded_data file \<Rightarrow> print [Text (ev_name event), Text '': '', Text file, endl] s
           | _ \<Rightarrow> s)
      | None \<Rightarrow>
          (case event_as SettingsReloadFailed_type event of
             Some failed \<Rightarrow>
               (case ev_data failed of
                  Failed_data file reason \<Rightarrow>
                    print [Text (ev_name event), Text '': '', Text file, Text '', reason='', Text reason, endl] s
                | _ \<Rightarrow> s)
           | None \<Rightarrow> s))"

definition settings_code :: "(settings_data Event, settings_listener, unit, settings_state) user_code" where
  "settings_code = no_code\<lparr>uc_listener := (\<lambda>l event s. (audit_on_event event s, None))\<rparr>"

definition event_and_listener_main :: "settings_state stmt" where
  "event_and_listener_main = run_stmts
    [ simple (EventEndpoint_init 1),
      simple (\<lambda>s. snd (ep_subscribe_listener SettingsReloaded_type 1 AuditListener s)),
      simple (\<lambda>s. snd (ep_subscribe_listener SettingsReloadFailed_type 1 AuditListener s)),
      ep_emit settings_code SettingsReloaded_type (SettingsReloadedEvent ''app.json''),
      ep_emit settings_code SettingsReloadFailed_type (SettingsReloadFailedEvent ''runtime.json'' ''file not found''),
      simple (\<lambda>s. let event = SettingsReloadFailedEvent ''override.json'' ''invalid json''
                  in print [Text ''is SettingsReloadedEvent: '', Count (of_bool (event_is SettingsReloaded_type event)), endl,
                            Text ''is SettingsReloadFailedEvent: '',
                            Count (of_bool (event_is SettingsReloadFailed_type event)), endl] s),
      simple (ep_destroy 1) ]"

lemma event_and_listener_prints:
  "cout (snd (event_and_listener_main (demo_init clock ()))) =
     [Text ''SettingsReloadedEvent'', Text '': '', Text ''app.json'', endl,
      Text ''SettingsReloadFailedEvent'', Text '': '', Text ''runtime.json'', Text '', reason='', Text ''file not found'', endl,
      Text ''is SettingsReloadedEvent: '', Count 0, endl, Text ''is SettingsReloadFailedEvent: '', Count 1, endl]"
  by (simp add: event_and_listener_main_def settings_code_def audit_on_event_def SettingsReloadedEvent_def
      SettingsReloadFailedEvent_def event_hub_event_def event_as_def event_is_def demo_eval cong: demo_congs)

section \<open>\<^verbatim>\<open>strict_lifetime.cpp\<close>\<close>

datatype token_event = TokenFoundEvent string string

abbreviation TokenFound_type :: type_id where "TokenFound_type \<equiv> 1"

datatype token_fn = On_token_found

text \<open>The module is a shared object with an endpoint, number 2, and the tokens it found.\<close>

record TokenModule =
  tm_object :: nat
  m_tokens :: "string list"

type_synonym token_state = "(token_event, token_fn, unit, TokenModule) DEMO"

definition make_module :: "token_state \<Rightarrow> token_state" where
  "make_module s = (let (g, s) = make_object s in EventEndpoint_init 2 (s\<lparr>locals := \<lparr> tm_object = g, m_tokens = [] \<rparr>\<rparr>))"

text \<open>Dropping a shared pointer to the module; its destructor destroys the tokens, then the endpoint.\<close>

definition release_module :: "nat \<Rightarrow> token_state \<Rightarrow> token_state" where
  "release_module g s =
     (let s = unlock_object g s
      in if w_strong s g = 0 then ep_destroy 2 (s\<lparr>locals := (locals s)\<lparr>m_tokens := []\<rparr>\<rparr>) else s)"

definition module_start :: "token_state \<Rightarrow> token_state" where
  "module_start s = snd (ep_subscribe_guarded TokenFound_type 2 (tm_object (locals s)) (Some (User_fn On_token_found)) s)"

definition on_token_found :: "token_event \<Rightarrow> token_state \<Rightarrow> token_state" where
  "on_token_found event s =
     (case event of TokenFoundEvent source value \<Rightarrow>
        s\<lparr>locals := (locals s)\<lparr>m_tokens := m_tokens (locals s) @ [source @ '':'' @ value]\<rparr>\<rparr>)"

text \<open>The callback locks its weak pointer to the module, which \<open>tm_object\<close> still names after the release.\<close>

definition token_call :: "token_fn \<Rightarrow> token_event \<Rightarrow> token_state \<Rightarrow> token_state \<times> exn option" where
  "token_call f event s =
     (case lock_object (tm_object (locals s)) s of
        None \<Rightarrow> (s, None)
      | Some s \<Rightarrow> (release_module (tm_object (locals s)) (on_token_found event s), None))"

definition token_code :: "(token_event, token_fn, unit, token_state) user_code" where
  "token_code = no_code\<lparr>uc_call := token_call\<rparr>"

definition strict_lifetime_main :: "token_state stmt" where
  "strict_lifetime_main = run_stmts
    [ simple (EventEndpoint_init 1),
      simple make_module,
      simple module_start,
      simple (ep_post TokenFound_type (TokenFoundEvent ''scanner'' ''token-1'')),
      do_process token_code,
      simple (\<lambda>s. print (concat (map (\<lambda>token. [Text token, endl]) (m_tokens (locals s)))) s),
      simple (\<lambda>s. release_module (tm_object (locals s)) s),
      simple (ep_post TokenFound_type (TokenFoundEvent ''scanner'' ''late-token'')),
      do_process token_code,
      simple (print [Text ''late event skipped after module reset'', endl]),
      simple (ep_destroy 1) ]"

lemmas strict_lifetime_eval = strict_lifetime_main_def token_code_def token_call_def on_token_found_def
  module_start_def release_module_def make_module_def

lemma strict_lifetime_prints:
  "cout (snd (strict_lifetime_main (demo_init clock \<lparr> tm_object = 0, m_tokens = [] \<rparr>))) =
     [Text ''scanner:token-1'', endl, Text ''late event skipped after module reset'', endl]"
  "m_tokens (locals (snd (strict_lifetime_main (demo_init clock \<lparr> tm_object = 0, m_tokens = [] \<rparr>)))) = []"
  by (simp_all add: strict_lifetime_eval demo_eval cong: demo_congs)

end
