(* ===== verification/Example_Await.thy ===== *)
theory Example_Await
  imports Example_Base
begin

text \<open>
  The example programs about nodes and awaiters, as in \<open>Example_Bus\<close>. The second one sleeps: what it
  prints depends on what the clock has reached by then.
\<close>

section \<open>\<^verbatim>\<open>event_node.cpp\<close>\<close>

datatype node_data = Found_data string string | Rejected_data string string string

datatype node_payload = Meta "node_data Event" | ScanSummary nat nat

abbreviation Found_type :: type_id where "Found_type \<equiv> 1"
abbreviation Rejected_type :: type_id where "Rejected_type \<equiv> 2"
abbreviation Summary_type :: type_id where "Summary_type \<equiv> 3"

definition FoundEvent :: "string \<Rightarrow> string \<Rightarrow> node_payload" where
  "FoundEvent token source = Meta (event_hub_event Found_type ''TokenFoundEvent'' (Found_data token source))"

definition RejectedEvent :: "string \<Rightarrow> string \<Rightarrow> string \<Rightarrow> node_payload" where
  "RejectedEvent token source reason =
     Meta (event_hub_event Rejected_type ''TokenRejectedEvent'' (Rejected_data token source reason))"

datatype node_fn = Module_on_event | Summary_fn

text \<open>The local variable is \<^verbatim>\<open>m_found_subscription\<close>; the module is the node with endpoint 1.\<close>

type_synonym node_state = "(node_payload, node_fn, unit, SubscriptionId) DEMO"

definition token_module :: "node_fn EventNode" where
  "token_module = \<lparr> node_listener = Module_on_event, node_endpoint = 1 \<rparr>"

definition node_on_event :: "node_data Event \<Rightarrow> node_state \<Rightarrow> node_state" where
  "node_on_event event s =
     (case event_as Found_type event of
        Some found \<Rightarrow>
          (case ev_data found of
             Found_data token source \<Rightarrow> print [Text ''token='', Text token, Text '', source='', Text source, endl] s
           | _ \<Rightarrow> s)
      | None \<Rightarrow>
          (case event_as Rejected_type event of
             Some rejected \<Rightarrow>
               (case ev_data rejected of
                  Rejected_data token source reason \<Rightarrow>
                    print [Text ''rejected='', Text token, Text '', source='', Text source, Text '', reason='', Text reason, endl] s
                | _ \<Rightarrow> s)
           | None \<Rightarrow> s))"

definition summary_call :: "node_payload \<Rightarrow> node_state \<Rightarrow> node_state" where
  "summary_call v s =
     (case v of
        ScanSummary accepted rejected \<Rightarrow>
          print [Text ''plain summary accepted='', Count accepted, Text '', rejected='', Count rejected, endl] s
      | Meta event \<Rightarrow> s)"

definition node_code :: "(node_payload, node_fn, unit, node_state) user_code" where
  "node_code = no_code\<lparr>uc_call := (\<lambda>f v s. (summary_call v s, None)),
     uc_listener := (\<lambda>l v s. (case v of Meta event \<Rightarrow> node_on_event event s | _ \<Rightarrow> s, None))\<rparr>"

definition node_start :: "node_state \<Rightarrow> node_state" where
  "node_start s =
     (let (i, s) = node_listen Found_type token_module s;
          s = s\<lparr>locals := i\<rparr>;
          s = snd (node_listen Rejected_type token_module s)
      in snd (node_subscribe Summary_type token_module (Some (User_fn Summary_fn)) s))"

definition publish_immediate_token :: "node_state stmt" where
  "publish_immediate_token = node_emit node_code Found_type (FoundEvent ''sync-token'' ''memory'')"

definition publish_test_events :: "node_state \<Rightarrow> node_state" where
  "publish_test_events s =
     (let s = node_post Found_type (FoundEvent ''abc123'' ''github'') s;
          s = node_post Rejected_type (RejectedEvent ''x'' ''github'' ''too short'') s
      in node_post Summary_type (ScanSummary 1 1) s)"

definition unsubscribe_from_found_tokens :: "node_state \<Rightarrow> node_state" where
  "unsubscribe_from_found_tokens s = (node_unsubscribe (locals s) s)\<lparr>locals := 0\<rparr>"

definition unsubscribe_from_summaries :: "node_state \<Rightarrow> node_state" where
  "unsubscribe_from_summaries s = node_unsubscribe_type Summary_type token_module s"

definition event_node_main :: "node_state stmt" where
  "event_node_main = run_stmts
    [ simple (EventNode_init token_module),
      simple node_start,
      publish_immediate_token,
      simple publish_test_events,
      do_process node_code,
      simple unsubscribe_from_found_tokens,
      simple unsubscribe_from_summaries,
      simple publish_test_events,
      do_process node_code,
      simple (node_close token_module),
      simple (\<lambda>s. print [Text ''closed='', Count (of_bool (node_is_closed token_module s)), endl] s),
      simple (bus_post Rejected_type (RejectedEvent ''late'' ''github'' ''module closed'')),
      do_process node_code,
      simple (node_destroy token_module) ]"

lemmas event_node_eval = event_node_main_def node_code_def node_on_event_def summary_call_def node_start_def
  publish_immediate_token_def publish_test_events_def unsubscribe_from_found_tokens_def
  unsubscribe_from_summaries_def token_module_def FoundEvent_def RejectedEvent_def event_hub_event_def
  event_as_def event_is_def

lemma event_node_prints:
  "cout (snd (event_node_main (demo_init clock 0))) =
     [Text ''token='', Text ''sync-token'', Text '', source='', Text ''memory'', endl,
      Text ''token='', Text ''abc123'', Text '', source='', Text ''github'', endl,
      Text ''rejected='', Text ''x'', Text '', source='', Text ''github'', Text '', reason='', Text ''too short'', endl,
      Text ''plain summary accepted='', Count 1, Text '', rejected='', Count 1, endl,
      Text ''rejected='', Text ''x'', Text '', source='', Text ''github'', Text '', reason='', Text ''too short'', endl,
      Text ''closed='', Count 1, endl]"
  by (simp add: event_node_eval node_eval demo_eval cong: demo_congs)

section \<open>\<^verbatim>\<open>await_and_cancel.cpp\<close>\<close>

datatype job_event = JobEvent string nat | TimeoutEvent string

abbreviation Job_type :: type_id where "Job_type \<equiv> 1"
abbreviation Timeout_type :: type_id where "Timeout_type \<equiv> 2"

datatype job_fn = Progress_complete | Job_finished | Job_progress | Job_cancelled | Timeout_fired | Timeout_event

text \<open>The local variables of \<^verbatim>\<open>main\<close>: the handle \<^verbatim>\<open>progress_stream\<close> and \<^verbatim>\<open>source\<close>.\<close>

record job_locals =
  progress_stream :: nat
  source :: CancellationSource

type_synonym job_state = "(job_event, job_fn, unit, job_locals) DEMO"

fun job_pred :: "job_fn \<Rightarrow> job_event \<Rightarrow> job_state \<Rightarrow> (exn + bool) \<times> job_state" where
  "job_pred Progress_complete (JobEvent job progress) s = (Inr (progress = 100), s)"
| "job_pred _ _ s = (Inr True, s)"

fun job_call :: "job_fn \<Rightarrow> job_event \<Rightarrow> job_state \<Rightarrow> job_state \<times> exn option" where
  "job_call Job_finished (JobEvent job progress) s = (print [Text ''job finished: '', Text job, endl] s, None)"
| "job_call Job_progress (JobEvent job progress) s =
     (print [Text ''progress: '', Text job, Text '' '', Count progress, endl] s, None)"
| "job_call Job_cancelled (JobEvent job progress) s = (print [Text ''this line is cancelled'', endl] s, None)"
| "job_call Timeout_event (TimeoutEvent name) s = (print [Text ''this line should not print'', endl] s, None)"
| "job_call _ _ s = (s, None)"

fun job_thunk :: "job_fn \<Rightarrow> job_state \<Rightarrow> job_state \<times> exn option" where
  "job_thunk Timeout_fired s = (print [Text ''timeout fired'', endl] s, None)"
| "job_thunk _ s = (s, None)"

definition job_code :: "(job_event, job_fn, unit, job_state) user_code" where
  "job_code = no_code\<lparr>uc_call := job_call, uc_pred := job_pred, uc_thunk := job_thunk\<rparr>"

text \<open>
  \<^verbatim>\<open>sleep_for\<close> is no statement of the model: the readings of the clock after it are later. The discarded
  handles of the awaiters are dropped at once, the one of the stream at the end.
\<close>

definition drop_handle :: "nat \<times> job_state \<Rightarrow> job_state" where
  "drop_handle r = aw_release (fst r) (snd r)"

definition await_and_cancel_main :: "job_state stmt" where
  "await_and_cancel_main = run_stmts
    [ simple (EventEndpoint_init 1),
      simple (\<lambda>s. drop_handle (await_once Job_type 1 (Some (User_pred Progress_complete)) (Some (User_fn Job_finished))
                AwaitOptions_init s)),
      simple (\<lambda>s. let (a, s) = await_every Job_type 1 (Some (User_fn Job_progress)) AwaitOptions_init s
                  in s\<lparr>locals := (locals s)\<lparr>progress_stream := a\<rparr>\<rparr>),
      simple (ep_post Job_type (JobEvent ''compile'' 10)),
      simple (ep_post Job_type (JobEvent ''compile'' 100)),
      do_process job_code,
      simple (\<lambda>s. aw_cancel (progress_stream (locals s)) s),
      ep_emit job_code Job_type (JobEvent ''compile'' 200),
      simple (\<lambda>s. let (c, st) = CancellationSource_init (aw_tokens s)
                  in s\<lparr>aw_tokens := st, locals := (locals s)\<lparr>source := c\<rparr>\<rparr>),
      simple (\<lambda>s. drop_handle (await_next Job_type 1 (Some (User_fn Job_cancelled))
                (AwaitOptions_init\<lparr>ao_token := source_token (source (locals s))\<rparr>) s)),
      simple (\<lambda>s. s\<lparr>aw_tokens := source_cancel (source (locals s)) (aw_tokens s)\<rparr>),
      ep_emit job_code Job_type (JobEvent ''compile'' 300),
      simple (\<lambda>s. drop_handle (await_next Timeout_type 1 (Some (User_fn Timeout_event))
                ((timeout_ms 1)\<lparr>ao_on_timeout := Some (User_thunk Timeout_fired)\<rparr>) s)),
      do_process job_code,
      simple (\<lambda>s. aw_release (progress_stream (locals s)) s),
      simple (ep_destroy 1) ]"

definition job_locals_init :: job_locals where
  "job_locals_init = \<lparr> progress_stream = 0, source = \<lparr> cs_state = None \<rparr> \<rparr>"

text \<open>
  The clock is read twice, for the deadline of the last awaiter and by the last \<^verbatim>\<open>process()\<close>. After
  a sleep of 2 ms the time-out of 1 ms fires.
\<close>

lemma await_and_cancel_prints:
  assumes "clock 0 + milliseconds 2 \<le> clock 1"
  shows "cout (snd (await_and_cancel_main (demo_init clock job_locals_init))) =
     [Text ''progress: '', Text ''compile'', Text '' '', Count 10, endl,
      Text ''job finished: '', Text ''compile'', endl,
      Text ''progress: '', Text ''compile'', Text '' '', Count 100, endl,
      Text ''timeout fired'', endl]"
proof -
  have "clock 0 + 1000000 \<le> clock 1" using assms by (simp add: milliseconds_def)
  then show ?thesis
    by (simp add: await_and_cancel_main_def job_code_def drop_handle_def job_locals_init_def demo_eval cong: demo_congs)
qed

end
