(* ===== verification/Example_Tasks.thy ===== *)
theory Example_Tasks
  imports Task_Drain Example_Base
begin

text \<open>
  \<^verbatim>\<open>examples/task_manager.cpp\<close>: a program that submits seven tasks and drives the manager with its own loop
  until the last of them has cleared the flag \<^verbatim>\<open>running\<close> and nothing is pending. The local variables the
  tasks capture extend the manager. Every reading of a clock is an argument.
\<close>

section \<open>The program\<close>

datatype demo_task = Answer | Normal_task | High_task | Delayed_task | Deadline_task | System_task | Stop_running

text \<open>\<open>future\<close> is the value the future \<^verbatim>\<open>answer\<close> holds once the packaged task ran.\<close>

record demo_locals =
  running :: bool
  log :: "string list"
  future :: "nat option"

type_synonym demo_tm = "(demo_task, demo_locals) TM_scheme"

fun demo_effect :: "demo_task \<Rightarrow> demo_locals \<Rightarrow> demo_locals" where
  "demo_effect Answer l = l\<lparr>future := Some 42\<rparr>"
| "demo_effect Normal_task l = l\<lparr>log := log l @ [''normal task'']\<rparr>"
| "demo_effect High_task l = l\<lparr>log := log l @ [''high priority task'']\<rparr>"
| "demo_effect Delayed_task l = l\<lparr>log := log l @ [''delayed task'']\<rparr>"
| "demo_effect Deadline_task l = l\<lparr>log := log l @ [''deadline task'']\<rparr>"
| "demo_effect System_task l = l\<lparr>log := log l @ [''system-time task'']\<rparr>"
| "demo_effect Stop_running l = l\<lparr>running := False\<rparr>"

abbreviation start_locals :: demo_locals where
  "start_locals \<equiv> \<lparr> running = True, log = [], future = None \<rparr>"

definition demo_run :: "(demo_task, demo_tm) runner" where
  "demo_run f ctx s = (TM.more_update (demo_effect f) s, None)"

definition demo_hrun :: "(demo_task, demo_tm) handler_runner" where
  "demo_hrun h x s = (s, None)"

text \<open>
  The statements before the loop. \<open>c\<close> and \<open>sys\<close> are the readings of the steady and the system clock in
  order; the notifier is number 0. \<^verbatim>\<open>system_deadline_ms\<close> is a whole number of milliseconds.
\<close>

definition demo_setup :: "(nat \<Rightarrow> time) \<Rightarrow> (nat \<Rightarrow> time) \<Rightarrow> demo_tm" where
  "demo_setup c sys =
     (let s = TM.extend (TaskManager_init None) start_locals;
          s = set_notifier (Some 0) s;
          s = snd (submit Answer default_TaskOptions s);
          s = snd (post (NoArgModel Normal_task) default_TaskOptions s);
          s = snd (post (NoArgModel High_task) \<lparr> opt_priority = high \<rparr> s);
          s = snd (post_after_ms (c 0) (c 1) 2 (NoArgModel Delayed_task) default_TaskOptions s);
          s = snd (add_task_at (c 3) (c 2 + milliseconds 3) (NoArgModel Deadline_task) default_TaskOptions s);
          system_deadline_ms = (sys 0 + milliseconds 4) div milliseconds 1;
          s = snd (add_task_at_system_ms (sys 1) (c 4) (c 5) system_deadline_ms (NoArgModel System_task) default_TaskOptions s)
      in snd (post_after_ms (c 6) (c 7) 6 (NoArgModel Stop_running) default_TaskOptions s))"

text \<open>
  The loop. In iteration \<open>j\<close>, \<open>now j\<close> and \<open>nows j\<close> are the readings inside \<^verbatim>\<open>process()\<close> and \<open>wait j\<close> is that of
  \<^verbatim>\<open>recommend_wait_for_ms\<close>. The wait on the notifier changes nothing but the clock. \<open>None\<close>: not ended within the
  fuel.
\<close>

fun demo_loop ::
  "(nat \<Rightarrow> time) \<Rightarrow> (nat \<Rightarrow> nat \<Rightarrow> time \<times> time) \<Rightarrow> (nat \<Rightarrow> time) \<Rightarrow> nat \<Rightarrow> nat \<Rightarrow> demo_tm \<Rightarrow> (exn option \<times> demo_tm) option"
where
  "demo_loop now nows wait 0 j s = None"
| "demo_loop now nows wait (Suc fuel) j s =
     (if \<not> (running (TM.more s) \<or> has_pending s) then Some (None, s)
      else case process demo_run demo_hrun (now j) (nows j) 128 s of
             (Inl x, s) \<Rightarrow> Some (Some x, s)
           | (Inr work_done, s) \<Rightarrow>
               if work_done \<noteq> 0 then demo_loop now nows wait fuel (Suc j) s
               else demo_loop now nows wait fuel (Suc j) (snd (recommend_wait_for_ms (wait j) 1 s)))"

text \<open>What is printed after the loop: \<^verbatim>\<open>answer.get()\<close>, which waits while the future holds no value, and the log.\<close>

definition demo_output :: "demo_locals \<Rightarrow> string list option" where
  "demo_output l = map_option (\<lambda>v. (''future result: '' @ to_string v) # log l) (future l)"

section \<open>The tasks submitted\<close>

definition demo_tasks :: "demo_task Task multiset" where
  "demo_tasks = {#NoArgModel Answer, NoArgModel Normal_task, NoArgModel High_task, NoArgModel Delayed_task,
     NoArgModel Deadline_task, NoArgModel System_task, NoArgModel Stop_running#}"

text \<open>
  The state after \<open>k\<close> submissions: the tasks accepted, and those of them in the high and in the normal queue.
\<close>

definition submitted :: "demo_task Task multiset \<Rightarrow> demo_task Task list \<Rightarrow> demo_task Task list \<Rightarrow> nat \<Rightarrow> demo_tm \<Rightarrow> bool" where
  "submitted M h ns k s \<longleftrightarrow> one_shot s \<and> image_mset e_task (live s) = M \<and> (\<forall>e \<in># live_delayed s. e_priority e = normal) \<and>
     map e_task (live_in s queued_ready (tm_ready s 0)) = h \<and> map e_task (live_in s queued_ready (tm_ready s 1)) = ns \<and>
     TM.more s = start_locals \<and> \<not> tm_closed s \<and> tm_next_id s = of_nat (Suc k)"

lemma of_nat_Suc_nonzero: "k < 100 \<Longrightarrow> (of_nat (Suc k) :: u64) \<noteq> 0"
  by (rule of_nat_word_nonzero) simp_all

lemma submitted_accepted:
  assumes sub: "submitted M h ns k s" and acc: "accepted t p due s s'" and p: "p \<noteq> low" "due = None \<or> p = normal"
  shows "submitted (add_mset t M) (h @ (if p = high then [t] else [])) (ns @ (if p = normal \<and> due = None then [t] else [])) (Suc k) s'"
proof -
  from acc obtain e where e: "e_task e = t" "e_priority e = p" and l: "live s' = add_mset e (live s)"
    and d: "live_delayed s' = (if due = None then live_delayed s else add_mset e (live_delayed s))"
    and q: "\<And>q. q < 3 \<Longrightarrow> live_in s' queued_ready (tm_ready s' q) =
      live_in s queued_ready (tm_ready s q) @ (if due = None then of_priority q [e] else [])"
    by (rule accepted_live) blast
  show ?thesis
    using sub acc e l q [of 0] q [of 1] d p by (cases p; cases due) (auto simp: submitted_def accepted_def of_priority_def)
qed

lemma submitted_ready: "submitted M h ns k s \<Longrightarrow> k < 100 \<Longrightarrow> one_shot s \<and> tm_next_id s \<noteq> 0 \<and> \<not> tm_closed s"
  using of_nat_Suc_nonzero [of k] by (simp add: submitted_def)

lemma submitted_post:
  assumes sub: "submitted M h ns k s" and k: "k < 100" and p: "opt_priority opt \<noteq> low"
  shows "submitted (add_mset (NoArgModel f) M) (h @ (if opt_priority opt = high then [NoArgModel f] else []))
    (ns @ (if opt_priority opt = normal then [NoArgModel f] else [])) (Suc k) (snd (post (NoArgModel f) opt s))"
proof -
  have "accepted (NoArgModel f) (opt_priority opt) None s (snd (post (NoArgModel f) opt s))"
    using submitted_ready [OF sub k] by (simp add: accepted_post)
  from submitted_accepted [OF sub this p] show ?thesis by simp
qed

text \<open>From the fourth task on, a task is ready at once when the clock has passed its time.\<close>

definition submitted_more :: "demo_task Task multiset \<Rightarrow> demo_task Task list \<Rightarrow> demo_task Task list \<Rightarrow> nat \<Rightarrow> demo_tm \<Rightarrow> bool" where
  "submitted_more M h ns k s \<longleftrightarrow> (\<exists>rest. submitted M h (ns @ rest) k s)"

lemma submitted_post_at:
  assumes more: "submitted_more M h ns k s" and k: "k < 100"
  shows "submitted_more (add_mset (NoArgModel f) M) h ns (Suc k) (snd (post_at now due (NoArgModel f) default_TaskOptions s))"
proof -
  obtain rest where sub: "submitted M h (ns @ rest) k s" using more by (auto simp: submitted_more_def)
  have "accepted (NoArgModel f) normal (if due \<le> now then None else Some due) s (snd (post_at now due (NoArgModel f) default_TaskOptions s))"
    using accepted_post_at [of s "NoArgModel f" default_TaskOptions due now] submitted_ready [OF sub k]
    by (simp add: default_TaskOptions_def)
  from submitted_accepted [OF sub this] show ?thesis by (auto simp: submitted_more_def)
qed

text \<open>The other ways to submit later work end in \<^verbatim>\<open>post_at\<close>.\<close>

lemma submitted_later:
  assumes "submitted_more M h ns k s" "k < 100"
  shows "submitted_more (add_mset (NoArgModel f) M) h ns (Suc k) (snd (post_after_ms n1 n2 d (NoArgModel f) default_TaskOptions s))"
    "submitted_more (add_mset (NoArgModel f) M) h ns (Suc k) (snd (add_task_at n1 due (NoArgModel f) default_TaskOptions s))"
    "submitted_more (add_mset (NoArgModel f) M) h ns (Suc k)
       (snd (add_task_at_system_ms sn n1 n2 t (NoArgModel f) default_TaskOptions s))"
  using submitted_post_at [OF assms]
  by (simp_all add: post_after_ms_def post_after_def add_task_at_def add_task_at_system_ms_def add_task_at_system_def Let_def)

lemma submitted_init: "submitted {#} [] [] 0 (set_notifier (Some 0) (TM.extend (TaskManager_init None) start_locals))"
  (is "submitted _ _ _ _ ?s")
proof -
  let ?n = "TM.extend (TaskManager_init None) start_locals :: demo_tm"
  have "one_shot ?n" by (rule one_shot_extend_init)
  then have "tm_inv [] [] [] ?n" by (simp add: one_shot_def)
  then have "tm_inv [] [] [] ?s" by (rule tm_inv_frame) (simp_all add: same_queues_def set_notifier_def)
  then show ?thesis
    by (simp add: submitted_def one_shot_def live_def live_in_def live_delayed_def ready_list_def TaskManager_init_def
        set_notifier_def TM.extend_def)
qed

lemma snd_submit: "snd (submit f opt s) = snd (post (NoArgModel f) opt s)"
  by (simp add: submit_def case_prod_beta)

lemma submitted_at_once:
  "submitted {#NoArgModel High_task, NoArgModel Normal_task, NoArgModel Answer#} [NoArgModel High_task]
     [NoArgModel Answer, NoArgModel Normal_task] 3
     (snd (post (NoArgModel High_task) \<lparr> opt_priority = high \<rparr>
       (snd (post (NoArgModel Normal_task) default_TaskOptions
         (snd (submit Answer default_TaskOptions (set_notifier (Some 0) (TM.extend (TaskManager_init None) start_locals))))))))"
proof -
  let ?s0 = "set_notifier (Some 0) (TM.extend (TaskManager_init None) start_locals)"
  have "submitted {#NoArgModel Answer#} [] [NoArgModel Answer] (Suc 0) (snd (submit Answer default_TaskOptions ?s0))"
    using submitted_post [OF submitted_init, of default_TaskOptions Answer] by (simp add: snd_submit default_TaskOptions_def)
  from submitted_post [OF this, of default_TaskOptions Normal_task]
  have "submitted {#NoArgModel Normal_task, NoArgModel Answer#} [] [NoArgModel Answer, NoArgModel Normal_task] (Suc (Suc 0))
      (snd (post (NoArgModel Normal_task) default_TaskOptions (snd (submit Answer default_TaskOptions ?s0))))"
    by (simp add: default_TaskOptions_def)
  from submitted_post [OF this, of "\<lparr> opt_priority = high \<rparr>" High_task] show ?thesis
    by (simp add: numeral_3_eq_3)
qed

lemma demo_setup_submitted:
  "submitted_more demo_tasks [NoArgModel High_task] [NoArgModel Answer, NoArgModel Normal_task] 7 (demo_setup c sys)"
proof -
  note at_once = submitted_more_def [THEN iffD2, OF exI [of _ "[]"], simplified, OF submitted_at_once]
  have "submitted_more {#NoArgModel Stop_running, NoArgModel System_task, NoArgModel Deadline_task, NoArgModel Delayed_task,
      NoArgModel High_task, NoArgModel Normal_task, NoArgModel Answer#} [NoArgModel High_task]
      [NoArgModel Answer, NoArgModel Normal_task] (Suc (Suc (Suc (Suc 3)))) (demo_setup c sys)"
    unfolding demo_setup_def Let_def by (rule submitted_later at_once | simp)+
  then show ?thesis by (simp add: demo_tasks_def add_mset_commute)
qed

section \<open>The loop\<close>

lemma demo_leaves_manager: "leaves_manager demo_run id demo_effect"
proof -
  have "\<exists>z ns. demo_run f ctx s = (TM.more_update (\<lambda>_. z) (s\<lparr>tm_notified := ns\<rparr>), None) \<and> z = demo_effect f (TM.more s)" for f ctx s
    by (intro exI [of _ "demo_effect f (TM.more s)"] exI [of _ "tm_notified s"], cases s) (simp add: demo_run_def)
  then show ?thesis by (simp add: leaves_manager_def)
qed

text \<open>What the tasks have done once they ran, whatever their order.\<close>

fun demo_line :: "demo_task Task \<Rightarrow> string list" where
  "demo_line t = log (task_effect demo_effect t start_locals)"

lemma demo_effect_log: "log (task_effect demo_effect t l) = log l @ demo_line t"
proof (cases t)
  case (NoArgModel f) then show ?thesis by (cases f) simp_all
next
  case (ContextModel f) then show ?thesis by (cases f) simp_all
qed simp

lemma demo_effect_flags:
  "running (task_effect demo_effect (NoArgModel f) l) = (running l \<and> f \<noteq> Stop_running)"
  "future (task_effect demo_effect (NoArgModel f) l) = (if f = Answer then Some 42 else future l)"
  by (cases f; simp)+

lemma demo_effects_log: "log (fold (task_effect demo_effect) ts l) = log l @ concat (map demo_line ts)"
  by (induction ts arbitrary: l) (simp_all add: demo_effect_log del: demo_line.simps)

lemma demo_effects_flags:
  assumes "set ts \<subseteq> range NoArgModel"
  shows "running (fold (task_effect demo_effect) ts l) = (running l \<and> NoArgModel Stop_running \<notin> set ts)"
    "future (fold (task_effect demo_effect) ts l) = (if NoArgModel Answer \<in> set ts then Some 42 else future l)"
  using assms by (induction ts arbitrary: l) (auto simp: demo_effect_flags simp del: task_effect.simps split: if_splits)

text \<open>The states of the loop.\<close>

definition draining :: "time \<Rightarrow> demo_tm \<Rightarrow> bool" where
  "draining T s \<longleftrightarrow> one_shot s \<and> size (live s) \<le> 128 \<and> (\<forall>e \<in># live_delayed s. e_due e \<le> T \<and> e_priority e = normal) \<and>
     set_mset (image_mset e_task (live s)) \<subseteq> range NoArgModel \<and>
     (running (TM.more s) \<longrightarrow> NoArgModel Stop_running \<in># image_mset e_task (live s))"

lemma draining_recommend: "draining T s \<Longrightarrow> draining T (snd (recommend_wait_for_ms now cap s))"
  by (simp add: draining_def one_shot_recommend)

lemma demo_call:
  assumes d: "draining T s" and call: "process demo_run demo_hrun now nows 128 s = (r, s')"
  obtains order rest where "r = Inr (length order)" "draining T s'"
    "mset order + image_mset e_task (live s') = image_mset e_task (live s)"
    "TM.more s' = fold (task_effect demo_effect) order (TM.more s)" "T \<le> now \<longrightarrow> live s' = {#}"
    "order = map e_task (live_in s queued_ready (tm_ready s 0)) @ map e_task (live_in s queued_ready (tm_ready s 1)) @ rest"
proof -
  have os: "one_shot s" "size (live s) \<le> 128" using d by (simp_all add: draining_def)
  obtain due where due: "mset due = filter_mset (\<lambda>e. e_due e \<le> now) (live_delayed s)" "r = Inr (length (in_line s due))"
    "one_shot s'" "mset (in_line s due) + live s' = live s" "live s' = filter_mset (\<lambda>e. now < e_due e) (live_delayed s)"
    "live_delayed s' = live s'" "TM.more s' = fold (task_effect demo_effect) (map e_task (in_line s due)) (TM.more s)"
    by (rule one_shot_process_room [OF demo_leaves_manager os(1) _ os(2) call]) simp_all
  let ?order = "map e_task (in_line s due)"
  have all: "mset ?order + image_mset e_task (live s') = image_mset e_task (live s)"
    by (simp flip: due(4))
  have tasks: "set ?order \<subseteq> range NoArgModel" "set_mset (image_mset e_task (live s')) \<subseteq> range NoArgModel"
    using d unfolding draining_def all [symmetric] by auto
  have d': "draining T s'"
    using d tasks(2) unfolding draining_def all [symmetric] due(4) [symmetric]
    by (auto simp: due(3,5,6,7) demo_effects_flags [OF tasks(1)])
  have none: "T \<le> now \<longrightarrow> live s' = {#}"
  proof
    assume "T \<le> now"
    have "\<not> now < e_due e" if "e \<in># live_delayed s" for e
      using d that \<open>T \<le> now\<close> by (fastforce simp: draining_def)
    then show "live s' = {#}" by (auto simp: due(5) filter_mset_eq_conv)
  qed
  have "\<forall>e \<in># mset due. e_priority e = normal" using d unfolding due(1) by (auto simp: draining_def)
  then have "of_priority 0 due = []" by (auto simp: of_priority_def filter_empty_conv)
  then obtain rest where front: "?order = map e_task (live_in s queued_ready (tm_ready s 0)) @ map e_task (live_in s queued_ready (tm_ready s 1)) @ rest"
    by (simp add: in_line_def)
  show thesis by (rule that [OF _ d' all due(7) none front]) (simp add: due(2))
qed

text \<open>
  The loop ends after the first call at which the clock has reached all due times, at the latest. It runs every
  live task once, those ready at its entry first.
\<close>

lemma demo_loop_ends:
  assumes "T \<le> now N"
  shows "draining T s \<Longrightarrow> j \<le> Suc N \<Longrightarrow> j = Suc N \<longrightarrow> live s = {#} \<Longrightarrow>
    \<exists>fuel s' order rest. demo_loop now nows wait fuel j s = Some (None, s') \<and> one_shot s' \<and> live s' = {#} \<and>
      order = map e_task (live_in s queued_ready (tm_ready s 0)) @ map e_task (live_in s queued_ready (tm_ready s 1)) @ rest \<and>
      mset order = image_mset e_task (live s) \<and> TM.more s' = fold (task_effect demo_effect) order (TM.more s)"
proof (induction "Suc N - j" arbitrary: j s rule: less_induct)
  case (less j s)
  have os: "one_shot s" "size (live s) \<le> 128" using less.prems(1) by (simp_all add: draining_def)
  have pending: "has_pending s \<longleftrightarrow> live s \<noteq> {#}"
    using one_shot_pending [OF os(1)] of_nat_word_nonzero [of "size (live s)", where ?'a = 64] os(2)
    by (cases "size (live s) = 0") (simp_all add: has_pending_def nonempty_has_size)
  show ?case
  proof (cases "live s = {#}")
    case True
    then have "\<not> running (TM.more s)" using less.prems(1) by (simp add: draining_def)
    then have "demo_loop now nows wait 1 j s = Some (None, s)" using pending True by simp
    then show ?thesis using os True by (intro exI [of _ 1] exI [of _ s] exI [of _ "[]"] exI [of _ "[]"]) (simp add: live_queues)
  next
    case False
    obtain r s1 where call: "process demo_run demo_hrun (now j) (nows j) 128 s = (r, s1)" by fastforce
    obtain order rest where order: "r = Inr (length order)" "draining T s1"
      "mset order + image_mset e_task (live s1) = image_mset e_task (live s)"
      "TM.more s1 = fold (task_effect demo_effect) order (TM.more s)" "T \<le> now j \<longrightarrow> live s1 = {#}"
      "order = map e_task (live_in s queued_ready (tm_ready s 0)) @ map e_task (live_in s queued_ready (tm_ready s 1)) @ rest"
      by (rule demo_call [OF less.prems(1) call])
    define s2 where "s2 = (if length order \<noteq> 0 then s1 else snd (recommend_wait_for_ms (wait j) 1 s1))"
    have s2: "draining T s2" "live s2 = live s1" "TM.more s2 = TM.more s1"
      using order(2) draining_recommend [OF order(2), of "wait j" 1] one_shot_recommend [of s1 "wait j" 1]
      by (simp_all add: s2_def draining_def)
    have j: "j \<le> N" using less.prems(2,3) False by (cases "j = Suc N") auto
    have step: "demo_loop now nows wait (Suc fuel) j s = demo_loop now nows wait fuel (Suc j) s2" for fuel
      using pending False call order(1) by (simp add: s2_def)
    have "Suc N - Suc j < Suc N - j" "Suc j \<le> Suc N" "Suc j = Suc N \<longrightarrow> live s2 = {#}"
      using j order(5) assms by (auto simp: s2(2))
    from less.hyps [OF this(1) s2(1) this(2,3)] obtain fuel s' rest' where
      "demo_loop now nows wait fuel (Suc j) s2 = Some (None, s')" "one_shot s'" "live s' = {#}"
      and o: "mset rest' = image_mset e_task (live s2)" "TM.more s' = fold (task_effect demo_effect) rest' (TM.more s2)"
      by blast
    then have "demo_loop now nows wait (Suc fuel) j s = Some (None, s') \<and> one_shot s' \<and> live s' = {#}" by (simp only: step)
    moreover have "mset (order @ rest') = image_mset e_task (live s)"
      "TM.more s' = fold (task_effect demo_effect) (order @ rest') (TM.more s)"
      using order(3,4) o s2(2,3) by simp_all
    ultimately show ?thesis
      using order(6) by (intro exI [of _ "Suc fuel"] exI [of _ s'] exI [of _ "order @ rest'"] exI [of _ "rest @ rest'"]) simp
  qed
qed

lemma mset_concat_map: "mset (concat (map f xs)) = (\<Sum>x \<in># mset xs. mset (f x))"
  by (induction xs) simp_all

lemma due_bound: "\<exists>T. \<forall>e \<in># M. e_due e \<le> (T :: time)"
proof (induction M)
  case (add e M)
  then obtain T where "\<forall>e \<in># M. e_due e \<le> T" ..
  then have "\<forall>a \<in># add_mset e M. e_due a \<le> max T (e_due e)" by (auto intro: le_max_iff_disj [THEN iffD2])
  then show ?case ..
qed simp

text \<open>What the program prints after its loop.\<close>

lemma demo_order_output:
  assumes "order = NoArgModel High_task # NoArgModel Answer # NoArgModel Normal_task # rest" "mset order = demo_tasks"
  shows "\<exists>lines. demo_output (fold (task_effect demo_effect) order start_locals) =
      Some (''future result: 42'' # ''high priority task'' # ''normal task'' # lines) \<and>
    mset lines = {#''delayed task'', ''deadline task'', ''system-time task''#}"
proof -
  have rest: "mset rest = {#NoArgModel Delayed_task, NoArgModel Deadline_task, NoArgModel System_task, NoArgModel Stop_running#}"
    using assms by (simp add: demo_tasks_def add_mset_commute)
  have "set_mset (mset order) \<subseteq> range NoArgModel" unfolding assms(2) by (simp add: demo_tasks_def)
  then have "future (fold (task_effect demo_effect) order start_locals) = Some 42"
    using demo_effects_flags(2) [of order start_locals] assms(1) by simp
  moreover have "log (fold (task_effect demo_effect) order start_locals) =
      ''high priority task'' # ''normal task'' # concat (map demo_line rest)"
    unfolding demo_effects_log by (simp add: assms(1))
  moreover have "mset (concat (map demo_line rest)) = {#''delayed task'', ''deadline task'', ''system-time task''#}"
    unfolding mset_concat_map rest by simp
  ultimately show ?thesis by (simp add: demo_output_def to_string.simps char_of_def bit_0)
qed

text \<open>
  C9: the program ends and loses nothing. Whatever the clocks read while it submits its tasks, if the
  clock read by \<^verbatim>\<open>process()\<close> reaches every time eventually, then the loop of \<^verbatim>\<open>main\<close> ends without an exception, no
  task is pending then, and the program prints the value of its future, the line of the high-priority task, the line
  of the normal one, and each of the three delayed lines once.
\<close>

theorem task_manager_example_ends:
  assumes "\<forall>t. \<exists>j. t \<le> now j"
  shows "\<exists>fuel s lines. demo_loop now nows wait fuel 0 (demo_setup c sys) = Some (None, s) \<and> \<not> has_pending s \<and>
    demo_output (TM.more s) = Some (''future result: 42'' # ''high priority task'' # ''normal task'' # lines) \<and>
    mset lines = {#''delayed task'', ''deadline task'', ''system-time task''#}"
proof -
  let ?s = "demo_setup c sys"
  obtain r where sub: "submitted demo_tasks [NoArgModel High_task] ([NoArgModel Answer, NoArgModel Normal_task] @ r) 7 ?s"
    using demo_setup_submitted by (auto simp: submitted_more_def)
  obtain T where T: "\<forall>e \<in># live_delayed ?s. e_due e \<le> T" using due_bound ..
  obtain N where N: "T \<le> now N" using assms by blast
  have "size (live ?s) = size demo_tasks" using sub by (metis size_image_mset submitted_def)
  then have d: "draining T ?s" using sub T by (simp add: draining_def submitted_def demo_tasks_def)
  obtain fuel s order rest where loop: "demo_loop now nows wait fuel 0 ?s = Some (None, s)" "one_shot s" "live s = {#}"
    "order = map e_task (live_in ?s queued_ready (tm_ready ?s 0)) @ map e_task (live_in ?s queued_ready (tm_ready ?s 1)) @ rest"
    "mset order = image_mset e_task (live ?s)" "TM.more s = fold (task_effect demo_effect) order (TM.more ?s)"
    using demo_loop_ends [of T now N ?s 0 nows wait, OF N d] by blast
  have order: "order = NoArgModel High_task # NoArgModel Answer # NoArgModel Normal_task # (r @ rest)" "mset order = demo_tasks"
    "TM.more ?s = start_locals"
    using sub loop(4,5) by (simp_all add: submitted_def)
  have "\<not> has_pending s" using one_shot_pending [OF loop(2)] loop(3) by (simp add: has_pending_def)
  moreover obtain lines where "demo_output (TM.more s) = Some (''future result: 42'' # ''high priority task'' # ''normal task'' # lines)"
    "mset lines = {#''delayed task'', ''deadline task'', ''system-time task''#}"
    using demo_order_output [OF order(1,2)] unfolding loop(6) order(3) by blast
  ultimately show ?thesis using loop(1) by blast
qed

theorem task_manager_example_ends_witness:
  "\<exists>fuel s lines. demo_loop (\<lambda>j. milliseconds (int j)) (\<lambda>j i. (0, 0)) (\<lambda>j. 0) fuel 0 (demo_setup (\<lambda>i. 0) (\<lambda>i. 0)) =
      Some (None, s) \<and> \<not> has_pending s \<and>
    demo_output (TM.more s) = Some (''future result: 42'' # ''high priority task'' # ''normal task'' # lines) \<and>
    mset lines = {#''delayed task'', ''deadline task'', ''system-time task''#}"
proof (rule task_manager_example_ends)
  have "t \<le> milliseconds (int (nat t))" for t by (simp add: milliseconds_def)
  then show "\<forall>t. \<exists>j. t \<le> milliseconds (int j)" by blast
qed

end
