(* ===== verification/World_Drain.thy ===== *)
theory World_Drain
  imports Task_Drain Hub_World Example_Base
begin

text \<open>
  Task managers of one-shot tasks and a bus with one subscriber inside the world: what one
  \<^verbatim>\<open>process()\<close> call of either does to the world, when the tasks only post events and the callbacks use
  neither the bus nor the managers.
\<close>

section \<open>Views of the world\<close>

definition new_bus :: "('v, 'u, 'h) EPS" where
  "new_bus = \<lparr> w_strong = (\<lambda>_. 0), w_clock = (\<lambda>_. 0), w_reads = 0, bus_callbacks = Map.empty, bus_queue = [],
     bus_awaiters = [], bus_handler = None, bus_next_subscription = 1, bus_request_ids = 1, bus_notifier = None,
     bus_notified = [], aw_store = Map.empty, aw_next_object = 1, aw_tokens = [], aw_futures = [],
     eps_store = (\<lambda>_. \<lparr> ep_guard = None, ep_closed = True, ep_awaiters = [] \<rparr>) \<rparr>"

text \<open>All but the buses, managers and notifiers.\<close>

definition core :: "('v, 'u, 'h, 'k, 'z) WORLD_scheme \<Rightarrow> ('v, 'u, 'h, 'k, 'z) WORLD_scheme" where
  "core w = w\<lparr>wd_buses := (\<lambda>_. new_bus), wd_tms := (\<lambda>_. TaskManager_init None), wd_notifiers := (\<lambda>_. SyncNotifier_init)\<rparr>"

lemma notify_id_views [simp]:
  "wd_buses (fold notify_id ns w) = wd_buses w" "wd_tms (fold notify_id ns w) = wd_tms w"
  "core (fold notify_id ns w) = core w" "wd_reads (fold notify_id ns w) = wd_reads w" "wd_clock (fold notify_id ns w) = wd_clock w"
  by (induction ns arbitrary: w) (simp_all add: notify_id_def core_def)

lemma core_updates [simp]:
  "core (w\<lparr>wd_buses := b\<rparr>) = core w" "core (w\<lparr>wd_tms := t\<rparr>) = core w" "core (w\<lparr>wd_notifiers := n\<rparr>) = core w"
  "core (w\<lparr>wd_reads := k\<rparr>) = (core w)\<lparr>wd_reads := k\<rparr>"
  by (simp_all add: core_def)

lemma leave_tm_views [simp]:
  "wd_buses (leave_tm t s) = wd_buses (TM.more s)" "core (leave_tm t s) = core (TM.more s)"
  "wd_tms (leave_tm t s) = (wd_tms (TM.more s))(t := (TM.truncate s)\<lparr>tm_notified := []\<rparr>)"
  by (simp_all add: leave_tm_def Let_def)

lemma leave_bus_views [simp]:
  "wd_tms (leave_bus b s) = wd_tms (EPS.more s)" "core (leave_bus b s) = core (EPS.more s)"
  "wd_buses (leave_bus b s) = (wd_buses (EPS.more s))(b := (EPS.truncate s)\<lparr>bus_notified := []\<rparr>)"
  by (simp_all add: leave_bus_def Let_def)

definition no_hub_code :: "('v, 'u, 'h, 'k, 's) hub_code" where
  "no_hub_code = \<lparr> hc_call = (\<lambda>u v w. (w, None)), hc_listener = (\<lambda>u v w. (w, None)), hc_pred = (\<lambda>u v w. (Inr True, w)),
     hc_thunk = (\<lambda>u w. (w, None)), hc_handler = (\<lambda>h x w. (w, None)), hc_get_id = (\<lambda>v. 0), hc_set_id = (\<lambda>i v. v),
     hc_task = (\<lambda>k ctx w. (w, None)), hc_task_handler = (\<lambda>k x w. (w, None)) \<rparr>"

section \<open>Managers\<close>

text \<open>Managers that differ in their notifier, its notifications and what extends them only.\<close>

definition same_manager :: "('f, 'z) TM_scheme \<Rightarrow> ('f, 'z) TM_scheme \<Rightarrow> bool" where
  "same_manager s s' \<longleftrightarrow> (\<exists>ns nt z. s' = TM.more_update (\<lambda>_. z) (s\<lparr>tm_notified := ns, tm_notifier := nt\<rparr>))"

lemma same_manager_views:
  assumes "same_manager s s'"
  shows "live s' = live s" "live_delayed s' = live_delayed s" "live_in s' v (tm_ready s' q) = live_in s v (tm_ready s q)"
    "in_line s' due = in_line s due" "one_shot s' = one_shot s" "tm_closed s' = tm_closed s" "tm_next_id s' = tm_next_id s"
proof -
  obtain ns nt z where s': "s' = TM.more_update (\<lambda>_. z) (s\<lparr>tm_notified := ns, tm_notifier := nt\<rparr>)"
    using assms by (auto simp: same_manager_def)
  note views = live_in_def live_delayed_def ready_list_def in_state_def [abs_def] entry_state_def
  show l: "live s' = live s" "live_delayed s' = live_delayed s" "live_in s' v (tm_ready s' q) = live_in s v (tm_ready s q)"
    "in_line s' due = in_line s due" "tm_closed s' = tm_closed s" "tm_next_id s' = tm_next_id s"
    by (simp_all add: s' live_def in_line_def views)
  have "tm_inv [] [] [] s' = tm_inv [] [] [] s"
    using tm_inv_frame [of "[]" "[]" "[]" s s'] tm_inv_frame [of "[]" "[]" "[]" s' s] by (auto simp: s' same_queues_def)
  then show "one_shot s' = one_shot s" by (simp add: one_shot_def l) (simp add: s')
qed

lemma same_manager_enter: "wd_tms w' t = wd_tms w t \<Longrightarrow> same_manager (enter_tm t w) (enter_tm t w')"
  unfolding same_manager_def
  by (intro exI [of _ "tm_notified (wd_tms w t)"] exI [of _ "tm_notifier (wd_tms w t)"] exI [of _ w'])
    (simp add: enter_tm_def TM.extend_def)

lemma same_manager_leave: "same_manager s (enter_tm t (leave_tm t s))"
  unfolding same_manager_def
  by (intro exI [of _ "[]"] exI [of _ "tm_notifier s"] exI [of _ "leave_tm t s"], cases s)
    (simp add: enter_tm_def TM.extend_def TM.truncate_def)

lemma same_manager_set_notifier: "same_manager s (set_notifier n s)"
  unfolding same_manager_def
  by (intro exI [of _ "tm_notified s"] exI [of _ n] exI [of _ "TM.more s"], cases s) (simp add: set_notifier_def)

lemma enter_tm_more [simp]: "TM.more (enter_tm t w) = w"
  by (simp add: enter_tm_def TM.extend_def)

lemma leave_enter_tm: "wd_tms w' = (wd_tms w)(t := (TM.truncate s)\<lparr>tm_notified := []\<rparr>) \<Longrightarrow>
   enter_tm t w' = TM.more_update (\<lambda>_. w') (s\<lparr>tm_notified := []\<rparr>)"
  by (cases s) (simp add: enter_tm_def TM.extend_def TM.truncate_def)

lemma new_manager:
  assumes "wd_tms w t = TaskManager_init n"
  shows "one_shot (enter_tm t w)" "live (enter_tm t w) = {#}" "live_delayed (enter_tm t w) = {#}" "tm_next_id (enter_tm t w) = 1" "\<not> tm_closed (enter_tm t w)"
    "tm_ready (enter_tm t w) q = []"
proof -
  show l: "one_shot (enter_tm t w)" "live (enter_tm t w) = {#}"
    using one_shot_extend_init [of n w] by (simp_all add: enter_tm_def assms)
  show "live_delayed (enter_tm t w) = {#}" using l(2) by (simp add: live_def)
  show "tm_next_id (enter_tm t w) = 1" "\<not> tm_closed (enter_tm t w)" "tm_ready (enter_tm t w) q = []"
    by (simp_all add: enter_tm_def assms TM.extend_def TaskManager_init_def)
qed

text \<open>Submitting a task in the world: from \<open>w\<close> to \<open>w'\<close> the entry \<open>e\<close> has come to manager \<open>t\<close>.\<close>

definition task_added ::
  "nat \<Rightarrow> 'k Entry \<Rightarrow> time option \<Rightarrow> ('v, 'u, 'h, 'k, 'z) WORLD_scheme \<Rightarrow> ('v, 'u, 'h, 'k, 'z) WORLD_scheme \<Rightarrow> bool"
where
  "task_added t e due w w' \<longleftrightarrow> live (enter_tm t w') = add_mset e (live (enter_tm t w)) \<and>
     live_delayed (enter_tm t w') = (if due = None then live_delayed (enter_tm t w) else add_mset e (live_delayed (enter_tm t w))) \<and>
     (\<forall>d. due = Some d \<longrightarrow> e_due e = d) \<and> one_shot (enter_tm t w') \<and> wd_buses w' = wd_buses w \<and> core w' = core w \<and>
     (\<forall>u. u \<noteq> t \<longrightarrow> wd_tms w' u = wd_tms w u) \<and>
     tm_next_id (enter_tm t w') = tm_next_id (enter_tm t w) + 1 \<and> tm_closed (enter_tm t w') = tm_closed (enter_tm t w) \<and>
     (\<forall>q < 3. live_in (enter_tm t w') queued_ready (tm_ready (enter_tm t w') q) =
        live_in (enter_tm t w) queued_ready (tm_ready (enter_tm t w) q) @ (if due = None then of_priority q [e] else []))"

lemma on_tm_accepted:
  assumes "accepted tk p due (enter_tm t w) (f (enter_tm t w))"
  shows "\<exists>e. e_task e = tk \<and> e_priority e = p \<and> task_added t e due w (on_tm t f w)"
proof -
  let ?s = "f (enter_tm t w)"
  note left = same_manager_views [OF same_manager_leave [of ?s t]]
  have acc: "one_shot ?s" "TM.more ?s = w" "tm_next_id ?s = tm_next_id (enter_tm t w) + 1" "tm_closed ?s = tm_closed (enter_tm t w)"
    using assms by (simp_all add: accepted_def)
  obtain e where e: "e_task e = tk" "e_priority e = p" "live ?s = add_mset e (live (enter_tm t w))"
    "live_delayed ?s = (if due = None then live_delayed (enter_tm t w) else add_mset e (live_delayed (enter_tm t w)))"
    "\<And>d. due = Some d \<Longrightarrow> e_due e = d"
    "\<And>q. q < 3 \<Longrightarrow> live_in ?s queued_ready (tm_ready ?s q) =
       live_in (enter_tm t w) queued_ready (tm_ready (enter_tm t w) q) @ (if due = None then of_priority q [e] else [])"
    by (rule accepted_live [OF assms]) (rule that)
  then show ?thesis by (intro exI [of _ e]) (simp add: task_added_def on_tm_def left acc)
qed

lemma world_post:
  assumes "one_shot (enter_tm t w)" "tm_next_id (enter_tm t w) \<noteq> 0" "\<not> tm_closed (enter_tm t w)"
  shows "\<exists>e. e_task e = NoArgModel f \<and> e_priority e = opt_priority opt \<and> task_added t e None w (on_tm t (\<lambda>s. snd (post (NoArgModel f) opt s)) w)"
  by (rule on_tm_accepted, rule accepted_post) (simp_all add: assms)

lemma world_post_at:
  assumes "one_shot (enter_tm t w)" "tm_next_id (enter_tm t w) \<noteq> 0" "\<not> tm_closed (enter_tm t w)"
  shows "\<exists>e. e_task e = NoArgModel f \<and> e_priority e = opt_priority opt \<and>
    task_added t e (if due \<le> now then None else Some due) w (on_tm t (\<lambda>s. snd (post_at now due (NoArgModel f) opt s)) w)"
  by (rule on_tm_accepted, rule accepted_post_at) (simp_all add: assms)

section \<open>Tasks that post\<close>

definition post_events :: "'v QueuedEvent list \<Rightarrow> ('v, 'u, 'h) EPS \<Rightarrow> ('v, 'u, 'h) EPS" where
  "post_events es b = (if es = [] then b else b\<lparr>bus_queue := bus_queue b @ es, bus_notified := []\<rparr>)"

text \<open>Task \<open>f\<close> posts the events \<open>ev f\<close> on bus 0 and does \<open>k f\<close> to the rest, the managers apart.\<close>

definition tasks_do ::
  "('v, 'u, 'h, 'k, ('v, 'u, 'h, 'k, 'z) WORLD_scheme) hub_code \<Rightarrow> ('k \<Rightarrow> 'v QueuedEvent list) \<Rightarrow>
   ('k \<Rightarrow> ('v, 'u, 'h, 'k, 'z) WORLD_scheme \<Rightarrow> ('v, 'u, 'h, 'k, 'z) WORLD_scheme) \<Rightarrow> bool"
where
  "tasks_do hc ev k \<longleftrightarrow> (\<forall>f ctx w. \<exists>w'. hc_task hc f ctx w = (w', None) \<and> wd_tms w' = wd_tms w \<and>
     wd_buses w' = (wd_buses w)(0 := post_events (ev f) (wd_buses w 0)) \<and> core w' = k f (core w))"

text \<open>Posting through an endpoint is such an effect.\<close>

lemma ep_post_eq:
  "ep_post n v s = s\<lparr>bus_queue := bus_queue s @ [\<lparr> qe_type = n, qe_payload = v \<rparr>],
     bus_notified := bus_notified s @ (case bus_notifier s of None \<Rightarrow> [] | Some m \<Rightarrow> [m])\<rparr>"
  by (cases s; cases "bus_notifier s") (simp_all add: ep_post_def bus_post_def bus_enqueue_def bus_notify_work_available_def)

lemma on_bus_post:
  "wd_buses (on_bus 0 (ep_post n v) w) = (wd_buses w)(0 := post_events [\<lparr> qe_type = n, qe_payload = v \<rparr>] (wd_buses w 0))"
  "wd_tms (on_bus 0 (ep_post n v) w) = wd_tms w" "core (on_bus 0 (ep_post n v) w) = core w"
proof -
  obtain b where b: "wd_buses w 0 = b" by simp
  show "wd_buses (on_bus 0 (ep_post n v) w) = (wd_buses w)(0 := post_events [\<lparr> qe_type = n, qe_payload = v \<rparr>] (wd_buses w 0))"
    by (simp add: on_bus_def enter_bus_def ep_post_eq b, cases b)
      (simp add: EPS.extend_def EPS.truncate_def post_events_def)
qed (simp_all add: on_bus_def enter_bus_def ep_post_eq EPS.extend_def)

text \<open>The part of the world that the tasks of manager \<open>t\<close> see.\<close>

definition seen_by ::
  "nat \<Rightarrow> ('v, 'u, 'h, 'k, 'z) WORLD_scheme \<Rightarrow>
     (nat \<Rightarrow> ('v, 'u, 'h) EPS) \<times> (nat \<Rightarrow> 'k TM) \<times> ('v, 'u, 'h, 'k, 'z) WORLD_scheme"
where
  "seen_by t w = (wd_buses w, (wd_tms w)(t := TaskManager_init None), core w)"

definition task_does ::
  "('k \<Rightarrow> 'v QueuedEvent list) \<Rightarrow> ('k \<Rightarrow> 'w \<Rightarrow> 'w) \<Rightarrow> 'k \<Rightarrow>
   (nat \<Rightarrow> ('v, 'u, 'h) EPS) \<times> 't \<times> 'w \<Rightarrow> (nat \<Rightarrow> ('v, 'u, 'h) EPS) \<times> 't \<times> 'w"
where
  "task_does ev k f = (\<lambda>(b, t, w). (b(0 := post_events (ev f) (b 0)), t, k f w))"

lemma world_leaves_manager:
  assumes "tasks_do hc ev k"
  shows "leaves_manager (task_runner t hc) (seen_by t) (task_does ev k)"
proof -
  have "\<exists>z ns. task_runner t hc f ctx s = (TM.more_update (\<lambda>_. z) (s\<lparr>tm_notified := ns\<rparr>), None) \<and>
      seen_by t z = task_does ev k f (seen_by t (TM.more s))" for f ctx s
  proof -
    obtain w' where w': "hc_task hc f ctx (leave_tm t s) = (w', None)" "wd_tms w' = wd_tms (leave_tm t s)"
      "wd_buses w' = (wd_buses (leave_tm t s))(0 := post_events (ev f) (wd_buses (leave_tm t s) 0))"
      "core w' = k f (core (leave_tm t s))"
      using assms unfolding tasks_do_def by blast
    then have "task_runner t hc f ctx s = (TM.more_update (\<lambda>_. w') (s\<lparr>tm_notified := []\<rparr>), None)"
      using leave_enter_tm [of w' "TM.more s" t s] by (simp add: task_runner_def)
    moreover have "seen_by t w' = task_does ev k f (seen_by t (TM.more s))"
      by (simp add: seen_by_def task_does_def w'(2,3,4))
    ultimately show ?thesis by blast
  qed
  then show ?thesis by (simp add: leaves_manager_def)
qed


lemma fold_task_does:
  "fold (task_does ev k) fs (b, t, w) = (b(0 := fold (\<lambda>f. post_events (ev f)) fs (b 0)), t, fold k fs w)"
  by (induction fs arbitrary: b w) (simp_all add: task_does_def)

lemma world_tasks:
  assumes hc: "tasks_do hc ev k" and os: "one_shot (enter_tm t w)" and room: "n \<noteq> 0" "size (live (enter_tm t w)) \<le> n"
    and tasks: "set_mset (image_mset e_task (live (enter_tm t w))) \<subseteq> range NoArgModel"
    and call: "world_tm_process hc n t w = (r, w')"
  obtains fs due where
    "mset due = filter_mset (\<lambda>e. e_due e \<le> wd_clock w (wd_reads w)) (live_delayed (enter_tm t w))"
    "map NoArgModel fs = map e_task (in_line (enter_tm t w) due)" "r = Inr (length fs)" "one_shot (enter_tm t w')"
    "mset (map NoArgModel fs) + image_mset e_task (live (enter_tm t w')) = image_mset e_task (live (enter_tm t w))"
    "live (enter_tm t w') = filter_mset (\<lambda>e. wd_clock w (wd_reads w) < e_due e) (live_delayed (enter_tm t w))"
    "live_delayed (enter_tm t w') = live (enter_tm t w')"
    "\<And>u. u \<noteq> t \<Longrightarrow> wd_tms w' u = wd_tms w u"
    "wd_buses w' = (wd_buses w)(0 := fold (\<lambda>f. post_events (ev f)) fs (wd_buses w 0))"
    "core w' = fold k fs ((core w)\<lparr>wd_reads := Suc (wd_reads w)\<rparr>)"
proof -
  let ?now = "wd_clock w (wd_reads w)" and ?w = "w\<lparr>wd_reads := Suc (wd_reads w)\<rparr>"
  obtain q s where p: "process (task_runner t hc) (task_handler_runner t hc) ?now (wd_task_clock w (Suc (wd_reads w))) n (enter_tm t ?w) = (q, s)"
    by fastforce
  have r: "r = q" "w' = leave_tm t s" using call p by (simp_all add: world_tm_process_def read_clock_def)
  note same = same_manager_views [OF same_manager_enter [of ?w t w, simplified]]
  have os': "one_shot (enter_tm t ?w)" "size (live (enter_tm t ?w)) \<le> n" using os room(2) by (simp_all add: same)
  obtain due where due: "mset due = filter_mset (\<lambda>e. e_due e \<le> ?now) (live_delayed (enter_tm t ?w))"
    "q = Inr (length (in_line (enter_tm t ?w) due))" "one_shot s" "mset (in_line (enter_tm t ?w) due) + live s = live (enter_tm t ?w)"
    "live s = filter_mset (\<lambda>e. ?now < e_due e) (live_delayed (enter_tm t ?w))" "live_delayed s = live s"
    and more: "seen_by t (TM.more s) = fold (task_effect (task_does ev k)) (map e_task (in_line (enter_tm t ?w) due)) (seen_by t ?w)"
    using one_shot_process_room [OF world_leaves_manager [OF hc] os'(1) room(1) os'(2) p] enter_tm_more by metis
  note left = same_manager_views [OF same_manager_leave [of s t], folded r(2)]
  let ?line = "in_line (enter_tm t w) due"
  have all: "mset ?line + live (enter_tm t w') = live (enter_tm t w)" using due(4) by (simp add: same left)
  have "set (map e_task ?line) \<subseteq> range NoArgModel" using tasks unfolding all [symmetric] by auto
  then have "\<exists>fs. map e_task ?line = map NoArgModel fs" unfolding ex_map_conv by blast
  then obtain fs where fs: "map NoArgModel fs = map e_task ?line" by metis
  have "fold (task_effect (task_does ev k)) (map e_task ?line) x = fold (task_does ev k) fs x" for x
    by (simp flip: fs add: fold_map comp_def)
  then have seen: "seen_by t w' = fold (task_does ev k) fs (seen_by t ?w)"
    using more by (simp add: r(2) seen_by_def same)
  have len: "length fs = length ?line" using arg_cong [OF fs, of length] by simp
  have "mset (map NoArgModel fs) + image_mset e_task (live (enter_tm t w')) = image_mset e_task (live (enter_tm t w))"
    unfolding fs by (simp flip: all)
  moreover have "wd_tms w' u = wd_tms w u" if "u \<noteq> t" for u
    using seen that by (auto simp: seen_by_def fold_task_does fun_eq_iff split: if_splits)
  moreover have "wd_buses w' = (wd_buses w)(0 := fold (\<lambda>f. post_events (ev f)) fs (wd_buses w 0))"
    "core w' = fold k fs ((core w)\<lparr>wd_reads := Suc (wd_reads w)\<rparr>)"
    using seen by (simp_all add: seen_by_def fold_task_does)
  ultimately show thesis using that [OF _ fs] due by (simp add: same left len r(1))
qed


section \<open>A bus with one subscriber\<close>

text \<open>Endpoint 1 has subscribed callable \<open>u\<close> for events of type 1; the notifier is \<open>m\<close>, and \<open>q\<close> is queued.\<close>

definition one_subscriber :: "'u \<Rightarrow> nat \<Rightarrow> 'v QueuedEvent list \<Rightarrow> ('v, 'u, 'h) EPS" where
  "one_subscriber u m q =
     \<lparr> w_strong = (\<lambda>_. 0)(Suc 0 := Suc 0), w_clock = (\<lambda>_. 0), w_reads = 0,
       bus_callbacks = [Suc 0 \<mapsto> [\<lparr> cb_id = 1, cb_owner = Endpoint_owner (Suc 0), cb_guard = Some (Suc 0),
         cb_callback = Some (Some (Call_fn (User_fn u))) \<rparr>]],
       bus_queue = q, bus_awaiters = [], bus_handler = None, bus_next_subscription = 2, bus_request_ids = 1,
       bus_notifier = Some m, bus_notified = [], aw_store = Map.empty, aw_next_object = Suc (Suc 0), aw_tokens = [],
       aw_futures = [], eps_store = (\<lambda>_. \<lparr> ep_guard = None, ep_closed = True, ep_awaiters = [] \<rparr>)
         (Suc 0 := \<lparr> ep_guard = Some (Suc 0), ep_closed = False, ep_awaiters = [] \<rparr>) \<rparr>"

lemma posted_one_subscriber: "fold (\<lambda>f. post_events (ev f)) fs (one_subscriber u m q) = one_subscriber u m (q @ concat (map ev fs))"
  by (induction fs arbitrary: q) (simp_all add: post_events_def one_subscriber_def)

text \<open>The callback does \<open>h v\<close> to the rest of the world, the buses and managers apart.\<close>

definition callback_does ::
  "('v, 'u, 'h, 'k, ('v, 'u, 'h, 'k, 'z) WORLD_scheme) hub_code \<Rightarrow> 'u \<Rightarrow>
   ('v \<Rightarrow> ('v, 'u, 'h, 'k, 'z) WORLD_scheme \<Rightarrow> ('v, 'u, 'h, 'k, 'z) WORLD_scheme) \<Rightarrow> bool"
where
  "callback_does hc u h \<longleftrightarrow> (\<forall>v w. \<exists>w'. hc_call hc u v w = (w', None) \<and> wd_tms w' = wd_tms w \<and>
     wd_buses w' = wd_buses w \<and> core w' = h v (core w))"

lemma bus_code_call:
  "uc_call (bus_code b hc) u v s = (let r = hc_call hc u v (leave_bus b s) in (enter_bus b (fst r), snd r))"
  by (simp add: bus_code_def map_prod_def Let_def split: prod.split)

text \<open>The bus while its callback runs, with the guard locked.\<close>

definition locked_subscriber :: "'u \<Rightarrow> nat \<Rightarrow> 'v QueuedEvent list \<Rightarrow> ('v, 'u, 'h) EPS" where
  "locked_subscriber u m q = (one_subscriber u m q)\<lparr>w_strong := (\<lambda>_. 0)(Suc 0 := Suc (Suc 0))\<rparr>"

lemma one_dispatch:
  assumes hc: "callback_does hc u h"
  obtains w' where "\<And>hrun. dispatch (run_callable (bus_code 0 hc)) hrun (Suc 0) v (EPS.extend (one_subscriber u m q) w) =
      ([1], None, EPS.extend (one_subscriber u m q) w')"
    "wd_tms w' = wd_tms w" "core w' = h v (core w)" "\<And>b. b \<noteq> 0 \<Longrightarrow> wd_buses w' b = wd_buses w b"
proof -
  let ?w = "w\<lparr>wd_buses := (wd_buses w)(0 := locked_subscriber u m q)\<rparr>"
  obtain w' where w': "hc_call hc u v ?w = (w', None)" "wd_tms w' = wd_tms ?w" "wd_buses w' = wd_buses ?w"
    "core w' = h v (core ?w)"
    using hc unfolding callback_does_def by blast
  have leave: "leave_bus 0 (EPS.extend (locked_subscriber u m q) w) = ?w"
    by (simp add: leave_bus_def EPS.extend_def EPS.truncate_def locked_subscriber_def one_subscriber_def)
  have enter: "enter_bus 0 w' = EPS.extend (locked_subscriber u m q) w'" by (simp add: enter_bus_def w'(3))
  have "uc_call (bus_code 0 hc) u v (EPS.extend (locked_subscriber u m q) w) = (EPS.extend (locked_subscriber u m q) w', None)"
    by (simp add: bus_code_call leave w'(1) enter)
  then have "dispatch (run_callable (bus_code 0 hc)) hrun (Suc 0) v (EPS.extend (one_subscriber u m q) w) =
      ([1], None, EPS.extend (one_subscriber u m q) w')" for hrun
    by (simp add: dispatch_def records_of_def one_subscriber_def locked_subscriber_def EPS.extend_def enter_guard_def
        leave_guard_def lock_object_def unlock_object_def call_record_def run_callable_def call_fn_def null_object_def)
  then show thesis using that w'(2,3,4) by simp
qed


lemma one_loop:
  assumes hc: "callback_does hc u h"
  shows "\<forall>e \<in> set es. qe_type e = Suc 0 \<Longrightarrow>
    \<exists>w'. bus_process_loop (run_callable (bus_code 0 hc)) hrun es n (EPS.extend (one_subscriber u m q) w) =
        (Inr (n + length es), EPS.extend (one_subscriber u m q) w') \<and>
      wd_tms w' = wd_tms w \<and> core w' = fold (\<lambda>e. h (qe_payload e)) es (core w) \<and> (\<forall>b. b \<noteq> 0 \<longrightarrow> wd_buses w' b = wd_buses w b)"
proof (induction es arbitrary: n w)
  case (Cons e es)
  obtain w1 where w1: "dispatch (run_callable (bus_code 0 hc)) hrun (Suc 0) (qe_payload e) (EPS.extend (one_subscriber u m q) w) =
      ([1], None, EPS.extend (one_subscriber u m q) w1)"
    "wd_tms w1 = wd_tms w" "core w1 = h (qe_payload e) (core w)" "\<And>b. b \<noteq> 0 \<Longrightarrow> wd_buses w1 b = wd_buses w b"
    by (rule one_dispatch [OF hc]) blast
  then show ?case using Cons.IH [of "Suc n" w1] Cons.prems by simp
next
  case (Nil n w)
  show ?case by (intro exI [of _ w]) simp
qed

lemma world_bus:
  assumes hc: "callback_does hc u h" and bus: "wd_buses w 0 = one_subscriber u m q" and q: "\<forall>e \<in> set q. qe_type e = Suc 0"
  obtains w' where "world_bus_process hc 0 w = (Inr (length q), w')" "wd_tms w' = wd_tms w"
    "wd_buses w' = (wd_buses w)(0 := one_subscriber u m [])" "core w' = fold (\<lambda>e. h (qe_payload e)) q (core w)"
proof -
  have enter: "enter_bus 0 w = EPS.extend (one_subscriber u m q) w" by (simp add: enter_bus_def bus)
  have take: "bus_queue (EPS.extend (one_subscriber u m q) w) = q"
    "EPS.extend (one_subscriber u m q) w\<lparr>bus_queue := []\<rparr> = EPS.extend (one_subscriber u m []) w"
    by (simp_all add: EPS.extend_def one_subscriber_def)
  obtain w1 where w1: "bus_process_loop (run_callable (bus_code 0 hc)) (uc_handler (bus_code 0 hc)) q 0 (EPS.extend (one_subscriber u m []) w) =
        (Inr (0 + length q), EPS.extend (one_subscriber u m []) w1)"
    "wd_tms w1 = wd_tms w" "core w1 = fold (\<lambda>e. h (qe_payload e)) q (core w)" "\<forall>b. b \<noteq> 0 \<longrightarrow> wd_buses w1 b = wd_buses w b"
    using one_loop [OF hc q, of "uc_handler (bus_code 0 hc)" 0 m "[]" w] by blast
  have "poll_awaiters (awaiter_ops (bus_code 0 hc)) (EPS.extend (one_subscriber u m []) w1) = EPS.extend (one_subscriber u m []) w1"
    by (simp add: poll_awaiters_def EPS.extend_def one_subscriber_def)
  then have call: "world_bus_process hc 0 w = (Inr (length q), leave_bus 0 (EPS.extend (one_subscriber u m []) w1))"
    by (simp add: world_bus_process_def Let_def bus_process_def enter take w1(1))
  show thesis
  proof (rule that [OF call])
    show "wd_tms (leave_bus 0 (EPS.extend (one_subscriber u m []) w1)) = wd_tms w"
      "core (leave_bus 0 (EPS.extend (one_subscriber u m []) w1)) = fold (\<lambda>e. h (qe_payload e)) q (core w)"
      using w1(2,3) by (simp_all add: EPS.extend_def)
    show "wd_buses (leave_bus 0 (EPS.extend (one_subscriber u m []) w1)) = (wd_buses w)(0 := one_subscriber u m [])"
      using w1(4) by (auto simp: fun_eq_iff EPS.truncate_def EPS.extend_def one_subscriber_def)
  qed
qed

section \<open>The next deadline\<close>

lemma world_deadline:
  assumes os: "one_shot (enter_tm t w)" and call: "world_tm_next_deadline t w = (d, w')"
  shows "one_shot (enter_tm t w')" "live (enter_tm t w') = live (enter_tm t w)"
    "live_delayed (enter_tm t w') = live_delayed (enter_tm t w)" "wd_buses w' = wd_buses w" "core w' = core w"
    "u \<noteq> t \<Longrightarrow> wd_tms w' u = wd_tms w u" "live_delayed (enter_tm t w) \<noteq> {#} \<Longrightarrow> d \<noteq> None"
proof -
  obtain s where s: "next_deadline (enter_tm t w) = (d, s)" "w' = leave_tm t s"
    using call by (auto simp: world_tm_next_deadline_def split: prod.splits)
  note kept = one_shot_next_deadline [OF os, unfolded s(1), simplified]
  note left = same_manager_views [OF same_manager_leave [of s t], folded s(2)]
  show "one_shot (enter_tm t w')" "live (enter_tm t w') = live (enter_tm t w)"
    "live_delayed (enter_tm t w') = live_delayed (enter_tm t w)" "wd_buses w' = wd_buses w" "core w' = core w"
    "u \<noteq> t \<Longrightarrow> wd_tms w' u = wd_tms w u"
    using kept by (simp_all add: left) (simp_all add: s(2))
  show "d \<noteq> None" if "live_delayed (enter_tm t w) \<noteq> {#}"
    using that s(1) kept(3) by (auto simp: next_deadline_def Let_def live_delayed_def split: if_splits)
qed

text \<open>To evaluate operations of a concrete world.\<close>

lemmas on_world_eval = on_bus_def on_tm_def enter_bus_def leave_bus_def enter_tm_def leave_tm_def EPS.extend_def EPS.truncate_def
  TM.extend_def TM.truncate_def set_notifier_def bus_set_notifier_def

end
