(* ===== verification/Example_Loop.thy ===== *)
theory Example_Loop
  imports World_Drain Run_Loop
begin

text \<open>
  \<^verbatim>\<open>examples/run_loop.cpp\<close>: a run loop over a bus and two managers. The bus, the managers and the loop's notifier
  are the numbers 0, 0 and 1, and 0. The program ends when the event of the background timer has been
  dispatched.
\<close>

section \<open>The program\<close>

datatype log_event = LogEvent string

abbreviation Log_type :: type_id where "Log_type \<equiv> Suc 0"

datatype loop_fn = On_log

datatype loop_task = Post_finished | Post_fired

record ('v, 'u, 'h, 'k) LOOP_DEMO = "('v, 'u, 'h, 'k) LOOP" +
  loop_cout :: "Shown list"

type_synonym loop_state = "(log_event, loop_fn, unit, loop_task) LOOP_DEMO"

fun loop_call :: "loop_fn \<Rightarrow> log_event \<Rightarrow> loop_state \<Rightarrow> loop_state \<times> exn option" where
  "loop_call On_log (LogEvent msg) w =
     (let w = w\<lparr>loop_cout := loop_cout w @ [Text ''event: '', Text msg, endl]\<rparr>
      in (if msg = ''background timer fired'' then loop_request_stop w else w, None))"

fun loop_task_run :: "loop_task \<Rightarrow> TaskContext option \<Rightarrow> loop_state \<Rightarrow> loop_state \<times> exn option" where
  "loop_task_run Post_finished ctx w = (on_bus 0 (ep_post Log_type (LogEvent ''foreground task finished'')) w, None)"
| "loop_task_run Post_fired ctx w = (on_bus 0 (ep_post Log_type (LogEvent ''background timer fired'')) w, None)"

definition loop_code :: "(log_event, loop_fn, unit, loop_task, loop_state) hub_code" where
  "loop_code = no_hub_code\<lparr>hc_call := loop_call, hc_task := loop_task_run\<rparr>"

definition loop_start :: "(nat \<Rightarrow> time) \<Rightarrow> loop_state" where
  "loop_start clock =
     \<lparr> wd_buses = (\<lambda>_. new_bus), wd_tms = (\<lambda>_. TaskManager_init None), wd_notifiers = (\<lambda>_. SyncNotifier_init),
       wd_clock = clock, wd_task_clock = (\<lambda>_ _. (0, 0)), wd_reads = 0, rl_notifier = 0, rl_buses = [],
       rl_task_managers = [], rl_max_tasks = 0, rl_stop_requested = False, loop_cout = [] \<rparr>"

text \<open>The statements before \<^verbatim>\<open>loop.run()\<close>; the last one reads the clock twice.\<close>

definition run_loop_setup :: "loop_state \<Rightarrow> loop_state" where
  "run_loop_setup w =
     (let w = on_bus 0 (EventEndpoint_init 1) w;
          w = RunLoop_init 128 w;
          w = add_bus 0 w;
          w = add_task_manager 0 w;
          w = add_task_manager 1 w;
          w = on_bus 0 (\<lambda>s. snd (ep_subscribe Log_type 1 (Some (User_fn On_log)) s)) w;
          w = on_tm 0 (\<lambda>s. snd (post (NoArgModel Post_finished) default_TaskOptions s)) w;
          (now1, w) = read_clock w;
          (now2, w) = read_clock w
      in on_tm 1 (\<lambda>s. snd (post_after now1 now2 (milliseconds 2) (NoArgModel Post_fired) default_TaskOptions s)) w)"

text \<open>No other thread runs: a wait changes nothing, and the readings of the clock after it are later.\<close>

definition run_loop_main :: "(nat \<Rightarrow> time) \<Rightarrow> nat \<Rightarrow> (exn option \<times> loop_state) option" where
  "run_loop_main clock fuel = run loop_code id fuel (run_loop_setup (loop_start clock))"

section \<open>What the callables do\<close>

fun task_text :: "loop_task \<Rightarrow> string" where
  "task_text Post_finished = ''foreground task finished''"
| "task_text Post_fired = ''background timer fired''"

definition log_queued :: "loop_task \<Rightarrow> log_event QueuedEvent" where
  "log_queued f = \<lparr> qe_type = Log_type, qe_payload = LogEvent (task_text f) \<rparr>"

lemma fired_iff: "task_text f = ''background timer fired'' \<longleftrightarrow> f = Post_fired"
  by (cases f) simp_all

definition log_done :: "log_event \<Rightarrow> loop_state \<Rightarrow> loop_state" where
  "log_done v w = (case v of LogEvent msg \<Rightarrow>
     w\<lparr>loop_cout := loop_cout w @ [Text ''event: '', Text msg, endl],
       rl_stop_requested := (rl_stop_requested w \<or> msg = ''background timer fired'')\<rparr>)"

lemma loop_tasks_do: "tasks_do loop_code (\<lambda>f. [log_queued f]) (\<lambda>f w. w)"
proof -
  have "hc_task loop_code f ctx w = (on_bus 0 (ep_post Log_type (LogEvent (task_text f))) w, None)" for f ctx w
    by (cases f) (simp_all add: loop_code_def)
  then show ?thesis by (simp add: tasks_do_def on_bus_post log_queued_def)
qed

lemma loop_callback_does: "callback_does loop_code On_log log_done"
proof -
  have stop: "w\<lparr>rl_stop_requested := b \<or> rl_stop_requested w\<rparr> = (if b then w\<lparr>rl_stop_requested := True\<rparr> else w)" for b and w :: loop_state
    by (cases w) simp
  have "core (w\<lparr>rl_stop_requested := b\<rparr>) = (core w)\<lparr>rl_stop_requested := b\<rparr>" "core (w\<lparr>loop_cout := x\<rparr>) = (core w)\<lparr>loop_cout := x\<rparr>"
    "rl_stop_requested (core w) = rl_stop_requested w" "loop_cout (core w) = loop_cout w" for b x and w :: loop_state
    by (simp_all add: core_def)
  note this [simp]
  have "\<exists>w'. loop_call On_log v w = (w', None) \<and> wd_tms w' = wd_tms w \<and> wd_buses w' = wd_buses w \<and> core w' = log_done v (core w)" for v w
    by (cases v; cases w) (auto simp: loop_request_stop_def log_done_def notify_id_def core_def Let_def)
  then show ?thesis by (simp add: callback_does_def loop_code_def)
qed


section \<open>The states of the loop\<close>

definition log_line :: "loop_task \<Rightarrow> Shown list" where
  "log_line f = [Text ''event: '', Text (task_text f), endl]"

lemma logs_done:
  "fold (\<lambda>e. log_done (qe_payload e)) (map log_queued fs) w =
     w\<lparr>loop_cout := loop_cout w @ concat (map log_line fs), rl_stop_requested := (rl_stop_requested w \<or> Post_fired \<in> set fs)\<rparr>"
proof (induction fs arbitrary: w)
  case (Cons f fs)
  then show ?case by (cases f; cases w) (simp_all add: log_queued_def log_done_def log_line_def)
qed (cases w, simp)

text \<open>
  The callables whose text has been printed are \<open>xs\<close>, those whose event is queued \<open>ys\<close>; \<open>d\<close> bounds the time
  of the timer.
\<close>

definition serving :: "(nat \<Rightarrow> time) \<Rightarrow> time \<Rightarrow> loop_task list \<Rightarrow> loop_task list \<Rightarrow> loop_state \<Rightarrow> bool" where
  "serving c d xs ys w \<longleftrightarrow>
     wd_clock w = c \<and> rl_notifier w = 0 \<and> rl_buses w = [0] \<and> rl_task_managers w = [0, 1] \<and> rl_max_tasks w = 128 \<and>
     wd_buses w 0 = one_subscriber On_log 0 (map log_queued ys) \<and> loop_cout w = concat (map log_line xs) \<and>
     rl_stop_requested w = (Post_fired \<in> set xs) \<and>
     one_shot (enter_tm 0 w) \<and> live_delayed (enter_tm 0 w) = {#} \<and>
     one_shot (enter_tm 1 w) \<and> (\<forall>e \<in># live_delayed (enter_tm 1 w). e_due e \<le> d) \<and>
     image_mset e_task (live (enter_tm 0 w)) = (if xs @ ys = [] then {#NoArgModel Post_finished#} else {#}) \<and>
     image_mset e_task (live (enter_tm 1 w)) = (if Post_fired \<in> set (xs @ ys) then {#} else {#NoArgModel Post_fired#}) \<and>
     (xs @ ys = [Post_finished] \<longrightarrow> live_delayed (enter_tm 1 w) = live (enter_tm 1 w)) \<and>
     xs @ ys \<in> {[], [Post_finished], [Post_finished, Post_fired]}"

lemma loop_core_views:
  "wd_clock (core w) = wd_clock w" "rl_notifier (core w) = rl_notifier w" "rl_buses (core w) = rl_buses w" "rl_task_managers (core w) = rl_task_managers w"
  "rl_max_tasks (core w) = rl_max_tasks w" "loop_cout (core w) = loop_cout w" "rl_stop_requested (core w) = rl_stop_requested w"
  "wd_reads (core w) = wd_reads w"
  for w :: loop_state
  by (simp_all add: core_def)

text \<open>One manager with at most one task, in one call of \<^verbatim>\<open>process()\<close>.\<close>

lemma loop_manager:
  assumes os: "one_shot (enter_tm t w)" and tasks: "image_mset e_task (live (enter_tm t w)) = mset (map NoArgModel gs)" "length gs \<le> 1"
    and bus: "wd_buses w 0 = one_subscriber On_log 0 (map log_queued ys)"
  obtains fs w' where "world_tm_process loop_code 128 t w = (Inr (length fs), w')" "fs = gs \<or> fs = []"
    "one_shot (enter_tm t w')" "live (enter_tm t w') = filter_mset (\<lambda>e. wd_clock w (wd_reads w) < e_due e) (live_delayed (enter_tm t w))"
    "live_delayed (enter_tm t w') = live (enter_tm t w')" "fs = [] \<longrightarrow> image_mset e_task (live (enter_tm t w')) = mset (map NoArgModel gs)"
    "fs = gs \<longrightarrow> live (enter_tm t w') = {#}"
    "\<And>u. u \<noteq> t \<Longrightarrow> wd_tms w' u = wd_tms w u" "wd_buses w' 0 = one_subscriber On_log 0 (map log_queued (ys @ fs))"
    "core w' = (core w)\<lparr>wd_reads := Suc (wd_reads w)\<rparr>"
proof -
  obtain r w' where call: "world_tm_process loop_code 128 t w = (r, w')" by fastforce
  have size: "size (live (enter_tm t w)) \<le> 128" using tasks by (metis (no_types) length_map size_image_mset size_mset le_trans one_le_numeral)
  have args: "set_mset (image_mset e_task (live (enter_tm t w))) \<subseteq> range NoArgModel" by (simp only: tasks(1)) auto
  obtain fs due where fs: "r = Inr (length fs)" "one_shot (enter_tm t w')"
    "mset (map NoArgModel fs) + image_mset e_task (live (enter_tm t w')) = image_mset e_task (live (enter_tm t w))"
    "live (enter_tm t w') = filter_mset (\<lambda>e. wd_clock w (wd_reads w) < e_due e) (live_delayed (enter_tm t w))"
    "live_delayed (enter_tm t w') = live (enter_tm t w')" "\<And>u. u \<noteq> t \<Longrightarrow> wd_tms w' u = wd_tms w u"
    "wd_buses w' = (wd_buses w)(0 := fold (\<lambda>f. post_events [log_queued f]) fs (wd_buses w 0))"
    "core w' = fold (\<lambda>f w. w) fs ((core w)\<lparr>wd_reads := Suc (wd_reads w)\<rparr>)"
    by (rule world_tasks [OF loop_tasks_do os _ size args call]) (simp, blast)
  have gs: "fs = gs \<or> fs = []" and rest: "fs = gs \<longrightarrow> live (enter_tm t w') = {#}"
    "fs = [] \<longrightarrow> image_mset e_task (live (enter_tm t w')) = mset (map NoArgModel gs)"
    using fs(3) tasks by (cases gs; cases fs; auto simp: add_eq_conv_diff add_eq_conv_ex single_is_union)+
  have "fold (\<lambda>f w. w) fs x = x" for x :: loop_state by (induction fs) simp_all
  then show thesis using that [OF call [unfolded fs(1)] gs fs(2,4,5) rest(2,1) fs(6)] fs(7,8)
    by (simp add: bus posted_one_subscriber concat_map_singleton)
qed


text \<open>The bus prints what is queued.\<close>

lemma serving_bus:
  assumes sv: "serving c d xs ys w" and no: "Post_fired \<notin> set xs"
  obtains w1 where "world_bus_process loop_code 0 w = (Inr (length ys), w1)" "wd_tms w1 = wd_tms w"
    "wd_buses w1 0 = one_subscriber On_log 0 []"
    "core w1 = (core w)\<lparr>loop_cout := concat (map log_line (xs @ ys)), rl_stop_requested := (Post_fired \<in> set ys)\<rparr>"
proof -
  have bus: "wd_buses w 0 = one_subscriber On_log 0 (map log_queued ys)"
    and out: "loop_cout w = concat (map log_line xs)" "\<not> rl_stop_requested w"
    using sv no by (simp_all add: serving_def)
  have "\<forall>e \<in> set (map log_queued ys). qe_type e = Suc 0" by (simp add: log_queued_def)
  then obtain w1 where w1: "world_bus_process loop_code 0 w = (Inr (length (map log_queued ys)), w1)" "wd_tms w1 = wd_tms w"
    "wd_buses w1 = (wd_buses w)(0 := one_subscriber On_log 0 [])" "core w1 = fold (\<lambda>e. log_done (qe_payload e)) (map log_queued ys) (core w)"
    by (rule world_bus [OF loop_callback_does bus])
  then show thesis using that [of w1] out by (simp add: logs_done loop_core_views)
qed

text \<open>Both managers in turn: the first runs its ready task, the second its timer when it is due.\<close>

lemma serving_managers:
  assumes bus: "wd_buses w 0 = one_subscriber On_log 0 []"
    and tm0: "one_shot (enter_tm 0 w)" "live_delayed (enter_tm 0 w) = {#}"
      "image_mset e_task (live (enter_tm 0 w)) = mset (map NoArgModel g0)" "length g0 \<le> 1"
    and tm1: "one_shot (enter_tm 1 w)" "\<forall>e \<in># live_delayed (enter_tm 1 w). e_due e \<le> d"
      "image_mset e_task (live (enter_tm 1 w)) = mset (map NoArgModel g1)" "length g1 \<le> 1"
  obtains w2 w3 fs where "world_tm_process loop_code 128 0 w = (Inr (length g0), w2)" "core w2 = (core w)\<lparr>wd_reads := Suc (wd_reads w)\<rparr>"
    "world_tm_process loop_code 128 1 w2 = (Inr (length fs), w3)" "core w3 = (core w)\<lparr>wd_reads := Suc (Suc (wd_reads w))\<rparr>"
    "wd_buses w3 0 = one_subscriber On_log 0 (map log_queued (g0 @ fs))"
    "one_shot (enter_tm 0 w3)" "live (enter_tm 0 w3) = {#}" "live_delayed (enter_tm 0 w3) = {#}"
    "one_shot (enter_tm 1 w3)" "live_delayed (enter_tm 1 w3) = live (enter_tm 1 w3)" "\<forall>e \<in># live (enter_tm 1 w3). e_due e \<le> d"
    "fs = g1 \<and> live (enter_tm 1 w3) = {#} \<or>
       fs = [] \<and> image_mset e_task (live (enter_tm 1 w3)) = mset (map NoArgModel g1) \<and> wd_clock w (Suc (wd_reads w)) < d"
proof -
  have bus0: "wd_buses w 0 = one_subscriber On_log 0 (map log_queued [])" by (simp add: bus)
  obtain fs0 w2 where w2: "world_tm_process loop_code 128 0 w = (Inr (length fs0), w2)" "fs0 = g0 \<or> fs0 = []" "one_shot (enter_tm 0 w2)"
    "live (enter_tm 0 w2) = filter_mset (\<lambda>e. wd_clock w (wd_reads w) < e_due e) (live_delayed (enter_tm 0 w))"
    "live_delayed (enter_tm 0 w2) = live (enter_tm 0 w2)" "fs0 = [] \<longrightarrow> image_mset e_task (live (enter_tm 0 w2)) = mset (map NoArgModel g0)"
    "\<And>u. u \<noteq> 0 \<Longrightarrow> wd_tms w2 u = wd_tms w u" "wd_buses w2 0 = one_subscriber On_log 0 (map log_queued ([] @ fs0))"
    "core w2 = (core w)\<lparr>wd_reads := Suc (wd_reads w)\<rparr>"
    by (rule loop_manager [OF tm0(1,3,4) bus0]) (rule that)
  have none0: "live (enter_tm 0 w2) = {#}" using w2(4) by (simp add: tm0(2))
  then have fs0: "fs0 = g0" using w2(2,6) by auto
  have t1: "wd_tms w2 1 = wd_tms w 1" using w2(7) [of 1] by simp
  note v1 = same_manager_views [OF same_manager_enter [OF t1]]
  have bus2: "wd_buses w2 0 = one_subscriber On_log 0 (map log_queued g0)" using w2(8) fs0 by simp
  obtain fs w3 where w3: "world_tm_process loop_code 128 1 w2 = (Inr (length fs), w3)" "fs = g1 \<or> fs = []" "one_shot (enter_tm 1 w3)"
    "live (enter_tm 1 w3) = filter_mset (\<lambda>e. wd_clock w2 (wd_reads w2) < e_due e) (live_delayed (enter_tm 1 w2))"
    "live_delayed (enter_tm 1 w3) = live (enter_tm 1 w3)" "fs = [] \<longrightarrow> image_mset e_task (live (enter_tm 1 w3)) = mset (map NoArgModel g1)"
    "fs = g1 \<longrightarrow> live (enter_tm 1 w3) = {#}" "\<And>u. u \<noteq> 1 \<Longrightarrow> wd_tms w3 u = wd_tms w2 u"
    "wd_buses w3 0 = one_subscriber On_log 0 (map log_queued (g0 @ fs))" "core w3 = (core w2)\<lparr>wd_reads := Suc (wd_reads w2)\<rparr>"
    by (rule loop_manager [OF tm1(1,3) [folded v1] tm1(4) bus2]) (rule that)
  have t0: "wd_tms w3 0 = wd_tms w2 0" using w3(8) [of 0] by simp
  note v3 = same_manager_views [OF same_manager_enter [OF t0]]
  have views: "wd_clock w2 = wd_clock w" "wd_reads w2 = Suc (wd_reads w)"
    unfolding loop_core_views [of w2, symmetric] w2(9) by (simp_all add: loop_core_views)
  have due: "\<forall>e \<in># live (enter_tm 1 w3). e_due e \<le> d" using tm1(2) unfolding w3(4) v1 by simp
  have late: "live (enter_tm 1 w3) = {#} \<or> wd_clock w (Suc (wd_reads w)) < d"
    unfolding w3(4) v1 views using tm1(2) by (fastforce simp: filter_mset_eq_conv)
  show thesis
    by (rule that [OF w2(1) [unfolded fs0] w2(9) w3(1) _ w3(9) _ _ _ w3(3,5) due])
      (use w2(3,5) w3(2,6,7) late none0 in \<open>auto simp: v3 w3(10) w2(9) views\<close>)
qed

lemma serving_step:
  assumes sv: "serving c d xs ys w" and no: "Post_fired \<notin> set xs"
  obtains zs w' where "loop_process_once loop_code w = (Inr (length ys + length zs), w')" "serving c d (xs @ ys) zs w'"
    "wd_reads w' = Suc (Suc (wd_reads w))" "d \<le> c (Suc (wd_reads w)) \<longrightarrow> Post_fired \<in> set ((xs @ ys) @ zs)" "(xs @ ys) @ zs \<noteq> []"
proof -
  define g0 where "g0 = (if xs @ ys = [] then [Post_finished] else [])"
  define g1 where "g1 = (if Post_fired \<in> set (xs @ ys) then [] else [Post_fired])"
  obtain w1 where w1: "world_bus_process loop_code 0 w = (Inr (length ys), w1)" "wd_tms w1 = wd_tms w" "wd_buses w1 0 = one_subscriber On_log 0 []"
    "core w1 = (core w)\<lparr>loop_cout := concat (map log_line (xs @ ys)), rl_stop_requested := (Post_fired \<in> set ys)\<rparr>"
    by (rule serving_bus [OF sv no])
  note v = same_manager_views [OF same_manager_enter [OF fun_cong [OF w1(2)]]]
  have p: "xs @ ys \<in> {[], [Post_finished], [Post_finished, Post_fired]}" using sv by (simp add: serving_def)
  have base: "wd_clock w = c" "rl_notifier w = 0" "rl_buses w = [0]" "rl_task_managers w = [0, 1]" "rl_max_tasks w = 128"
    using sv by (simp_all add: serving_def)
  have fixed: "wd_clock w1 = c" "wd_reads w1 = wd_reads w" "rl_task_managers w1 = [0, 1]" "rl_max_tasks w1 = 128"
    unfolding loop_core_views [of w1, symmetric] w1(4) by (simp_all add: loop_core_views base)
  have tms: "one_shot (enter_tm 0 w1)" "live_delayed (enter_tm 0 w1) = {#}" "image_mset e_task (live (enter_tm 0 w1)) = mset (map NoArgModel g0)"
      "one_shot (enter_tm 1 w1)" "\<forall>e \<in># live_delayed (enter_tm 1 w1). e_due e \<le> d"
      "image_mset e_task (live (enter_tm 1 w1)) = mset (map NoArgModel g1)"
    using sv unfolding v serving_def g0_def g1_def by (auto split: if_splits)
  have len: "length g0 \<le> 1" "length g1 \<le> 1" by (simp_all add: g0_def g1_def)
  obtain w2 w3 fs where w3: "world_tm_process loop_code 128 0 w1 = (Inr (length g0), w2)" "core w2 = (core w1)\<lparr>wd_reads := Suc (wd_reads w1)\<rparr>"
    "world_tm_process loop_code 128 1 w2 = (Inr (length fs), w3)" "core w3 = (core w1)\<lparr>wd_reads := Suc (Suc (wd_reads w1))\<rparr>"
    "wd_buses w3 0 = one_subscriber On_log 0 (map log_queued (g0 @ fs))"
    "one_shot (enter_tm 0 w3)" "live (enter_tm 0 w3) = {#}" "live_delayed (enter_tm 0 w3) = {#}"
    "one_shot (enter_tm 1 w3)" "live_delayed (enter_tm 1 w3) = live (enter_tm 1 w3)" "\<forall>e \<in># live (enter_tm 1 w3). e_due e \<le> d"
    "fs = g1 \<and> live (enter_tm 1 w3) = {#} \<or>
       fs = [] \<and> image_mset e_task (live (enter_tm 1 w3)) = mset (map NoArgModel g1) \<and> wd_clock w1 (Suc (wd_reads w1)) < d"
    by (rule serving_managers [OF w1(3) tms(1-3) len(1) tms(4-6) len(2)])
  have more: "rl_max_tasks w2 = 128" unfolding loop_core_views [of w2, symmetric] w3(2) by (simp add: loop_core_views fixed)
  have call: "loop_process_once loop_code w = (Inr (length ys + length (g0 @ fs)), w3)"
    using w1(1) w3(1,3) more by (simp add: loop_process_once_def base fixed)
  have fields: "wd_clock w3 = c" "rl_notifier w3 = 0" "rl_buses w3 = [0]" "rl_task_managers w3 = [0, 1]" "rl_max_tasks w3 = 128"
    "loop_cout w3 = concat (map log_line (xs @ ys))" "rl_stop_requested w3 = (Post_fired \<in> set ys)" "wd_reads w3 = Suc (Suc (wd_reads w))"
    unfolding loop_core_views [of w3, symmetric] w3(4) w1(4) by (simp_all add: loop_core_views base fixed)
  have parts: "Post_fired \<notin> set g0" "fs = [] \<or> fs = [Post_fired]" "(xs @ ys) @ (g0 @ fs) \<noteq> []"
    using w3(12) by (auto simp: g0_def g1_def split: if_splits)
  have tasks1: "image_mset e_task (live (enter_tm 1 w3)) =
      (if Post_fired \<in> set ((xs @ ys) @ (g0 @ fs)) then {#} else {#NoArgModel Post_fired#})"
    using w3(12) parts by (cases "Post_fired \<in> set (xs @ ys)") (auto simp: g1_def simp del: One_nat_def)
  have order: "(xs @ ys) @ (g0 @ fs) \<in> {[], [Post_finished], [Post_finished, Post_fired]}"
    using p parts(2) w3(12) by (elim insertE; elim disjE) (simp_all add: g0_def g1_def)
  show thesis
  proof (rule that [OF call])
    show "serving c d (xs @ ys) (g0 @ fs) w3"
      unfolding serving_def fields(1-7) w3(5,7,8,10) tasks1
      using w3(6,9,11) parts(3) order no by (simp del: One_nat_def)
    show "d \<le> c (Suc (wd_reads w)) \<longrightarrow> Post_fired \<in> set ((xs @ ys) @ (g0 @ fs))"
      using w3(12) by (auto simp: g1_def fixed)
  qed (rule fields(8), rule parts(3))
qed

section \<open>Waiting\<close>

lemma serving_same:
  assumes "serving c d xs ys w" "wd_buses w' = wd_buses w" "core w' = (core w)\<lparr>wd_reads := k\<rparr>"
    "\<And>t. one_shot (enter_tm t w) \<Longrightarrow> one_shot (enter_tm t w') \<and> live (enter_tm t w') = live (enter_tm t w) \<and>
      live_delayed (enter_tm t w') = live_delayed (enter_tm t w)"
  shows "serving c d xs ys w'"
proof -
  have "wd_clock w' = wd_clock w" "rl_notifier w' = rl_notifier w" "rl_buses w' = rl_buses w" "rl_task_managers w' = rl_task_managers w"
    "rl_max_tasks w' = rl_max_tasks w" "loop_cout w' = loop_cout w" "rl_stop_requested w' = rl_stop_requested w"
    unfolding loop_core_views [of w', symmetric] assms(3) by (simp_all add: loop_core_views)
  then show ?thesis
    using assms(1,2) assms(4) [of 0] assms(4) [of 1] by (simp add: serving_def)
qed

lemma serving_deadline:
  assumes sv: "serving c d xs ys w" and call: "world_tm_next_deadline t w = (x, w')" and t: "t = 0 \<or> t = 1"
  shows "serving c d xs ys w'" "wd_reads w' = wd_reads w"
proof -
  have os: "one_shot (enter_tm t w)" using sv t by (auto simp: serving_def)
  note kept = world_deadline [OF os call]
  have "wd_reads (core w') = wd_reads (core w)" by (simp add: kept(5))
  then show r: "wd_reads w' = wd_reads w" by (simp add: loop_core_views)
  show "serving c d xs ys w'"
  proof (rule serving_same [OF sv kept(4), where k = "wd_reads w"])
    show "core w' = (core w)\<lparr>wd_reads := wd_reads w\<rparr>" by (simp add: kept(5)) (simp add: core_def)
    fix u
    assume u: "one_shot (enter_tm u w)"
    show "one_shot (enter_tm u w') \<and> live (enter_tm u w') = live (enter_tm u w) \<and> live_delayed (enter_tm u w') = live_delayed (enter_tm u w)"
    proof (cases "u = t")
      case False
      show ?thesis using u by (simp add: same_manager_views [OF same_manager_enter [OF kept(6) [OF False]]])
    qed (use kept(1-3) in simp)
  qed
qed

lemma serving_read:
  assumes "serving c d xs ys w"
  shows "serving c d xs ys (w\<lparr>wd_reads := k\<rparr>)"
proof (rule serving_same [OF assms])
  fix t
  assume "one_shot (enter_tm t w)"
  then show "one_shot (enter_tm t (w\<lparr>wd_reads := k\<rparr>)) \<and> live (enter_tm t (w\<lparr>wd_reads := k\<rparr>)) = live (enter_tm t w) \<and>
      live_delayed (enter_tm t (w\<lparr>wd_reads := k\<rparr>)) = live_delayed (enter_tm t w)"
    by (simp add: same_manager_views [OF same_manager_enter [of "w\<lparr>wd_reads := k\<rparr>" t w]])
qed simp_all

text \<open>While the timer is pending, the wait has a limit.\<close>

lemma serving_wait:
  assumes sv: "serving c d [Post_finished] [] w"
  obtains l w' where "next_task_wait w = (Some l, w')" "serving c d [Post_finished] [] w'" "wd_reads w' = Suc (wd_reads w)"
proof -
  let ?w = "w\<lparr>wd_reads := Suc (wd_reads w)\<rparr>" and ?now = "wd_clock w (wd_reads w)"
  have sv1: "serving c d [Post_finished] [] ?w" by (rule serving_read [OF sv])
  have wait: "next_task_wait w = next_wait_loop ?now [0, 1] None ?w"
    using sv by (simp add: next_task_wait_def read_clock_def serving_def)
  have last: "\<exists>l w'. next_wait_loop ?now [1] best w1 = (Some l, w') \<and> serving c d [Post_finished] [] w' \<and> wd_reads w' = Suc (wd_reads w)"
    if w1: "serving c d [Post_finished] [] w1" "wd_reads w1 = Suc (wd_reads w)" for best and w1 :: loop_state
  proof (cases "world_tm_has_ready 1 w1")
    case False
    obtain x w2 where x: "world_tm_next_deadline 1 w1 = (x, w2)" by fastforce
    have "one_shot (enter_tm 1 w1)" "live_delayed (enter_tm 1 w1) \<noteq> {#}" using w1(1) by (auto simp: serving_def simp del: One_nat_def)
    then have "x \<noteq> None" using world_deadline(7) [OF _ x] by blast
    then show ?thesis
      using False x serving_deadline [OF w1(1) x] w1(2) by (cases best) (auto simp: Let_def simp del: One_nat_def)
  qed (use w1 in \<open>simp del: One_nat_def\<close>)
  show thesis
  proof (cases "world_tm_has_ready 0 ?w")
    case True
    then show thesis using that [of 0 ?w] wait sv1 by simp
  next
    case False
    obtain x w2 where x: "world_tm_next_deadline 0 ?w = (x, w2)" by fastforce
    note kept = serving_deadline [OF sv1 x]
    have "\<exists>best. next_wait_loop ?now [0, 1] None ?w = next_wait_loop ?now [1] best w2"
      using False x by (cases x) (auto simp: Let_def simp del: One_nat_def)
    then obtain best where best: "next_task_wait w = next_wait_loop ?now [1] best w2" using wait by metis
    have "wd_reads w2 = Suc (wd_reads w)" using kept(2) by simp
    from last [OF kept(1) this, of best] show thesis unfolding best [symmetric] using that by blast
  qed
qed


section \<open>The loop\<close>

lemma serving_iteration:
  assumes sv: "serving c d xs ys w" and no: "Post_fired \<notin> set xs"
  obtains v w' zs where "loop_iteration loop_code (\<lambda>w. (Inr False, w)) w = (v, w')" "v = Again \<or> (\<exists>old l. v = Sleep old (Some l))"
    "serving c d (xs @ ys) zs w'" "Suc (Suc (wd_reads w)) \<le> wd_reads w'"
    "d \<le> c (Suc (wd_reads w)) \<longrightarrow> Post_fired \<in> set ((xs @ ys) @ zs)"
proof -
  obtain zs w1 where once: "loop_process_once loop_code w = (Inr (length ys + length zs), w1)" "serving c d (xs @ ys) zs w1"
    "wd_reads w1 = Suc (Suc (wd_reads w))" "d \<le> c (Suc (wd_reads w)) \<longrightarrow> Post_fired \<in> set ((xs @ ys) @ zs)" "(xs @ ys) @ zs \<noteq> []"
    by (rule serving_step [OF sv no])
  have stop: "loop_stop_requested w = False" using sv no by (simp add: serving_def loop_stop_requested_def)
  show thesis
  proof (cases "ys = [] \<and> zs = [] \<and> \<not> has_ready_or_pending_work w1")
    case False
    have "loop_iteration loop_code (\<lambda>w. (Inr False, w)) w = (Again, w1)" if "ys = []" "zs = []"
      using that False once(1,2) no by (simp add: loop_iteration_def stop Let_def) (simp add: serving_def loop_stop_requested_def)
    moreover have "loop_iteration loop_code (\<lambda>w. (Inr False, w)) w = (Again, w1)" if "length ys + length zs \<noteq> 0"
      using that once(1) by (simp add: loop_iteration_def stop Let_def)
    ultimately have "loop_iteration loop_code (\<lambda>w. (Inr False, w)) w = (Again, w1)" by fastforce
    then show thesis using that once(2,3,4) by simp
  next
    case True
    then have "xs @ ys = [Post_finished]" "zs = []" using once(2,5) no by (auto simp: serving_def)
    then obtain l w2 where w2: "next_task_wait w1 = (Some l, w2)" "serving c d [Post_finished] [] w2" "wd_reads w2 = Suc (wd_reads w1)"
      using serving_wait once(2) by metis
    have "\<not> loop_stop_requested w1" using once(2) no True by (simp add: serving_def loop_stop_requested_def)
    then have "\<exists>v. loop_iteration loop_code (\<lambda>w. (Inr False, w)) w = (v, w2) \<and> (v = Again \<or> (\<exists>old l. v = Sleep old (Some l)))"
      using True once(1) w2(1) by (simp add: loop_iteration_def stop Let_def)
    then show thesis using that [of _ w2 zs] w2(2,3) once(3,4) \<open>xs @ ys = [Post_finished]\<close> \<open>zs = []\<close> by auto
  qed
qed

lemma run_loop_ends:
  assumes late: "\<And>n. N \<le> n \<Longrightarrow> d \<le> c n"
  shows "serving c d xs ys w \<Longrightarrow> \<exists>fuel w'. run loop_code id fuel w = Some (None, w') \<and> serving c d [Post_finished, Post_fired] [] w'"
proof (induction "if Post_fired \<in> set xs then 0 else if Post_fired \<in> set ys then 1 else Suc (Suc (N - wd_reads w))"
    arbitrary: xs ys w rule: less_induct)
  case (less xs ys w)
  show ?case
  proof (cases "Post_fired \<in> set xs")
    case True
    then have "xs = [Post_finished, Post_fired]" "ys = []" "loop_stop_requested w"
      using less.prems by (auto simp: serving_def loop_stop_requested_def append_eq_Cons_conv)
    then show ?thesis using less.prems
      by (intro exI [of _ 1] exI [of _ w]) (simp add: run_def run_until_def loop_iteration_def)
  next
    case False
    obtain v w' zs where it: "loop_iteration loop_code (\<lambda>w. (Inr False, w)) w = (v, w')" "v = Again \<or> (\<exists>old l. v = Sleep old (Some l))"
      "serving c d (xs @ ys) zs w'" "Suc (Suc (wd_reads w)) \<le> wd_reads w'" "d \<le> c (Suc (wd_reads w)) \<longrightarrow> Post_fired \<in> set ((xs @ ys) @ zs)"
      by (rule serving_iteration [OF less.prems False])
    have "Post_fired \<in> set ((xs @ ys) @ zs) \<or> Suc (wd_reads w) < N" using it(5) late by (meson not_le)
    then have "(if Post_fired \<in> set (xs @ ys) then 0 else if Post_fired \<in> set zs then 1 else Suc (Suc (N - wd_reads w'))) <
        (if Post_fired \<in> set xs then 0 else if Post_fired \<in> set ys then 1 else Suc (Suc (N - wd_reads w)))"
      using False it(4) by auto
    from less.hyps [OF this it(3)] obtain fuel u where u: "run loop_code id fuel w' = Some (None, u)" "serving c d [Post_finished, Post_fired] [] u"
      by blast
    have "rl_notifier w' = 0" "rl_notifier w = 0" using it(3) less.prems by (simp_all add: serving_def)
    then have "run loop_code id (Suc fuel) w = run loop_code id fuel w'"
      using it(1,2) by (auto simp: run_def run_until_def blocking_wait_def)
    then show ?thesis using u by metis
  qed
qed


section \<open>The program ends\<close>

lemma loop_sources:
  "on_bus 0 (\<lambda>s. snd (ep_subscribe Log_type 1 (Some (User_fn On_log)) s))
     (add_task_manager 1 (add_task_manager 0 (add_bus 0 (RunLoop_init 128 (on_bus 0 (EventEndpoint_init 1) (loop_start c)))))) =
   (loop_start c)\<lparr>wd_buses := (\<lambda>_. new_bus)(0 := one_subscriber On_log 0 []),
     wd_tms := (\<lambda>_. TaskManager_init None)(0 := TaskManager_init (Some 0), 1 := TaskManager_init (Some 0)),
     rl_buses := [0], rl_task_managers := [0, 1], rl_max_tasks := 128\<rparr>"
  by (simp add: loop_start_def on_world_eval RunLoop_init_def positive_limit_def add_bus_def add_task_manager_def TaskManager_init_def
      new_bus_def one_subscriber_def demo_eval cong: demo_congs)

lemma run_loop_setup_serving: "serving c (c 0 + milliseconds 2) [] [] (run_loop_setup (loop_start c))"
proof -
  define w6 where "w6 = on_bus 0 (\<lambda>s. snd (ep_subscribe Log_type 1 (Some (User_fn On_log)) s))
     (add_task_manager 1 (add_task_manager 0 (add_bus 0 (RunLoop_init 128 (on_bus 0 (EventEndpoint_init 1) (loop_start c))))))"
  let ?f = "\<lambda>s. snd (post (NoArgModel Post_finished) default_TaskOptions s)"
  define w7 where "w7 = (on_tm 0 ?f w6)"
  define w8 where "w8 = w7\<lparr>wd_reads := 2\<rparr>"
  let ?g = "\<lambda>s. snd (post_after (c 0) (c 1) (milliseconds 2) (NoArgModel Post_fired) default_TaskOptions s)"
  note w6 = loop_sources [of c, folded w6_def]
  have tms: "wd_tms w6 0 = TaskManager_init (Some 0)" "wd_tms w6 1 = TaskManager_init (Some 0)" by (simp_all add: w6)
  note new0 = new_manager [OF tms(1)]
  obtain e0 where e0: "e_task e0 = NoArgModel Post_finished" "task_added 0 e0 None w6 w7"
    using world_post [OF new0(1) _ new0(5), of Post_finished default_TaskOptions] by (auto simp: w7_def new0(4))
  note a0 = e0(2) [unfolded task_added_def new0(2,3)]
  have w7: "wd_clock w7 = c" "wd_reads w7 = 0"
    using a0 unfolding loop_core_views [of w7, symmetric] by (simp_all add: loop_core_views w6 loop_start_def)
  have w8: "wd_tms w8 = wd_tms w7" "wd_buses w8 = wd_buses w6" "core w8 = (core w6)\<lparr>wd_reads := 2\<rparr>"
    using a0 by (simp_all add: w8_def)
  have "wd_tms w8 1 = TaskManager_init (Some 0)" using a0 by (simp only: w8(1) tms one_neq_zero simp_thms)
  note new1 = new_manager [OF this]
  let ?due = "if c 0 + milliseconds 2 \<le> c 1 then None else Some (c 0 + milliseconds 2)"
  have "tm_next_id (enter_tm 1 w8) \<noteq> 0" unfolding new1(4) by simp
  then obtain e1 where e1: "e_task e1 = NoArgModel Post_fired" "task_added 1 e1 ?due w8 (on_tm 1 ?g w8)"
    using world_post_at [OF new1(1) _ new1(5)] unfolding post_after_def by blast
  note a1 = e1(2) [unfolded task_added_def new1(2,3)]
  have made: "run_loop_setup (loop_start c) = on_tm 1 ?g w8"
    unfolding run_loop_setup_def Let_def w6_def [symmetric] w7_def [symmetric]
    by (simp add: read_clock_def w7 w8_def numeral_2_eq_2)
  have t0: "wd_tms (on_tm 1 ?g w8) 0 = wd_tms w7 0" using a1 by (simp only: w8(1) zero_neq_one simp_thms)
  note v0 = same_manager_views [OF same_manager_enter [OF t0]]
  have fields: "wd_clock (on_tm 1 ?g w8) = c" "rl_notifier (on_tm 1 ?g w8) = 0" "rl_buses (on_tm 1 ?g w8) = [0]"
    "rl_task_managers (on_tm 1 ?g w8) = [0, 1]" "rl_max_tasks (on_tm 1 ?g w8) = 128" "loop_cout (on_tm 1 ?g w8) = []"
    "\<not> rl_stop_requested (on_tm 1 ?g w8)" "wd_buses (on_tm 1 ?g w8) 0 = one_subscriber On_log 0 []"
    using a1 unfolding loop_core_views [of "on_tm 1 ?g w8", symmetric] by (simp_all add: w8(2,3) loop_core_views w6 loop_start_def)
  show ?thesis
    unfolding serving_def made v0 fields(1-6,8)
    using fields(7) e0(1) e1(1) a0 a1 by (auto simp del: One_nat_def split: if_splits)
qed

text \<open>
  C10: \<^verbatim>\<open>examples/run_loop.cpp\<close> ends. If the clock is past every time from some reading on, \<^verbatim>\<open>loop.run()\<close> returns without
  an exception; by then the event of the foreground task and the event of the background timer have been printed, in this
  order and once each, and the stop of the loop was requested.
\<close>

theorem run_loop_example_ends:
  assumes "\<forall>t. \<exists>N. \<forall>n \<ge> N. t \<le> clock n"
  shows "\<exists>fuel w. run_loop_main clock fuel = Some (None, w) \<and> loop_stop_requested w \<and>
    loop_cout w = [Text ''event: '', Text ''foreground task finished'', endl, Text ''event: '', Text ''background timer fired'', endl]"
proof -
  obtain N where "\<And>n. N \<le> n \<Longrightarrow> clock 0 + milliseconds 2 \<le> clock n" using assms by blast
  from run_loop_ends [of N _ clock, OF this run_loop_setup_serving] obtain fuel w where
    "run_loop_main clock fuel = Some (None, w)" "serving clock (clock 0 + milliseconds 2) [Post_finished, Post_fired] [] w"
    unfolding run_loop_main_def by blast
  then show ?thesis by (intro exI [of _ fuel] exI [of _ w]) (simp add: serving_def log_line_def loop_stop_requested_def)
qed

theorem run_loop_example_ends_witness:
  "\<exists>fuel w. run_loop_main (\<lambda>n. milliseconds (int n)) fuel = Some (None, w) \<and> loop_stop_requested w \<and>
    loop_cout w = [Text ''event: '', Text ''foreground task finished'', endl, Text ''event: '', Text ''background timer fired'', endl]"
proof (rule run_loop_example_ends)
  have "t \<le> milliseconds (int n)" if "nat t \<le> n" for t n using that by (simp add: milliseconds_def)
  then show "\<forall>t. \<exists>N. \<forall>n \<ge> N. t \<le> milliseconds (int n)" by blast
qed

end
