(* ===== verification/Example_Poll.thy ===== *)
theory Example_Poll
  imports World_Drain
begin

text \<open>
  What \<^verbatim>\<open>examples/task_manager_with_bus.cpp\<close> and \<^verbatim>\<open>examples/external_notifier.cpp\<close> share: a bus and a manager
  driven by a loop of the program's own, and one pass of that loop. Both use number 0 of the buses, managers and notifiers, and endpoint 1.
\<close>

section \<open>What they share\<close>

datatype poll_event = PollEvent string

abbreviation Poll_type :: type_id where "Poll_type \<equiv> Suc 0"

datatype poll_task = Print_task string | Post_task string

datatype poll_fn = On_log_event | On_message

record ('v, 'u, 'h, 'k) POLL = "('v, 'u, 'h, 'k) WORLD" +
  poll_cout :: "Shown list"
  poll_running :: bool

type_synonym poll_state = "(poll_event, poll_fn, unit, poll_task) POLL"

fun poll_call :: "poll_fn \<Rightarrow> poll_event \<Rightarrow> poll_state \<Rightarrow> poll_state \<times> exn option" where
  "poll_call On_log_event (PollEvent msg) w =
     (let w = w\<lparr>poll_cout := poll_cout w @ [Text ''event: '', Text msg, endl]\<rparr>
      in (if msg = ''quit'' then w\<lparr>poll_running := False\<rparr> else w, None))"
| "poll_call On_message (PollEvent msg) w = (w\<lparr>poll_cout := poll_cout w @ [Text ''event: '', Text msg, endl]\<rparr>, None)"

fun poll_task_run :: "poll_task \<Rightarrow> TaskContext option \<Rightarrow> poll_state \<Rightarrow> poll_state \<times> exn option" where
  "poll_task_run (Print_task msg) ctx w = (w\<lparr>poll_cout := poll_cout w @ [Text ''task: '', Text msg, endl]\<rparr>, None)"
| "poll_task_run (Post_task msg) ctx w = (on_bus 0 (ep_post Poll_type (PollEvent msg)) w, None)"

definition poll_code :: "(poll_event, poll_fn, unit, poll_task, poll_state) hub_code" where
  "poll_code = no_hub_code\<lparr>hc_call := poll_call, hc_task := poll_task_run\<rparr>"

definition poll_start :: "(nat \<Rightarrow> time) \<Rightarrow> poll_state" where
  "poll_start clock =
     \<lparr> wd_buses = (\<lambda>_. new_bus), wd_tms = (\<lambda>_. TaskManager_init None), wd_notifiers = (\<lambda>_. SyncNotifier_init),
       wd_clock = clock, wd_task_clock = (\<lambda>_ _. (0, 0)), wd_reads = 0, poll_cout = [], poll_running = True \<rparr>"

definition poll_subscribe :: "poll_fn \<Rightarrow> poll_state \<Rightarrow> poll_state" where
  "poll_subscribe u w = on_bus 0 (\<lambda>s. snd (ep_subscribe Poll_type 1 (Some (User_fn u)) s)) w"

definition poll_post :: "poll_task \<Rightarrow> poll_state \<Rightarrow> poll_state" where
  "poll_post f w = on_tm 0 (\<lambda>s. snd (post (NoArgModel f) default_TaskOptions s)) w"

text \<open>Posting with a delay reads the clock twice.\<close>

definition poll_post_after :: "time \<Rightarrow> poll_task \<Rightarrow> poll_state \<Rightarrow> poll_state" where
  "poll_post_after delay f w =
     (let (now1, w) = read_clock w; (now2, w) = read_clock w
      in on_tm 0 (\<lambda>s. snd (post_after now1 now2 delay (NoArgModel f) default_TaskOptions s)) w)"

definition poll_post_after_ms :: "int \<Rightarrow> poll_task \<Rightarrow> poll_state \<Rightarrow> poll_state" where
  "poll_post_after_ms delay_ms f w =
     (let (now1, w) = read_clock w; (now2, w) = read_clock w
      in on_tm 0 (\<lambda>s. snd (post_after_ms now1 now2 delay_ms (NoArgModel f) default_TaskOptions s)) w)"

lemma poll_post_after_ms_eq: "poll_post_after_ms delay_ms = poll_post_after (milliseconds delay_ms)"
  by (simp add: poll_post_after_ms_def poll_post_after_def post_after_ms_def fun_eq_iff)

text \<open>
  The body of both loops; \<open>recommend\<close> is the call that computes the time-out. It is given a reading of the clock, which it
  uses when there is a deadline and no ready task. \<open>Sleep\<close> is a wait on the notifier.
\<close>

definition poll_tick ::
  "(time \<Rightarrow> (poll_task, poll_state) TM_scheme \<Rightarrow> time \<times> (poll_task, poll_state) TM_scheme) \<Rightarrow> poll_state \<Rightarrow> verdict \<times> poll_state"
where
  "poll_tick recommend w =
     (let old = generation (wd_notifiers w 0)
      in case world_bus_process poll_code 0 w of
           (Inl x, w) \<Rightarrow> (Fail x, w)
         | (Inr n, w) \<Rightarrow>
             (case world_tm_process poll_code 128 0 w of
                (Inl x, w) \<Rightarrow> (Fail x, w)
              | (Inr m, w) \<Rightarrow>
                  if n + m \<noteq> 0 then (Again, w)
                  else let (now, w) = read_clock w;
                           (timeout, s) = recommend now (enter_tm 0 w);
                           w = leave_tm 0 s
                       in if \<not> world_bus_has_pending 0 w \<and> \<not> world_tm_has_ready 0 w then (Sleep old (Some timeout), w)
                          else (Again, w)))"

definition poll_reset :: "poll_state \<Rightarrow> poll_state" where
  "poll_reset w = (let w = on_tm 0 reset_notifier w in on_bus 0 bus_reset_notifier w)"

section \<open>What the callables do\<close>

definition poll_queued :: "string \<Rightarrow> poll_event QueuedEvent" where
  "poll_queued msg = \<lparr> qe_type = Poll_type, qe_payload = PollEvent msg \<rparr>"

definition event_line :: "string \<Rightarrow> Shown list" where
  "event_line msg = [Text ''event: '', Text msg, endl]"

definition task_line :: "string \<Rightarrow> Shown list" where
  "task_line msg = [Text ''task: '', Text msg, endl]"

fun posts :: "poll_task \<Rightarrow> string list" where
  "posts (Print_task msg) = []"
| "posts (Post_task msg) = [msg]"

fun prints :: "poll_task \<Rightarrow> Shown list" where
  "prints (Print_task msg) = task_line msg"
| "prints (Post_task msg) = []"

definition poll_done :: "poll_fn \<Rightarrow> poll_event \<Rightarrow> poll_state \<Rightarrow> poll_state" where
  "poll_done u v w = (case v of PollEvent msg \<Rightarrow>
     w\<lparr>poll_cout := poll_cout w @ event_line msg, poll_running := (poll_running w \<and> \<not> (u = On_log_event \<and> msg = ''quit''))\<rparr>)"

lemma poll_core_views:
  "wd_clock (core w) = wd_clock w" "wd_reads (core w) = wd_reads w" "poll_cout (core w) = poll_cout w" "poll_running (core w) = poll_running w"
  for w :: poll_state
  by (simp_all add: core_def)

lemma poll_tasks_do: "tasks_do poll_code (\<lambda>f. map poll_queued (posts f)) (\<lambda>f w. w\<lparr>poll_cout := poll_cout w @ prints f\<rparr>)"
proof -
  have "\<exists>w'. hc_task poll_code f ctx w = (w', None) \<and> wd_tms w' = wd_tms w \<and>
      wd_buses w' = (wd_buses w)(0 := post_events (map poll_queued (posts f)) (wd_buses w 0)) \<and>
      core w' = (core w)\<lparr>poll_cout := poll_cout (core w) @ prints f\<rparr>" for f ctx w
  proof (cases f)
    case (Print_task msg)
    then show ?thesis by (simp add: poll_code_def post_events_def task_line_def) (simp add: core_def)
  next
    case (Post_task msg)
    moreover have "(core w)\<lparr>poll_cout := poll_cout (core w)\<rparr> = core w" by simp
    ultimately show ?thesis by (simp add: poll_code_def on_bus_post poll_queued_def)
  qed
  then show ?thesis by (simp add: tasks_do_def)
qed

lemma poll_callback_does: "callback_does poll_code u (poll_done u)"
proof -
  have "\<exists>w'. poll_call u v w = (w', None) \<and> wd_tms w' = wd_tms w \<and> wd_buses w' = wd_buses w \<and> core w' = poll_done u v (core w)" for v w
    by (cases v; cases u; cases w) (auto simp: poll_done_def event_line_def core_def Let_def)
  then show ?thesis by (simp add: callback_does_def poll_code_def)
qed

lemma polls_done:
  "fold (\<lambda>e. poll_done u (qe_payload e)) (map poll_queued ys) w =
     w\<lparr>poll_cout := poll_cout w @ concat (map event_line ys),
       poll_running := (poll_running w \<and> \<not> (u = On_log_event \<and> ''quit'' \<in> set ys))\<rparr>"
proof (induction ys arbitrary: w)
  case (Cons msg ys)
  then show ?case by (cases "msg = ''quit''"; cases u) (auto simp: poll_queued_def poll_done_def)
qed simp

lemma prints_done: "fold (\<lambda>f w. w\<lparr>poll_cout := poll_cout w @ prints f\<rparr>) fs w = w\<lparr>poll_cout := poll_cout w @ concat (map prints fs)\<rparr>"
  for w :: poll_state
  by (induction fs arbitrary: w) simp_all


section \<open>One pass of the loop\<close>

text \<open>The manager holds the tasks \<open>g\<close>, the bus the messages \<open>ys\<close> for the subscriber \<open>u\<close>.\<close>

definition poll_world :: "poll_fn \<Rightarrow> (nat \<Rightarrow> time) \<Rightarrow> string list \<Rightarrow> poll_task multiset \<Rightarrow> poll_state \<Rightarrow> bool" where
  "poll_world u c ys g w \<longleftrightarrow> wd_clock w = c \<and> wd_buses w 0 = one_subscriber u 0 (map poll_queued ys) \<and>
     one_shot (enter_tm 0 w) \<and> image_mset e_task (live (enter_tm 0 w)) = image_mset NoArgModel g"

lemma poll_bus:
  assumes "poll_world u c ys g w"
  obtains w' where "world_bus_process poll_code 0 w = (Inr (length ys), w')" "wd_tms w' = wd_tms w" "poll_world u c [] g w'"
    "wd_reads w' = wd_reads w" "poll_cout w' = poll_cout w @ concat (map event_line ys)"
    "poll_running w' = (poll_running w \<and> \<not> (u = On_log_event \<and> ''quit'' \<in> set ys))"
proof -
  have bus: "wd_buses w 0 = one_subscriber u 0 (map poll_queued ys)" using assms by (simp add: poll_world_def)
  have "\<forall>e \<in> set (map poll_queued ys). qe_type e = Suc 0" by (simp add: poll_queued_def)
  then obtain w' where w': "world_bus_process poll_code 0 w = (Inr (length (map poll_queued ys)), w')" "wd_tms w' = wd_tms w"
    "wd_buses w' = (wd_buses w)(0 := one_subscriber u 0 [])" "core w' = fold (\<lambda>e. poll_done u (qe_payload e)) (map poll_queued ys) (core w)"
    by (rule world_bus [OF poll_callback_does bus])
  note core = w'(4) [unfolded polls_done]
  have fields: "wd_clock w' = wd_clock w" "wd_reads w' = wd_reads w" "poll_cout w' = poll_cout w @ concat (map event_line ys)"
    "poll_running w' = (poll_running w \<and> \<not> (u = On_log_event \<and> ''quit'' \<in> set ys))"
    unfolding poll_core_views [of w', symmetric] core by (simp_all add: poll_core_views)
  note same = same_manager_views [OF same_manager_enter [OF fun_cong [OF w'(2)]]]
  have "poll_world u c [] g w'" using assms by (simp add: poll_world_def fields same w'(3))
  then show thesis using that [of w'] w'(1,2) fields(2-4) by simp
qed

lemma poll_tasks:
  assumes pw: "poll_world u c [] g w" and size: "size g \<le> 128"
  obtains fs w' g' due where "world_tm_process poll_code 128 0 w = (Inr (length fs), w')" "poll_world u c (concat (map posts fs)) g' w'"
    "g = mset fs + g'" "live (enter_tm 0 w') = filter_mset (\<lambda>e. c (wd_reads w) < e_due e) (live_delayed (enter_tm 0 w))"
    "live_delayed (enter_tm 0 w') = live (enter_tm 0 w')" "wd_reads w' = Suc (wd_reads w)"
    "poll_cout w' = poll_cout w @ concat (map prints fs)" "poll_running w' = poll_running w"
    "mset due = filter_mset (\<lambda>e. e_due e \<le> c (wd_reads w)) (live_delayed (enter_tm 0 w))"
    "map NoArgModel fs = map e_task (in_line (enter_tm 0 w) due)"
proof -
  have w: "wd_clock w = c" "wd_buses w 0 = one_subscriber u 0 []" "one_shot (enter_tm 0 w)"
    "image_mset e_task (live (enter_tm 0 w)) = image_mset NoArgModel g" using pw by (simp_all add: poll_world_def)
  obtain r w' where call: "world_tm_process poll_code 128 0 w = (r, w')" by fastforce
  have few: "size (live (enter_tm 0 w)) \<le> 128" using arg_cong [OF w(4), of size] size by simp
  have args: "set_mset (image_mset e_task (live (enter_tm 0 w))) \<subseteq> range NoArgModel" unfolding w(4) by auto
  obtain fs due where fs: "mset due = filter_mset (\<lambda>e. e_due e \<le> c (wd_reads w)) (live_delayed (enter_tm 0 w))"
    "map NoArgModel fs = map e_task (in_line (enter_tm 0 w) due)" "r = Inr (length fs)" "one_shot (enter_tm 0 w')"
    "mset (map NoArgModel fs) + image_mset e_task (live (enter_tm 0 w')) = image_mset e_task (live (enter_tm 0 w))"
    "live (enter_tm 0 w') = filter_mset (\<lambda>e. c (wd_reads w) < e_due e) (live_delayed (enter_tm 0 w))"
    "live_delayed (enter_tm 0 w') = live (enter_tm 0 w')"
    "wd_buses w' = (wd_buses w)(0 := fold (\<lambda>f. post_events (map poll_queued (posts f))) fs (wd_buses w 0))"
    "core w' = fold (\<lambda>f w. w\<lparr>poll_cout := poll_cout w @ prints f\<rparr>) fs ((core w)\<lparr>wd_reads := Suc (wd_reads w)\<rparr>)"
    by (rule world_tasks [OF poll_tasks_do w(3) _ few args call, unfolded w(1)]) (simp, blast)
  note core = fs(9) [unfolded prints_done]
  have fields: "wd_clock w' = wd_clock w" "wd_reads w' = Suc (wd_reads w)" "poll_cout w' = poll_cout w @ concat (map prints fs)"
    "poll_running w' = poll_running w"
    unfolding poll_core_views [of w', symmetric] core by (simp_all add: poll_core_views)
  have split: "image_mset NoArgModel g = mset (map NoArgModel fs) + image_mset e_task (live (enter_tm 0 w'))" using fs(5) w(4) by simp
  obtain f' g' where g: "g = f' + g'" "mset (map NoArgModel fs) = image_mset NoArgModel f'" "image_mset e_task (live (enter_tm 0 w')) = image_mset NoArgModel g'"
    using image_mset_eq_plusD [OF split] by metis
  have "image_mset NoArgModel (mset fs) = image_mset NoArgModel f'" using g(2) by simp
  then have "mset fs = f'" by (rule injD [OF multiset.inj_map, rotated]) (simp add: inj_def)
  moreover have "wd_buses w' 0 = one_subscriber u 0 (map poll_queued (concat (map posts fs)))"
    by (simp add: fs(8) w(2) posted_one_subscriber map_concat comp_def)
  ultimately have "poll_world u c (concat (map posts fs)) g' w'" "g = mset fs + g'"
    using fs(4) g w(1) fields(1) by (simp_all add: poll_world_def)
  then show thesis using that [OF call [unfolded fs(3)]] fs(1,2,6,7) fields by blast
qed


text \<open>
  A pass prints the queued events and runs the due tasks \<open>fs\<close>, whose events are then queued. Either \<^verbatim>\<open>continue\<close> or a
  wait with a time-out ends it.
\<close>

definition recommends ::
  "(time \<Rightarrow> (poll_task, poll_state) TM_scheme \<Rightarrow> time \<times> (poll_task, poll_state) TM_scheme) \<Rightarrow> bool"
where
  "recommends f \<longleftrightarrow> (\<forall>now s. one_shot s \<longrightarrow> one_shot (snd (f now s)) \<and> live (snd (f now s)) = live s \<and>
     live_delayed (snd (f now s)) = live_delayed s \<and> TM.more (snd (f now s)) = TM.more s)"

lemma recommends_ms: "recommends (\<lambda>now. recommend_wait_for_ms now 1)" "recommends (\<lambda>now. recommend_wait_for now (milliseconds 1))"
proof -
  show "recommends (\<lambda>now. recommend_wait_for_ms now 1)" by (simp add: recommends_def one_shot_recommend)
  then show "recommends (\<lambda>now. recommend_wait_for now (milliseconds 1))"
    by (simp add: recommends_def recommend_wait_for_ms_def)
qed

lemma poll_wait:
  assumes pw: "poll_world u c ys g w" and f: "recommends f"
    and w': "w' = leave_tm 0 (snd (f now (enter_tm 0 (w\<lparr>wd_reads := k\<rparr>))))"
  shows "poll_world u c ys g w'" "live (enter_tm 0 w') = live (enter_tm 0 w)" "live_delayed (enter_tm 0 w') = live_delayed (enter_tm 0 w)"
    "wd_reads w' = k" "poll_cout w' = poll_cout w" "poll_running w' = poll_running w"
proof -
  let ?w = "w\<lparr>wd_reads := k\<rparr>" let ?s = "snd (f now (enter_tm 0 ?w))"
  note same = same_manager_views [OF same_manager_enter [of ?w 0 w, simplified]]
  have "one_shot (enter_tm 0 ?w)" using pw by (simp add: same poll_world_def)
  then have s: "one_shot ?s" "live ?s = live (enter_tm 0 w)" "live_delayed ?s = live_delayed (enter_tm 0 w)" "TM.more ?s = ?w"
    using f by (simp_all add: recommends_def same)
  note left = same_manager_views [OF same_manager_leave [of ?s 0], folded w']
  show live: "live (enter_tm 0 w') = live (enter_tm 0 w)" "live_delayed (enter_tm 0 w') = live_delayed (enter_tm 0 w)"
    by (simp_all add: left s)
  have core: "core w' = (core w)\<lparr>wd_reads := k\<rparr>" and buses: "wd_buses w' = wd_buses w" by (simp_all add: w' s(4))
  have fields: "wd_clock w' = wd_clock w" "wd_reads w' = k" "poll_cout w' = poll_cout w" "poll_running w' = poll_running w"
    unfolding poll_core_views [of w', symmetric] core by (simp_all add: poll_core_views)
  then show "wd_reads w' = k" "poll_cout w' = poll_cout w" "poll_running w' = poll_running w" by simp_all
  show "poll_world u c ys g w'" using pw s(1) by (simp add: poll_world_def left(5) live fields(1) buses)
qed

lemma poll_pass:
  assumes pw: "poll_world u c ys g w" and size: "size g \<le> 128" and f: "recommends f"
  obtains v fs g' w' due where "poll_tick f w = (v, w')" "v = Again \<or> (\<exists>old l. v = Sleep old (Some l))"
    "poll_world u c (concat (map posts fs)) g' w'" "g = mset fs + g'"
    "live (enter_tm 0 w') = filter_mset (\<lambda>e. c (wd_reads w) < e_due e) (live_delayed (enter_tm 0 w))"
    "live_delayed (enter_tm 0 w') = live (enter_tm 0 w')" "wd_reads w' = (if ys = [] \<and> fs = [] then Suc (Suc (wd_reads w)) else Suc (wd_reads w))"
    "poll_cout w' = poll_cout w @ concat (map event_line ys) @ concat (map prints fs)"
    "poll_running w' = (poll_running w \<and> \<not> (u = On_log_event \<and> ''quit'' \<in> set ys))"
    "mset due = filter_mset (\<lambda>e. e_due e \<le> c (wd_reads w)) (live_delayed (enter_tm 0 w))"
    "map NoArgModel fs = map e_task (in_line (enter_tm 0 w) due)"
proof -
  obtain w1 where w1: "world_bus_process poll_code 0 w = (Inr (length ys), w1)" "wd_tms w1 = wd_tms w" "poll_world u c [] g w1"
    "wd_reads w1 = wd_reads w" "poll_cout w1 = poll_cout w @ concat (map event_line ys)"
    "poll_running w1 = (poll_running w \<and> \<not> (u = On_log_event \<and> ''quit'' \<in> set ys))"
    by (rule poll_bus [OF pw])
  note same = same_manager_views [OF same_manager_enter [OF fun_cong [OF w1(2)]]]
  obtain fs w2 g' due where w2: "world_tm_process poll_code 128 0 w1 = (Inr (length fs), w2)" "poll_world u c (concat (map posts fs)) g' w2"
    "g = mset fs + g'" "live (enter_tm 0 w2) = filter_mset (\<lambda>e. c (wd_reads w) < e_due e) (live_delayed (enter_tm 0 w))"
    "live_delayed (enter_tm 0 w2) = live (enter_tm 0 w2)" "wd_reads w2 = Suc (wd_reads w)"
    "poll_cout w2 = poll_cout w1 @ concat (map prints fs)" "poll_running w2 = poll_running w1"
    "mset due = filter_mset (\<lambda>e. e_due e \<le> c (wd_reads w)) (live_delayed (enter_tm 0 w))"
    "map NoArgModel fs = map e_task (in_line (enter_tm 0 w) due)"
    by (rule poll_tasks [OF w1(3) size, unfolded w1(4) same])
  show thesis
  proof (cases "ys = [] \<and> fs = []")
    case False
    then have "poll_tick f w = (Again, w2)" using w1(1) w2(1) by (auto simp: poll_tick_def Let_def)
    then show thesis using that [of Again w2 fs g' due] False w2 w1(5,6) by simp
  next
    case True
    define w3 where "w3 = leave_tm 0 (snd (f (wd_clock w2 (wd_reads w2)) (enter_tm 0 (w2\<lparr>wd_reads := Suc (wd_reads w2)\<rparr>))))"
    note wait = poll_wait [OF w2(2) f w3_def]
    have "\<exists>v. poll_tick f w = (v, w3) \<and> (v = Again \<or> (\<exists>old l. v = Sleep old (Some l)))"
      using True w1(1) w2(1) by (simp add: poll_tick_def Let_def read_clock_def w3_def split: prod.split)
    then show thesis using that [of _ w3 fs g' due] True w2 w1(5,6) wait by auto
  qed
qed


lemma poll_added:
  assumes pw: "poll_world u c ys g w" and e: "task_added 0 e due w w'" "e_task e = NoArgModel f"
  shows "poll_world u c ys (add_mset f g) w'" "wd_reads w' = wd_reads w" "poll_cout w' = poll_cout w" "poll_running w' = poll_running w"
proof -
  have core: "core w' = core w" using e(1) by (simp add: task_added_def)
  have fields: "wd_clock w' = wd_clock w" "wd_reads w' = wd_reads w" "poll_cout w' = poll_cout w" "poll_running w' = poll_running w"
    unfolding poll_core_views [of w', symmetric] core by (simp_all add: poll_core_views)
  then show "wd_reads w' = wd_reads w" "poll_cout w' = poll_cout w" "poll_running w' = poll_running w" by simp_all
  show "poll_world u c ys (add_mset f g) w'" using pw e by (simp add: poll_world_def task_added_def fields(1))
qed

lemma poll_reset_cout: "poll_cout (poll_reset w) = poll_cout w"
proof -
  have "core (poll_reset w) = core w"
    by (simp add: poll_reset_def on_tm_def on_bus_def reset_notifier_def bus_reset_notifier_def set_notifier_def bus_set_notifier_def
        enter_tm_def enter_bus_def TM.extend_def EPS.extend_def)
  then show ?thesis using poll_core_views(3) by metis
qed

lemma poll_sources:
  "poll_subscribe u (on_bus 0 (EventEndpoint_init 1) (on_tm 0 (set_notifier (Some 0)) (on_bus 0 (bus_set_notifier (Some 0)) (poll_start c)))) =
     (poll_start c)\<lparr>wd_buses := (\<lambda>_. new_bus)(0 := one_subscriber u 0 []), wd_tms := (\<lambda>_. TaskManager_init None)(0 := TaskManager_init (Some 0))\<rparr>"
  "on_tm 0 (set_notifier (Some 0)) (poll_subscribe u (on_bus 0 (EventEndpoint_init 1) (on_bus 0 (bus_set_notifier (Some 0)) (poll_start c)))) =
     (poll_start c)\<lparr>wd_buses := (\<lambda>_. new_bus)(0 := one_subscriber u 0 []), wd_tms := (\<lambda>_. TaskManager_init None)(0 := TaskManager_init (Some 0))\<rparr>"
  by (simp_all add: poll_start_def poll_subscribe_def on_world_eval TaskManager_init_def new_bus_def one_subscriber_def demo_eval cong: demo_congs)


text \<open>Building the program: the clock has been read \<open>k\<close> times, \<open>n\<close> is the manager's next id.\<close>

definition poll_built :: "poll_fn \<Rightarrow> (nat \<Rightarrow> time) \<Rightarrow> string list \<Rightarrow> poll_task multiset \<Rightarrow> nat \<Rightarrow> TaskId \<Rightarrow> poll_state \<Rightarrow> bool" where
  "poll_built u c ys g k n w \<longleftrightarrow> poll_world u c ys g w \<and> wd_reads w = k \<and> tm_next_id (enter_tm 0 w) = n \<and>
     \<not> tm_closed (enter_tm 0 w) \<and> poll_cout w = [] \<and> poll_running w"

text \<open>The entry \<open>e\<close> has come to the manager, delayed until \<open>due\<close> if there is such a time.\<close>

definition gains :: "poll_task Entry \<Rightarrow> time option \<Rightarrow> poll_state \<Rightarrow> poll_state \<Rightarrow> bool" where
  "gains e due w w' \<longleftrightarrow> live (enter_tm 0 w') = add_mset e (live (enter_tm 0 w)) \<and>
     live_delayed (enter_tm 0 w') = (if due = None then live_delayed (enter_tm 0 w) else add_mset e (live_delayed (enter_tm 0 w))) \<and>
     (\<forall>d. due = Some d \<longrightarrow> e_due e = d) \<and>
     (\<forall>q < 3. live_in (enter_tm 0 w') queued_ready (tm_ready (enter_tm 0 w') q) =
        live_in (enter_tm 0 w) queued_ready (tm_ready (enter_tm 0 w) q) @
          (if due = None \<and> q = priority_index (opt_priority default_TaskOptions) then [e] else [])) \<and>
     e_priority e = opt_priority default_TaskOptions"

lemma poll_gains:
  assumes b: "poll_built u c ys g k n w" and e: "task_added 0 e due w w'" "e_task e = NoArgModel f" "e_priority e = opt_priority default_TaskOptions"
  shows "gains e due w w'" "poll_built u c ys (add_mset f g) k (n + 1) w'"
proof -
  show "gains e due w w'" using e by (auto simp: gains_def task_added_def of_priority_def)
  have "poll_world u c ys g w" using b by (simp add: poll_built_def)
  note added = poll_added [OF this e(1,2)]
  show "poll_built u c ys (add_mset f g) k (n + 1) w'" using b added e(1) by (simp add: poll_built_def task_added_def)
qed

lemma poll_built_post:
  assumes b: "poll_built u c ys g k n w" "n \<noteq> 0"
  obtains e where "e_task e = NoArgModel f" "gains e None w (poll_post f w)" "poll_built u c ys (add_mset f g) k (n + 1) (poll_post f w)"
proof -
  have "one_shot (enter_tm 0 w)" "tm_next_id (enter_tm 0 w) \<noteq> 0" "\<not> tm_closed (enter_tm 0 w)"
    using b by (simp_all add: poll_built_def poll_world_def)
  from world_post [OF this] obtain e where "e_task e = NoArgModel f" "e_priority e = opt_priority default_TaskOptions"
    "task_added 0 e None w (poll_post f w)"
    unfolding poll_post_def by blast
  then show thesis using that poll_gains [OF b(1)] by blast
qed

lemma poll_built_post_after:
  assumes b: "poll_built u c ys g k n w" "n \<noteq> 0"
  obtains e where "e_task e = NoArgModel f"
    "gains e (if c k + delay \<le> c (Suc k) then None else Some (c k + delay)) w (poll_post_after delay f w)"
    "poll_built u c ys (add_mset f g) (Suc (Suc k)) (n + 1) (poll_post_after delay f w)"
proof -
  let ?w = "w\<lparr>wd_reads := Suc (Suc k)\<rparr>"
  note same = same_manager_views [OF same_manager_enter [of ?w 0 w, simplified]]
  have b': "poll_built u c ys g (Suc (Suc k)) n ?w" using b by (simp add: poll_built_def poll_world_def same)
  have "one_shot (enter_tm 0 ?w)" "tm_next_id (enter_tm 0 ?w) \<noteq> 0" "\<not> tm_closed (enter_tm 0 ?w)"
    using b'(1) b(2) by (simp_all add: poll_built_def poll_world_def)
  moreover have "wd_clock w = c" "wd_reads w = k" using b(1) by (simp_all add: poll_built_def poll_world_def)
  then have "poll_post_after delay f w = on_tm 0 (\<lambda>s. snd (post_at (c (Suc k)) (c k + delay) (NoArgModel f) default_TaskOptions s)) ?w"
    by (simp add: poll_post_after_def read_clock_def post_after_def)
  ultimately obtain e where e: "e_task e = NoArgModel f" "e_priority e = opt_priority default_TaskOptions"
    "task_added 0 e (if c k + delay \<le> c (Suc k) then None else Some (c k + delay)) ?w (poll_post_after delay f w)"
    using world_post_at by metis
  note g = poll_gains [OF b' e(3,1,2)]
  have "gains e due ?w = gains e due w" for due by (simp add: gains_def same fun_eq_iff)
  then show thesis using that e(1) g by metis
qed


definition poll_ready :: "poll_fn \<Rightarrow> (nat \<Rightarrow> time) \<Rightarrow> poll_state" where
  "poll_ready u c = (poll_start c)\<lparr>wd_buses := (\<lambda>_. new_bus)(0 := one_subscriber u 0 []),
     wd_tms := (\<lambda>_. TaskManager_init None)(0 := TaskManager_init (Some 0))\<rparr>"

lemma poll_built_ready:
  shows "poll_built u c [] {#} 0 1 (poll_ready u c)" "live (enter_tm 0 (poll_ready u c)) = {#}"
    "live_delayed (enter_tm 0 (poll_ready u c)) = {#}" "live_in (enter_tm 0 (poll_ready u c)) v (tm_ready (enter_tm 0 (poll_ready u c)) q) = []"
proof -
  have "wd_tms (poll_ready u c) 0 = TaskManager_init (Some 0)" by (simp add: poll_ready_def)
  note new = new_manager [OF this]
  show "poll_built u c [] {#} 0 1 (poll_ready u c)"
    using new by (simp add: poll_built_def poll_world_def) (simp add: poll_ready_def poll_start_def)
  show "live (enter_tm 0 (poll_ready u c)) = {#}" "live_delayed (enter_tm 0 (poll_ready u c)) = {#}"
    "live_in (enter_tm 0 (poll_ready u c)) v (tm_ready (enter_tm 0 (poll_ready u c)) q) = []"
    using new by (simp_all add: live_in_def)
qed

end
