(* ===== verification/Example_Poll_Bus.thy ===== *)
theory Example_Poll_Bus
  imports Example_Poll
begin

text \<open>
  The program \<^verbatim>\<open>examples/task_manager_with_bus.cpp\<close>: delayed tasks post events, and the event \<^verbatim>\<open>quit\<close> ends the loop.
\<close>

section \<open>The program\<close>

definition with_bus_setup :: "poll_state \<Rightarrow> poll_state" where
  "with_bus_setup w =
     (let w = on_bus 0 (bus_set_notifier (Some 0)) w;
          w = on_tm 0 (set_notifier (Some 0)) w;
          w = on_bus 0 (EventEndpoint_init 1) w;
          w = poll_subscribe On_log_event w;
          w = poll_post (Print_task ''immediate work'') w;
          w = poll_post_after_ms 2 (Post_task ''published by delayed task'') w
      in poll_post_after_ms 4 (Post_task ''quit'') w)"

definition with_bus_iteration :: "poll_state \<Rightarrow> verdict \<times> poll_state" where
  "with_bus_iteration w =
     (if \<not> poll_running w then (Leave, w) else poll_tick (\<lambda>now. recommend_wait_for_ms now 1) w)"

text \<open>No other thread runs: a wait changes nothing, and the readings of the clock after it are later.\<close>

definition with_bus_main :: "(nat \<Rightarrow> time) \<Rightarrow> nat \<Rightarrow> (exn option \<times> poll_state) option" where
  "with_bus_main clock fuel =
     map_option (\<lambda>(x, w). (x, if x = None then poll_reset w else w))
       (drive with_bus_iteration (blocking_wait id 0) fuel (with_bus_setup (poll_start clock)))"

text \<open>The tasks left when those behind the messages \<open>ms\<close> have run and \<open>i\<close> tells whether the immediate one has.\<close>

definition tasks_left :: "string \<Rightarrow> string \<Rightarrow> string \<Rightarrow> bool \<Rightarrow> string list \<Rightarrow> poll_task multiset" where
  "tasks_left imm pub quit i ms = (if i then {#} else {#Print_task imm#}) +
     (if pub \<in> set ms then {#} else {#Post_task pub#}) + (if quit \<in> set ms then {#} else {#Post_task quit#})"

definition message_orders :: "string \<Rightarrow> string \<Rightarrow> string list set" where
  "message_orders pub quit = {[], [pub], [pub, quit], [quit, pub]}"

lemma three_distinct:
  assumes "distinct fs" "set fs \<subseteq> {a, b, c}"
  shows "fs \<in> {[], [a], [b], [c], [a, b], [a, c], [b, a], [b, c], [c, a], [c, b],
    [a, b, c], [a, c, b], [b, a, c], [b, c, a], [c, a, b], [c, b, a]}"
proof -
  have "length fs \<le> 3"
    using card_mono [OF _ assms(2)] assms(1) card_insert_le_m1 [of 3 "{b, c}" a] card_insert_le_m1 [of 2 "{c}" b] by (simp add: distinct_card)
  then consider "fs = []" | x where "fs = [x]" | x y where "fs = [x, y]" | x y z where "fs = [x, y, z]"
    by (cases fs rule: remdups_adj.cases; auto simp: le_Suc_eq length_Suc_conv numeral_3_eq_3)
  then show ?thesis using assms by cases auto
qed

lemma tasks_left_split:
  assumes ms: "ms \<in> message_orders pub quit" and neq: "pub \<noteq> quit" and all: "tasks_left imm pub quit i ms = mset fs + g"
    and imm: "Print_task imm \<notin># g" and q: "g = {#} \<or> (Post_task quit \<in># tasks_left imm pub quit i ms \<longrightarrow> Post_task quit \<in># g)"
  shows "concat (map prints fs) = (if i then [] else task_line imm) \<and> ms @ concat (map posts fs) \<in> message_orders pub quit \<and>
    g = tasks_left imm pub quit True (ms @ concat (map posts fs))"
proof -
  have "count (mset fs) f \<le> count (tasks_left imm pub quit i ms) f" for f unfolding all by simp
  moreover have "count (tasks_left imm pub quit i ms) f \<le> 1" for f using neq by (auto simp: tasks_left_def)
  ultimately have one: "count (mset fs) f \<le> 1" for f using le_trans by blast
  have "count (mset fs) f = (if f \<in> set fs then 1 else 0)" for f
  proof (cases "f \<in> set fs")
    case True
    then have "0 < count (mset fs) f" by simp
    then have "count (mset fs) f = 1" using one [of f] by linarith
    then show ?thesis using True by simp
  qed (simp add: not_in_iff [symmetric])
  then have d: "distinct fs" unfolding distinct_count_atmost_1 by blast
  have sub: "set fs \<subseteq> set_mset (tasks_left imm pub quit i ms)" unfolding all by simp
  then have "set fs \<subseteq> {Print_task imm, Post_task pub, Post_task quit}" by (auto simp: tasks_left_def split: if_splits)
  note fs = three_distinct [OF d this]
  have g: "g = tasks_left imm pub quit i ms - mset fs" using all by simp
  have ms': "ms = [] \<or> ms = [pub] \<or> (pub \<in> set ms \<and> quit \<in> set ms)" using ms by (auto simp: message_orders_def)
  note neq' = neq neq [symmetric]
  show ?thesis
  proof (cases "pub \<in> set ms \<and> quit \<in> set ms")
    case True
    then have "fs = [] \<or> fs = [Print_task imm]" using sub fs by (auto simp: tasks_left_def split: if_splits)
    then show ?thesis using True ms imm sub unfolding g by (auto simp: tasks_left_def split: if_splits)
  next
    case False
    then have "ms = [] \<or> ms = [pub]" using ms' by blast
    then show ?thesis using fs imm q sub neq' unfolding g message_orders_def tasks_left_def
      by (elim disjE insertE emptyE; cases i; simp)
  qed
qed


lemma message_orders_quit:
  assumes "ms \<in> message_orders pub quit" "ms @ zs \<in> message_orders pub quit" "pub \<noteq> quit" "quit \<in> set ms"
  shows "zs = []"
proof -
  have "ms \<noteq> []" "ms \<noteq> [pub]" using assms(3,4) by auto
  then have "length ms = 2" using assms(1) by (auto simp: message_orders_def)
  moreover have "length l \<le> 2" if "l \<in> message_orders pub quit" for l using that by (auto simp: message_orders_def)
  from this [OF assms(2)] have "length ms + length zs \<le> 2" by simp
  ultimately show ?thesis by simp
qed

abbreviation Immediate :: string where "Immediate \<equiv> ''immediate work''"

abbreviation Published :: string where "Published \<equiv> ''published by delayed task''"

abbreviation Quit :: string where "Quit \<equiv> ''quit''"

text \<open>
  The messages \<open>xs\<close> have been printed, \<open>ys\<close> are queued. The last task is due at \<open>d\<close>: from then on everything is due, and
  before then it is still queued.
\<close>

definition polling :: "(nat \<Rightarrow> time) \<Rightarrow> time \<Rightarrow> bool \<Rightarrow> string list \<Rightarrow> string list \<Rightarrow> poll_state \<Rightarrow> bool" where
  "polling c d i xs ys w \<longleftrightarrow>
     poll_world On_log_event c ys (tasks_left Immediate Published Quit i (xs @ ys)) w \<and>
     poll_cout w = (if i then task_line Immediate else []) @ concat (map event_line xs) \<and> poll_running w = (Quit \<notin> set xs) \<and>
     xs @ ys \<in> message_orders Published Quit \<and> (\<not> i \<longrightarrow> xs @ ys = []) \<and> (Quit \<in> set xs \<longrightarrow> ys = []) \<and>
     (\<forall>e \<in># live_delayed (enter_tm 0 w). e_due e \<le> d \<and> e_task e \<noteq> NoArgModel (Print_task Immediate)) \<and>
     (d \<le> c (wd_reads w) \<or> (\<forall>e \<in># live (enter_tm 0 w). e_task e = NoArgModel (Post_task Quit) \<longrightarrow>
        e \<in># live_delayed (enter_tm 0 w) \<and> e_due e = d))"

lemma tasks_member:
  assumes "image_mset e_task M = image_mset NoArgModel g"
  shows "f \<in># g \<longleftrightarrow> (\<exists>e \<in># M. e_task e = NoArgModel f)"
proof -
  have "NoArgModel f \<in># image_mset e_task M \<longleftrightarrow> NoArgModel f \<in># image_mset NoArgModel g" by (simp only: assms)
  then show ?thesis by (auto simp: eq_commute)
qed

lemma polling_pass:
  assumes mono: "\<And>m n. m \<le> n \<Longrightarrow> c m \<le> c n" and pol: "polling c d i xs ys w" and no: "Quit \<notin> set xs"
  obtains v zs w' where "with_bus_iteration w = (v, w')" "v = Again \<or> (\<exists>old l. v = Sleep old (Some l))" "polling c d True (xs @ ys) zs w'"
    "wd_reads w < wd_reads w'" "d \<le> c (wd_reads w) \<longrightarrow> Quit \<in> set ((xs @ ys) @ zs)"
proof -
  note p = pol [unfolded polling_def]
  let ?left = "tasks_left Immediate Published Quit i (xs @ ys)"
  have pw: "poll_world On_log_event c ys ?left w" and live: "image_mset e_task (live (enter_tm 0 w)) = image_mset NoArgModel ?left"
    using p by (simp_all add: poll_world_def)
  have size: "size ?left \<le> 128" by (simp add: tasks_left_def)
  obtain v fs g w' where it: "poll_tick (\<lambda>now. recommend_wait_for_ms now 1) w = (v, w')" "v = Again \<or> (\<exists>old l. v = Sleep old (Some l))"
    "poll_world On_log_event c (concat (map posts fs)) g w'" "?left = mset fs + g"
    "live (enter_tm 0 w') = filter_mset (\<lambda>e. c (wd_reads w) < e_due e) (live_delayed (enter_tm 0 w))"
    "live_delayed (enter_tm 0 w') = live (enter_tm 0 w')" "wd_reads w' = (if ys = [] \<and> fs = [] then Suc (Suc (wd_reads w)) else Suc (wd_reads w))"
    "poll_cout w' = poll_cout w @ concat (map event_line ys) @ concat (map prints fs)"
    "poll_running w' = (poll_running w \<and> \<not> (On_log_event = On_log_event \<and> Quit \<in> set ys))"
    by (rule poll_pass [OF pw size recommends_ms(1)])
  have live': "image_mset e_task (live (enter_tm 0 w')) = image_mset NoArgModel g" using it(3) by (simp add: poll_world_def)
  have imm: "Print_task Immediate \<notin># g" using p unfolding tasks_member [OF live'] it(5) by auto
  have none: "g = {#}" if "d \<le> c (wd_reads w)"
  proof -
    have "live (enter_tm 0 w') = {#}" unfolding it(5) using p that by (fastforce simp: filter_mset_eq_conv)
    then show ?thesis using live' by simp
  qed
  have "Post_task Quit \<in># ?left \<longrightarrow> Post_task Quit \<in># g" if "\<not> d \<le> c (wd_reads w)"
    using p that unfolding tasks_member [OF live'] tasks_member [OF live] it(5) by auto
  then have q: "g = {#} \<or> (Post_task Quit \<in># ?left \<longrightarrow> Post_task Quit \<in># g)" using none by blast
  have orders: "xs @ ys \<in> message_orders Published Quit" using p by simp
  let ?zs = "concat (map posts fs)"
  have split: "concat (map prints fs) = (if i then [] else task_line Immediate)" "(xs @ ys) @ ?zs \<in> message_orders Published Quit"
    "g = tasks_left Immediate Published Quit True ((xs @ ys) @ ?zs)"
    using tasks_left_split [OF orders _ it(4) imm q] by simp_all
  have out: "poll_cout w' = (if True then task_line Immediate else []) @ concat (map event_line (xs @ ys))"
    using p split(1) by (cases i) (simp_all add: it(8))
  have later: "wd_reads w < wd_reads w'" by (simp add: it(7))
  have due: "d \<le> c (wd_reads w') \<or> (\<forall>e \<in># live (enter_tm 0 w'). e_task e = NoArgModel (Post_task Quit) \<longrightarrow>
      e \<in># live_delayed (enter_tm 0 w') \<and> e_due e = d)"
  proof (cases "d \<le> c (wd_reads w)")
    case True
    then show ?thesis using mono [of "wd_reads w" "wd_reads w'"] later by auto
  next
    case False
    then have before: "\<forall>e \<in># live (enter_tm 0 w). e_task e = NoArgModel (Post_task Quit) \<longrightarrow> e_due e = d" using p by blast
    have "e_due e = d" if "e \<in># live (enter_tm 0 w')" "e_task e = NoArgModel (Post_task Quit)" for e
    proof -
      have "e \<in># live (enter_tm 0 w)" using that(1) by (simp add: it(5)) (simp add: live_def)
      then show ?thesis using before that(2) by blast
    qed
    then show ?thesis using it(6) by metis
  qed
  have queued: "\<forall>e \<in># live_delayed (enter_tm 0 w'). e_due e \<le> d \<and> e_task e \<noteq> NoArgModel (Print_task Immediate)"
    using p unfolding it(6) unfolding it(5) by auto
  have running: "poll_running w' = (Quit \<notin> set (xs @ ys))" using p by (simp add: it(9))
  have emptied: "Quit \<in> set (xs @ ys) \<longrightarrow> ?zs = []"
    using message_orders_quit [OF orders split(2)] by simp
  show thesis
  proof (rule that [of v w' ?zs])
    show "with_bus_iteration w = (v, w')" using p no by (simp add: with_bus_iteration_def it(1))
    show "polling c d True (xs @ ys) ?zs w'"
      unfolding polling_def using it(3) [unfolded split(3)] split(2) out due running emptied queued by blast
    show "d \<le> c (wd_reads w) \<longrightarrow> Quit \<in> set ((xs @ ys) @ ?zs)"
      using none split(3) by (auto simp: tasks_left_def split: if_splits)
  qed (use it(2) later in simp_all)
qed


lemma with_bus_ends:
  assumes mono: "\<And>m n. m \<le> n \<Longrightarrow> c m \<le> c n" and late: "d \<le> c N"
  shows "polling c d i xs ys w \<Longrightarrow> \<exists>fuel w' zs. drive with_bus_iteration (blocking_wait id 0) fuel w = Some (None, w') \<and>
    polling c d True zs [] w' \<and> Quit \<in> set zs"
proof (induction "if Quit \<in> set xs then 0 else if Quit \<in> set ys then 1 else Suc (Suc (N - wd_reads w))"
    arbitrary: i xs ys w rule: less_induct)
  case (less xs ys w i)
  show ?case
  proof (cases "Quit \<in> set xs")
    case True
    then have "ys = []" "\<not> poll_running w" i using less.prems by (auto simp: polling_def)
    then show ?thesis using less.prems True
      by (intro exI [of _ 1] exI [of _ w] exI [of _ xs]) (simp add: with_bus_iteration_def)
  next
    case False
    obtain v zs w' where it: "with_bus_iteration w = (v, w')" "v = Again \<or> (\<exists>old l. v = Sleep old (Some l))" "polling c d True (xs @ ys) zs w'"
      "wd_reads w < wd_reads w'" "d \<le> c (wd_reads w) \<longrightarrow> Quit \<in> set ((xs @ ys) @ zs)"
      by (rule polling_pass [OF mono less.prems False])
    have "Quit \<in> set ((xs @ ys) @ zs) \<or> wd_reads w < N" using it(5) mono [of N "wd_reads w"] late by force
    then have "(if Quit \<in> set (xs @ ys) then 0 else if Quit \<in> set zs then 1 else Suc (Suc (N - wd_reads w'))) <
        (if Quit \<in> set xs then 0 else if Quit \<in> set ys then 1 else Suc (Suc (N - wd_reads w)))"
      using False it(4) by auto
    from less.hyps [OF this it(3)] obtain fuel u ms where u: "drive with_bus_iteration (blocking_wait id 0) fuel w' = Some (None, u)"
      "polling c d True ms [] u" "Quit \<in> set ms"
      by blast
    have "drive with_bus_iteration (blocking_wait id 0) (Suc fuel) w = drive with_bus_iteration (blocking_wait id 0) fuel w'"
      using it(1,2) by (auto simp: blocking_wait_def)
    then show ?thesis using u by metis
  qed
qed


lemma with_bus_setup_polling:
  assumes mono: "\<And>m n. m \<le> n \<Longrightarrow> c m \<le> c n"
  shows "polling c (c 2 + milliseconds 4) False [] [] (with_bus_setup (poll_start c))"
proof -
  let ?w0 = "poll_ready On_log_event c"
  let ?w1 = "poll_post (Print_task Immediate) ?w0" let ?w2 = "poll_post_after (milliseconds 2) (Post_task Published) ?w1"
  let ?w3 = "poll_post_after (milliseconds 4) (Post_task Quit) ?w2"
  note start = poll_built_ready [of On_log_event c]
  obtain e1 where e1: "e_task e1 = NoArgModel (Print_task Immediate)" "gains e1 None ?w0 ?w1"
    "poll_built On_log_event c [] (add_mset (Print_task Immediate) {#}) 0 (1 + 1) ?w1"
    by (rule poll_built_post [OF start(1)]) simp
  obtain e2 where e2: "e_task e2 = NoArgModel (Post_task Published)"
    "gains e2 (if c 0 + milliseconds 2 \<le> c (Suc 0) then None else Some (c 0 + milliseconds 2)) ?w1 ?w2"
    "poll_built On_log_event c [] (add_mset (Post_task Published) (add_mset (Print_task Immediate) {#})) (Suc (Suc 0)) (1 + 1 + 1) ?w2"
    by (rule poll_built_post_after [OF e1(3)]) simp
  obtain e3 where e3: "e_task e3 = NoArgModel (Post_task Quit)"
    "gains e3 (if c (Suc (Suc 0)) + milliseconds 4 \<le> c (Suc (Suc (Suc 0))) then None else Some (c (Suc (Suc 0)) + milliseconds 4)) ?w2 ?w3"
    "poll_built On_log_event c [] (add_mset (Post_task Quit) (add_mset (Post_task Published) (add_mset (Print_task Immediate) {#})))
       (Suc (Suc (Suc (Suc 0)))) (1 + 1 + 1 + 1) ?w3"
    by (rule poll_built_post_after [OF e2(3)]) simp
  have made: "with_bus_setup (poll_start c) = ?w3"
    by (simp add: with_bus_setup_def poll_sources(1) poll_ready_def poll_post_after_ms_eq del: One_nat_def)
  have times: "c 0 + milliseconds 2 \<le> c (Suc (Suc 0)) + milliseconds 4" "c (Suc (Suc (Suc 0))) \<le> c (Suc (Suc (Suc (Suc 0))))"
    using mono [of 0 "Suc (Suc 0)"] mono [of "Suc (Suc (Suc 0))" "Suc (Suc (Suc (Suc 0)))"] by (simp_all add: milliseconds_def)
  have "tasks_left Immediate Published Quit False ([] @ []) = add_mset (Post_task Quit) (add_mset (Post_task Published) (add_mset (Print_task Immediate) {#}))"
    by (simp add: tasks_left_def)
  then show ?thesis
    unfolding polling_def made
    using e1(1,2) e2(1,2) e3 start(2,3) times by (auto simp: poll_built_def gains_def message_orders_def numeral_2_eq_2)
qed

text \<open>
  \<^verbatim>\<open>examples/task_manager_with_bus.cpp\<close> ends. If the clock never goes back and passes every time, the loop leaves without
  an exception; it has printed the line of the immediate task, then the two events, each once. (A clock that jumps
  while the tasks are posted can bring the event \<^verbatim>\<open>quit\<close> to the front; the other is printed all the same.)
\<close>

theorem with_bus_example_ends:
  assumes mono: "\<forall>m n. m \<le> n \<longrightarrow> clock m \<le> clock n" and late: "\<forall>t. \<exists>n. t \<le> clock n"
  shows "\<exists>fuel w ms. with_bus_main clock fuel = Some (None, w) \<and>
    ms \<in> {[''published by delayed task'', ''quit''], [''quit'', ''published by delayed task'']} \<and>
    poll_cout w = [Text ''task: '', Text ''immediate work'', endl] @ concat (map (\<lambda>msg. [Text ''event: '', Text msg, endl]) ms)"
proof -
  obtain N where N: "clock 2 + milliseconds 4 \<le> clock N" using late by blast
  obtain fuel w ms where w: "drive with_bus_iteration (blocking_wait id 0) fuel (with_bus_setup (poll_start clock)) = Some (None, w)"
    "polling clock (clock 2 + milliseconds 4) True ms [] w" "''quit'' \<in> set ms"
    using with_bus_ends [OF _ N with_bus_setup_polling] mono by blast
  have "ms \<in> {[''published by delayed task'', ''quit''], [''quit'', ''published by delayed task'']}"
    using w(2,3) by (auto simp: polling_def message_orders_def)
  then show ?thesis using w
    by (intro exI [of _ fuel] exI [of _ "poll_reset w"] exI [of _ ms])
      (simp add: with_bus_main_def poll_reset_cout polling_def task_line_def event_line_def [abs_def])
qed

theorem with_bus_example_ends_witness:
  "\<exists>fuel w ms. with_bus_main (\<lambda>n. milliseconds (int n)) fuel = Some (None, w) \<and>
    ms \<in> {[''published by delayed task'', ''quit''], [''quit'', ''published by delayed task'']} \<and>
    poll_cout w = [Text ''task: '', Text ''immediate work'', endl] @ concat (map (\<lambda>msg. [Text ''event: '', Text msg, endl]) ms)"
proof (rule with_bus_example_ends)
  show "\<forall>m n. m \<le> n \<longrightarrow> milliseconds (int m) \<le> milliseconds (int n)" by (simp add: milliseconds_def)
  have "t \<le> milliseconds (int (nat t))" for t by (simp add: milliseconds_def)
  then show "\<forall>t. \<exists>n. t \<le> milliseconds (int n)" by blast
qed

end
