(* ===== verification/Example_Poll_Notifier.thy ===== *)
theory Example_Poll_Notifier
  imports Example_Poll
begin

text \<open>
  The program \<^verbatim>\<open>examples/external_notifier.cpp\<close>: five passes over a bus and a manager.
\<close>

definition notifier_setup :: "poll_state \<Rightarrow> poll_state" where
  "notifier_setup w =
     (let w = on_bus 0 (bus_set_notifier (Some 0)) w;
          w = on_bus 0 (EventEndpoint_init 1) w;
          w = poll_subscribe On_message w;
          w = on_tm 0 (set_notifier (Some 0)) w;
          w = on_bus 0 (ep_post Poll_type (PollEvent ''configuration changed'')) w;
          w = poll_post (Print_task ''refresh cache'') w
      in poll_post_after (milliseconds 2) (Print_task ''delayed cleanup'') w)"

text \<open>The \<^verbatim>\<open>for\<close> loop with \<open>n\<close> passes to go; \<open>None\<close> is a wait that never returns.\<close>

fun notifier_ticks :: "nat \<Rightarrow> poll_state \<Rightarrow> (exn option \<times> poll_state) option" where
  "notifier_ticks 0 w = Some (None, w)"
| "notifier_ticks (Suc n) w =
     (case poll_tick (\<lambda>now. recommend_wait_for now (milliseconds 1)) w of
        (Sleep old limit, w) \<Rightarrow> Option.bind (blocking_wait id 0 old limit w) (notifier_ticks n)
      | (Fail x, w) \<Rightarrow> Some (Some x, w)
      | (v, w) \<Rightarrow> notifier_ticks n w)"

definition external_notifier_main :: "(nat \<Rightarrow> time) \<Rightarrow> (exn option \<times> poll_state) option" where
  "external_notifier_main clock =
     map_option (\<lambda>(x, w). (x, if x = None then poll_reset w else w)) (notifier_ticks 5 (notifier_setup (poll_start clock)))"

abbreviation Changed :: string where "Changed \<equiv> ''configuration changed''"

abbreviation Refresh :: poll_task where "Refresh \<equiv> Print_task ''refresh cache''"

abbreviation Cleanup :: poll_task where "Cleanup \<equiv> Print_task ''delayed cleanup''"

text \<open>After the first pass: the clean-up, due at \<open>d\<close>, is still to come, or everything has been printed.\<close>

definition cleaning :: "(nat \<Rightarrow> time) \<Rightarrow> time \<Rightarrow> poll_state \<Rightarrow> bool" where
  "cleaning c d w \<longleftrightarrow> poll_world On_message c [] {#Cleanup#} w \<and> live_delayed (enter_tm 0 w) = live (enter_tm 0 w) \<and>
     (\<forall>e \<in># live (enter_tm 0 w). e_due e = d) \<and> poll_cout w = event_line Changed @ prints Refresh"

definition cleaned :: "(nat \<Rightarrow> time) \<Rightarrow> poll_state \<Rightarrow> bool" where
  "cleaned c w \<longleftrightarrow> poll_world On_message c [] {#} w \<and> poll_cout w = event_line Changed @ prints Refresh @ prints Cleanup"

lemma notifier_next:
  assumes "poll_tick (\<lambda>now. recommend_wait_for now (milliseconds 1)) w = (v, w')" "v = Again \<or> (\<exists>old l. v = Sleep old (Some l))"
  shows "notifier_ticks (Suc n) w = notifier_ticks n w'"
  using assms by (auto simp: blocking_wait_def)

lemma cleaned_ticks: "cleaned c w \<Longrightarrow> \<exists>w'. notifier_ticks n w = Some (None, w') \<and> cleaned c w'"
proof (induction n arbitrary: w)
  case (Suc n)
  then have pw: "poll_world On_message c [] {#} w" by (simp add: cleaned_def)
  obtain v fs g w' due where it: "poll_tick (\<lambda>now. recommend_wait_for now (milliseconds 1)) w = (v, w')" "v = Again \<or> (\<exists>old l. v = Sleep old (Some l))"
    "poll_world On_message c (concat (map posts fs)) g w'" "{#} = mset fs + g"
    "poll_cout w' = poll_cout w @ concat (map event_line []) @ concat (map prints fs)"
    by (rule poll_pass [OF pw _ recommends_ms(2)]) simp
  then have "cleaned c w'" using Suc.prems by (simp add: cleaned_def)
  from Suc.IH [OF this] show ?case unfolding notifier_next [OF it(1,2)] .
qed auto

lemma cleaning_tick:
  assumes cl: "cleaning c d w"
  obtains v w' where "poll_tick (\<lambda>now. recommend_wait_for now (milliseconds 1)) w = (v, w')" "v = Again \<or> (\<exists>old l. v = Sleep old (Some l))"
    "if d \<le> c (wd_reads w) then cleaned c w' else cleaning c d w' \<and> wd_reads w' = Suc (Suc (wd_reads w))"
proof -
  have pw: "poll_world On_message c [] {#Cleanup#} w" using cl by (simp add: cleaning_def)
  have few: "size {#Cleanup#} \<le> 128" by simp
  obtain v fs g w' due where it: "poll_tick (\<lambda>now. recommend_wait_for now (milliseconds 1)) w = (v, w')" "v = Again \<or> (\<exists>old l. v = Sleep old (Some l))"
    "poll_world On_message c (concat (map posts fs)) g w'" "{#Cleanup#} = mset fs + g"
    "live (enter_tm 0 w') = filter_mset (\<lambda>e. c (wd_reads w) < e_due e) (live_delayed (enter_tm 0 w))"
    "live_delayed (enter_tm 0 w') = live (enter_tm 0 w')"
    "wd_reads w' = (if ([] :: string list) = [] \<and> fs = [] then Suc (Suc (wd_reads w)) else Suc (wd_reads w))"
    "poll_cout w' = poll_cout w @ concat (map event_line []) @ concat (map prints fs)"
    by (rule poll_pass [OF pw few recommends_ms(2)])
  have live: "live (enter_tm 0 w') = (if d \<le> c (wd_reads w) then {#} else live (enter_tm 0 w))"
    using cl by (auto simp: it(5) cleaning_def filter_mset_eq_conv)
  have "size (live (enter_tm 0 w')) = size g" "size (live (enter_tm 0 w)) = 1"
    using it(3) pw arg_cong [of _ _ size] by (auto simp: poll_world_def dest: arg_cong [of _ _ size])
  then have g: "g = (if d \<le> c (wd_reads w) then {#} else {#Cleanup#}) \<and> fs = (if d \<le> c (wd_reads w) then [Cleanup] else [])"
    using it(4) by (cases fs) (auto simp: live add_eq_conv_ex split: if_splits)
  show thesis
    by (rule that [OF it(1,2)]) (use cl it(3,6,7,8) g in \<open>cases "d \<le> c (wd_reads w)"; simp add: cleaning_def cleaned_def live\<close>)
qed


lemma cleaning_ticks:
  assumes mono: "\<And>m n. m \<le> n \<Longrightarrow> c m \<le> c n"
  shows "cleaning c d w \<Longrightarrow> \<exists>w'. notifier_ticks (Suc n) w = Some (None, w') \<and>
    (if d \<le> c (wd_reads w + 2 * n) then cleaned c w' else cleaning c d w')"
proof (induction n arbitrary: w)
  case (0 w)
  obtain v w' where it: "poll_tick (\<lambda>now. recommend_wait_for now (milliseconds 1)) w = (v, w')" "v = Again \<or> (\<exists>old l. v = Sleep old (Some l))"
    "if d \<le> c (wd_reads w) then cleaned c w' else cleaning c d w' \<and> wd_reads w' = Suc (Suc (wd_reads w))"
    by (rule cleaning_tick [OF 0])
  then show ?case unfolding notifier_next [OF it(1,2)] by (auto split: if_splits)
next
  case (Suc n w)
  obtain v w' where it: "poll_tick (\<lambda>now. recommend_wait_for now (milliseconds 1)) w = (v, w')" "v = Again \<or> (\<exists>old l. v = Sleep old (Some l))"
    "if d \<le> c (wd_reads w) then cleaned c w' else cleaning c d w' \<and> wd_reads w' = Suc (Suc (wd_reads w))"
    by (rule cleaning_tick [OF Suc.prems])
  show ?case
  proof (cases "d \<le> c (wd_reads w)")
    case True
    then have "d \<le> c (wd_reads w + 2 * Suc n)" using mono [of "wd_reads w" "wd_reads w + 2 * Suc n"] by simp
    then show ?thesis unfolding notifier_next [OF it(1,2)] using cleaned_ticks [of c w' "Suc n"] it(3) True by simp
  next
    case False
    then have "cleaning c d w'" "wd_reads w' = Suc (Suc (wd_reads w))" using it(3) by simp_all
    then show ?thesis unfolding notifier_next [OF it(1,2)] using Suc.IH [of w'] by simp
  qed
qed

section \<open>The first pass\<close>

lemma poll_built_posted:
  assumes "poll_built u c ys g k n w"
  shows "poll_built u c (ys @ [msg]) g k n (on_bus 0 (ep_post Poll_type (PollEvent msg)) w)"
    "gains e due (on_bus 0 (ep_post Poll_type (PollEvent msg)) w) = gains e due w"
    "live (enter_tm 0 (on_bus 0 (ep_post Poll_type (PollEvent msg)) w)) = live (enter_tm 0 w)"
proof -
  let ?w = "on_bus 0 (ep_post Poll_type (PollEvent msg)) w"
  have tm: "wd_tms ?w 0 = wd_tms w 0" by (simp add: on_bus_post)
  note same = same_manager_views [OF same_manager_enter [OF tm]]
  show "gains e due ?w = gains e due w" "live (enter_tm 0 ?w) = live (enter_tm 0 w)" by (simp_all add: gains_def same fun_eq_iff)
  have core: "core ?w = core w" by (simp add: on_bus_post)
  have "wd_clock ?w = wd_clock w" "wd_reads ?w = wd_reads w" "poll_cout ?w = poll_cout w" "poll_running ?w = poll_running w"
    unfolding poll_core_views [of ?w, symmetric] core by (simp_all add: poll_core_views)
  then show "poll_built u c (ys @ [msg]) g k n ?w"
    using assms by (simp add: poll_built_def poll_world_def same on_bus_post) (simp add: post_events_def one_subscriber_def poll_queued_def)
qed


lemma notifier_built:
  fixes c :: "nat \<Rightarrow> time"
  defines "w \<equiv> notifier_setup (poll_start c)"
  obtains e1 e2 where "e_task e1 = NoArgModel Refresh" "e_task e2 = NoArgModel Cleanup" "poll_world On_message c [Changed] {#Cleanup, Refresh#} w"
    "wd_reads w = 2" "poll_cout w = []" "e_priority e2 = normal"
    "if c 0 + milliseconds 2 \<le> c 1 then live_delayed (enter_tm 0 w) = {#} else live_delayed (enter_tm 0 w) = {#e2#} \<and> e_due e2 = c 0 + milliseconds 2"
    "\<forall>q < 3. live_in (enter_tm 0 w) queued_ready (tm_ready (enter_tm 0 w) q) =
       (if q = 1 then if c 0 + milliseconds 2 \<le> c 1 then [e1, e2] else [e1] else [])"
proof -
  let ?w0 = "poll_ready On_message c" let ?w1 = "on_bus 0 (ep_post Poll_type (PollEvent Changed)) ?w0"
  let ?w2 = "poll_post Refresh ?w1" let ?w3 = "poll_post_after (milliseconds 2) Cleanup ?w2"
  note start = poll_built_ready [of On_message c] note posted = poll_built_posted [OF start(1), where msg = Changed]
  obtain e1 where e1: "e_task e1 = NoArgModel Refresh" "gains e1 None ?w1 ?w2"
    "poll_built On_message c ([] @ [Changed]) (add_mset Refresh {#}) 0 (1 + 1) ?w2"
    by (rule poll_built_post [OF posted(1)]) simp
  obtain e2 where e2: "e_task e2 = NoArgModel Cleanup"
    "gains e2 (if c 0 + milliseconds 2 \<le> c (Suc 0) then None else Some (c 0 + milliseconds 2)) ?w2 ?w3"
    "poll_built On_message c ([] @ [Changed]) (add_mset Cleanup (add_mset Refresh {#})) (Suc (Suc 0)) (1 + 1 + 1) ?w3"
    by (rule poll_built_post_after [OF e1(3)]) simp
  have made: "w = ?w3" by (simp add: w_def notifier_setup_def poll_sources(2) poll_ready_def del: One_nat_def)
  have first: "gains e1 None ?w0 ?w2" using e1(2) by (simp add: posted(2))
  show thesis
    by (rule that [OF e1(1) e2(1)]) (use first e2(2,3) start(2-4) in \<open>auto simp: made poll_built_def gains_def default_TaskOptions_def numeral_2_eq_2\<close>)
qed


lemma notifier_first:
  fixes c :: "nat \<Rightarrow> time"
  defines "w \<equiv> notifier_setup (poll_start c)" and "d \<equiv> c 0 + milliseconds 2"
  assumes mono: "\<And>m n. m \<le> n \<Longrightarrow> c m \<le> c n"
  obtains w' where "notifier_ticks (Suc n) w = notifier_ticks n w'" "if d \<le> c 2 then cleaned c w' else cleaning c d w' \<and> wd_reads w' = 3"
proof -
  obtain e1 e2 where e: "e_task e1 = NoArgModel Refresh" "e_task e2 = NoArgModel Cleanup" and pw: "poll_world On_message c [Changed] {#Cleanup, Refresh#} w"
    and reads: "wd_reads w = 2" and cout: "poll_cout w = []" and p: "e_priority e2 = normal"
    and delayed: "if d \<le> c 1 then live_delayed (enter_tm 0 w) = {#} else live_delayed (enter_tm 0 w) = {#e2#} \<and> e_due e2 = d"
    and ready: "\<forall>q < 3. live_in (enter_tm 0 w) queued_ready (tm_ready (enter_tm 0 w) q) =
      (if q = 1 then if d \<le> c 1 then [e1, e2] else [e1] else [])"
    unfolding w_def d_def by (rule notifier_built [of c])
  have few: "size {#Cleanup, Refresh#} \<le> 128" by simp
  obtain v fs g w' due where it: "poll_tick (\<lambda>now. recommend_wait_for now (milliseconds 1)) w = (v, w')" "v = Again \<or> (\<exists>old l. v = Sleep old (Some l))"
    "poll_world On_message c (concat (map posts fs)) g w'" "{#Cleanup, Refresh#} = mset fs + g"
    "live (enter_tm 0 w') = filter_mset (\<lambda>e. c (wd_reads w) < e_due e) (live_delayed (enter_tm 0 w))"
    "live_delayed (enter_tm 0 w') = live (enter_tm 0 w')"
    "wd_reads w' = (if [Changed] = [] \<and> fs = [] then Suc (Suc (wd_reads w)) else Suc (wd_reads w))"
    "poll_cout w' = poll_cout w @ concat (map event_line [Changed]) @ concat (map prints fs)"
    "poll_running w' = (poll_running w \<and> \<not> (On_message = On_log_event \<and> ''quit'' \<in> set [Changed]))"
    "mset due = filter_mset (\<lambda>e. e_due e \<le> c (wd_reads w)) (live_delayed (enter_tm 0 w))"
    "map NoArgModel fs = map e_task (in_line (enter_tm 0 w) due)"
    by (rule poll_pass [OF pw few recommends_ms(2)])
  have c12: "c 1 \<le> c 2" using mono by simp
  have due: "due = (if \<not> d \<le> c 1 \<and> d \<le> c 2 then [e2] else [])"
    using it(10) delayed by (auto simp: reads split: if_splits)
  have "in_line (enter_tm 0 w) due = (if d \<le> c 2 then [e1, e2] else [e1])"
    using c12 by (auto simp: in_line_def ready due of_priority_def p)
  then have fs: "fs = (if d \<le> c 2 then [Refresh, Cleanup] else [Refresh])" using it(11) e by (auto simp: map_eq_Cons_conv split: if_splits)
  then have g: "g = (if d \<le> c 2 then {#} else {#Cleanup#})" using it(4) by (auto split: if_splits)
  have "if d \<le> c 2 then cleaned c w' else cleaning c d w' \<and> wd_reads w' = 3"
    using it(3,5,6,7,8) delayed c12 by (auto simp: cleaned_def cleaning_def fs g reads cout split: if_splits)
  then show thesis using that [OF notifier_next [OF it(1,2)]] by blast
qed

text \<open>
  \<^verbatim>\<open>examples/external_notifier.cpp\<close> returns from its five passes without an exception. It has printed the event and
  then the refresh, and after them the clean-up exactly if that had come due by the last of the passes, at whose \<^verbatim>\<open>process()\<close>
  the clock is read for the tenth time.
\<close>

theorem external_notifier_example:
  assumes mono: "\<forall>m n. m \<le> n \<longrightarrow> clock m \<le> clock n"
  shows "\<exists>w. external_notifier_main clock = Some (None, w) \<and>
    poll_cout w = [Text ''event: '', Text ''configuration changed'', endl, Text ''task: '', Text ''refresh cache'', endl] @
      (if clock 0 + milliseconds 2 \<le> clock 9 then [Text ''task: '', Text ''delayed cleanup'', endl] else [])"
proof -
  let ?d = "clock 0 + milliseconds 2"
  have mono': "m \<le> n \<Longrightarrow> clock m \<le> clock n" for m n using mono by blast
  obtain w where w: "notifier_ticks (Suc 4) (notifier_setup (poll_start clock)) = notifier_ticks 4 w"
    "if ?d \<le> clock 2 then cleaned clock w else cleaning clock ?d w \<and> wd_reads w = 3"
    by (rule notifier_first [of clock 4, OF mono'])
  have "\<exists>w'. notifier_ticks 4 w = Some (None, w') \<and> (if ?d \<le> clock 9 then cleaned clock w' else cleaning clock ?d w')"
  proof (cases "?d \<le> clock 2")
    case True
    then have "?d \<le> clock 9" using mono' [of 2 9] by simp
    then show ?thesis using cleaned_ticks [of clock w 4] w(2) True by simp
  next
    case False
    then show ?thesis using cleaning_ticks [where c = clock and d = ?d and w = w and n = 3] mono' w(2) False by simp
  qed
  moreover have "5 = Suc (4::nat)" by simp
  ultimately obtain w' where w': "notifier_ticks 5 (notifier_setup (poll_start clock)) = Some (None, w')"
    "if ?d \<le> clock 9 then cleaned clock w' else cleaning clock ?d w'" using w(1) by metis
  show ?thesis
    by (intro exI [of _ "poll_reset w'"]) (use w' in \<open>simp add: external_notifier_main_def poll_reset_cout cleaned_def cleaning_def
      event_line_def task_line_def split: if_splits\<close>)
qed

theorem external_notifier_example_witness:
  "\<exists>w. external_notifier_main (\<lambda>n. milliseconds (int n)) = Some (None, w) \<and>
    poll_cout w = [Text ''event: '', Text ''configuration changed'', endl, Text ''task: '', Text ''refresh cache'', endl,
      Text ''task: '', Text ''delayed cleanup'', endl]"
proof -
  have "\<forall>m n. m \<le> n \<longrightarrow> milliseconds (int m) \<le> milliseconds (int n)" by (simp add: milliseconds_def)
  from external_notifier_example [OF this] show ?thesis by (simp add: milliseconds_def)
qed

end
