(* ===== verification/Spec2Isabelle.thy ===== *)
theory Spec2Isabelle
  imports Hub_Prelude Std_Heap Id_Source Task Task_Manager Task_Process Task_Inv Task_Inv_Ops Task_Inv_Process Task_States Task_Steps Task_Order Task_Examples Task_Theorems Task_Behaviour Task_Lifecycle Task_Accept Task_Refine Event_Bus Bus_Theorems
    Event_Types Cancel_Token Awaiter Awaiter_Theorems Endpoint Endpoint_Theorems Endpoint_Examples Notifier
    Hub_World Run_Loop Run_Loop_Theorems Module Module_Hub Module_Theorems Module_Examples Task_Frame
    Calendar_Time Calendar_Next Calendar_Scheduler Calendar_Rules Calendar_Theorems Calendar_Examples
    Task_Live Task_Drain Example_Base Example_Bus Example_Await Example_Tasks World_Drain Example_Loop
    Example_Poll Example_Poll_Bus Example_Poll_Notifier
begin

text \<open>
  A verification development for event-hub-cpp, a header-only C++ library (\<^verbatim>\<open>src/include/event_hub\<close>) of
  passive building blocks for event-driven programs: typed buses, endpoints, awaiters and cancellation
  tokens, a task queue with delays, priorities and cancellation, and the loops and modules that drive
  them. Nothing in the library runs by itself: an owner calls \<^verbatim>\<open>process()\<close>, callbacks run inside that
  call, and they may call every operation again.

  \<^bold>\<open>The parts and how they interact.\<close>
  A \<^verbatim>\<open>TaskManager\<close> accepts callables and runs those that are due. An \<^verbatim>\<open>EventBus\<close> maps event types to
  subscriptions, dispatches events to them and queues posted events. An \<^verbatim>\<open>EventEndpoint\<close> subscribes at
  a bus under a guard, which every callback locks before it runs; an \<^verbatim>\<open>EventNode\<close> is an endpoint that is
  itself a listener. An awaiter is a subscription with a predicate, a time-out and a cancellation token;
  the bus polls the awaiters. Requests are events with an id that an awaiter matches. A \<^verbatim>\<open>RunLoop\<close> drives
  buses and managers on the caller's thread and sleeps on a \<^verbatim>\<open>SyncNotifier\<close>, which posts and submissions
  notify. A \<^verbatim>\<open>Module\<close> owns a node and a manager, on the hub's thread or a worker's; a \<^verbatim>\<open>ModuleHub\<close>
  owns a bus and the modules, initialises, processes and shuts them down. A \<^verbatim>\<open>CalendarScheduler\<close> keeps
  daily, weekly, monthly and custom rules, and for each rule one delayed task in a manager, which runs the
  rule and queues its next occurrence.

  \<^bold>\<open>Theories and code.\<close>
  \<^item> \<open>Hub_Prelude\<close>: exception values, machine integers, results, shared lemmas. \<open>Id_Source\<close>:
    \<^verbatim>\<open>RequestIdGenerator\<close> of \<^verbatim>\<open>request.hpp\<close> and the contract \<open>id_source\<close> of the id generators.
    \<open>Std_Heap\<close>: \<^verbatim>\<open>std::push_heap\<close> and \<^verbatim>\<open>std::pop_heap\<close>, and the contract \<open>prio_heap\<close> of a binary heap.
  \<^item> \<open>Task\<close>: \<^verbatim>\<open>task.hpp\<close>. \<open>Task_Manager\<close>: the state and the producer side of \<^verbatim>\<open>task_manager.hpp\<close>, one
    definition per critical section. \<open>Task_Process\<close>: \<^verbatim>\<open>process()\<close> and the helpers it calls.
    \<open>Task_Steps\<close>: the manager under concurrency, an inductive step relation in which operations of
    producers interleave with the atomic actions of \<^verbatim>\<open>process()\<close> calls, the lock-free claim of a task
    included.
  \<^item> \<open>Task_Inv\<close>, \<open>Task_Inv_Ops\<close>, \<open>Task_Inv_Process\<close>: the invariant (each live entry is in exactly one
    place, the counters are the numbers of live entries) and its preservation by every operation.
    \<open>Task_States\<close>: the edges of a control block's life. \<open>Task_Order\<close>: list-level references of
    promotion, snapshot and restoration. \<open>Task_Theorems\<close>, \<open>Task_Behaviour\<close>, \<open>Task_Lifecycle\<close>,
    \<open>Task_Accept\<close>: the properties; \<open>Task_Refine\<close>: \<^verbatim>\<open>process()\<close> as a run of the step relation;
    \<open>Task_Live\<close>: a call with room serves every due task; \<open>Task_Drain\<close>: what a call does exactly to
    one-shot tasks that leave the manager alone;
    \<open>Task_Examples\<close>: the managers they are applied to.
  \<^item> \<open>Event_Bus\<close>: \<^verbatim>\<open>event_bus.hpp\<close>; the subscription tables, the event queue, the awaiter list and the
    callback guards are fields of one record, which the components above extend. \<open>Bus_Theorems\<close>: its
    invariant, dispatch and \<^verbatim>\<open>process()\<close> against references, the contract \<open>polled_awaiters\<close>.
  \<^item> \<open>Event_Types\<close>: \<^verbatim>\<open>event.hpp\<close>, \<^verbatim>\<open>event_listener.hpp\<close> and the reply of \<^verbatim>\<open>request.hpp\<close>.
    \<open>Cancel_Token\<close>: \<^verbatim>\<open>cancellation.hpp\<close>. \<open>Awaiter\<close>, \<open>Awaiter_Theorems\<close>: \<^verbatim>\<open>event_awaiter.hpp\<close> and
    \<^verbatim>\<open>awaiter_interfaces.hpp\<close>. \<open>Endpoint\<close>, \<open>Endpoint_Theorems\<close>: \<^verbatim>\<open>event_endpoint.hpp\<close>,
    \<^verbatim>\<open>event_node.hpp\<close> and the requests built on them; \<open>Endpoint_Examples\<close>: a concrete bus.
  \<^item> \<open>Notifier\<close>: \<^verbatim>\<open>notifier.hpp\<close> as a step relation of waiters and notifiers.
  \<^item> \<open>Hub_World\<close>: the world of buses, managers, notifiers and the clock, the effect of a callback on it,
    and the contract \<open>stoppable_loop\<close> of the blocking loops. \<open>Run_Loop\<close>, \<open>Run_Loop_Theorems\<close>:
    \<^verbatim>\<open>run_loop.hpp\<close>. \<open>Module\<close>, \<open>Module_Hub\<close>, \<open>Module_Theorems\<close>: \<^verbatim>\<open>module.hpp\<close> and
    \<^verbatim>\<open>module_hub.hpp\<close>; \<open>Module_Examples\<close>: a concrete hub.
  \<^item> \<open>Calendar_Time\<close>: the times, options, schedules and rule providers of \<^verbatim>\<open>calendar_scheduler/types.hpp\<close> and
    \<^verbatim>\<open>calendar_scheduler/detail.hpp\<close>; what they call of the library time-shield is the parameter
    \<open>time_shield\<close>. \<open>Calendar_Next\<close>: the search for the next occurrence against its specification, and a
    concrete calendar. \<open>Task_Frame\<close>: what a task manager leaves alone, and the contract \<open>tm_rider\<close> of what
    lives on top of one. \<open>Calendar_Scheduler\<close>: \<^verbatim>\<open>calendar_scheduler.hpp\<close>, whose state extends the
    manager's. \<open>Calendar_Rules\<close>: what every operation keeps; \<open>Calendar_Theorems\<close>: the properties;
    \<open>Calendar_Examples\<close>: a scheduler with one rule.
  \<^item> \<open>World_Drain\<close>: managers of one-shot tasks and a bus with one subscriber inside the world.
    \<open>Example_Base\<close>, \<open>Example_Bus\<close>, \<open>Example_Await\<close>, \<open>Example_Tasks\<close>, \<open>Example_Loop\<close>,
    \<open>Example_Poll\<close>, \<open>Example_Poll_Bus\<close>, \<open>Example_Poll_Notifier\<close>: programs of \<^verbatim>\<open>src/examples\<close> over the definitions above, statement by statement.

  \<^bold>\<open>How code becomes definitions.\<close>
  A class is a record and its methods are functions from state to state, in the order of the source's
  statements; a critical section is one definition. An exception is the \<open>Some\<close> or \<open>Inl\<close> of the result, next
  to the state it leaves behind. User code (tasks, callbacks, predicates, hooks) is a parameter that may
  change the whole state it can reach and may throw: a callback is a handle and the parameter says what
  calling it does. Identifiers and counters are 64-bit words and wrap as the code does; times are
  unbounded integers and every reading of the clock is an argument or a step of the world.
  Where the state of one object has to be visible while another one runs (a bus during a task, a module
  during a hook), the object's record is extended by the world and written back around every call of
  user code.

  \<^bold>\<open>What the lemmas show.\<close>
  For the task manager: no accepted task is lost or started twice, a cancelled one never starts, the
  counters are exact in every concurrent run, and each atomic step takes a block along at most one edge of
  its life cycle; a \<^verbatim>\<open>process()\<close> call around user code made of operations is such a run; a \<^verbatim>\<open>process()\<close> call runs
  its snapshot in the order of priority and submission, an exception puts the rest back in order;
  periodic and rescheduled tasks run again; cancelling, closing, clearing, batches and deadlines do
  what they promise. For the bus: dispatch reaches exactly the live subscriptions in order, exceptions
  leave the tables consistent, \<^verbatim>\<open>process()\<close> delivers what was queued when it began. For endpoints and
  awaiters: a closed endpoint is silent even within a dispatch under way, once its callbacks that were under
  way have returned (before that a nested dispatch still starts one), an awaiter with one shot fires
  once, requests draw fresh ids and meet the result with their id and no other. For the loops: a
  notification is never lost, the loop sleeps only when idle, a stop request ends it, modules initialise
  all or none, a module shut down stays so, and a hub's run ends with the modules stopped and the
  notifiers gone. For the calendar scheduler: a rule's next time is the earliest occurrence after the
  given instant, under a fixed offset there always is one, a run that leaves its rule active queues exactly one
  task for the next occurrence, or completes the rule, or lets the exception of a custom provider leave
  (and then nothing is queued for the rule), a cancelled rule is silent for good, and a throwing callback ends its rule. What time-shield is
  assumed to do is stated as predicates on the parameter (\<open>days_ok\<close>, \<open>weekdays_ok\<close>, \<open>month_days_ok\<close>,
  \<open>zone_ok\<close>), which a concrete calendar is shown to satisfy. The example programs print what their sources
  say they do; \<^verbatim>\<open>task_manager.cpp\<close>, \<^verbatim>\<open>run_loop.cpp\<close> and \<^verbatim>\<open>task_manager_with_bus.cpp\<close> end once the clock has
  passed their timers.

  \<^bold>\<open>Fuel.\<close>
  A loop that another thread has to stop (\<^verbatim>\<open>RunLoop::run\<close>, a worker's loop, \<^verbatim>\<open>ModuleHub::run\<close>) takes
  fuel, and \<open>None\<close> is a loop still running. \<open>stop_request_returns\<close> gives the fuel that is enough after
  a stop request. The loops of the example programs take fuel as well, and the theorems that they end show
  that some is enough. Every other loop is structural recursion over the list the code iterates, or has its
  termination proved: pruning and promoting shrink the heap of delayed tasks.

  \<^bold>\<open>Not modelled.\<close>
  Allocation failure and failure to create a thread; the text of error messages; signed overflow of time
  points (undefined in the source); data races inside one call of a component other than the task manager
  and the notifier (buses, endpoints, modules and calendar schedulers are modelled as sequences of calls that
  re-enter one another); a promise abandoned without an answer (\<^verbatim>\<open>broken_promise\<close>); the release of a closure's
  captures. Of the programs in \<^verbatim>\<open>src/examples\<close> those around one bus, around task managers of one-shot
  tasks, and around both are modelled; the others drive modules, worker threads, calendars or periodic tasks. The tests are programs that use the
  library and are not modelled.
\<close>

end
